(* ===== verification/Prelude.thy ===== *)
theory Prelude
  imports Main "HOL-Library.State_Monad" "HOL-Library.AList"
begin

text \<open>
  What every component shares: the collections of the development, Go's
  \<open>(value, error)\<close> results in the state monad, loops that stop at the first error, and
  the locale \<open>io_order\<close>, which lifts a reflexive and transitive relation between the states
  before and after a call (for instance "only appends GET requests to the trace") from the
  single calls to the code composed of them.
\<close>

named_theorems io_intros "composition rules for relations between the states of an operation"
named_theorems op_defs "definitions of the operations a proof may unfold"

section \<open>Results that may be errors\<close>

text \<open>
  A Go function that returns \<open>(v, err)\<close> is a state transformer whose value is \<open>Inl err\<close> or
  \<open>Inr v\<close>; \<open>bindE\<close> is the statement \<open>if err != nil { return err }\<close> between two of them.
\<close>

definition bindE :: "('s, 'e + 'a) state \<Rightarrow> ('a \<Rightarrow> ('s, 'e + 'b) state) \<Rightarrow> ('s, 'e + 'b) state" where
  "bindE m f = do { r \<leftarrow> m; case r of Inl e \<Rightarrow> State_Monad.return (Inl e) | Inr a \<Rightarrow> f a }"

definition okE :: "'a \<Rightarrow> ('s, 'e + 'a) state" where
  "okE a = State_Monad.return (Inr a)"

definition errE :: "'e \<Rightarrow> ('s, 'e + 'a) state" where
  "errE e = State_Monad.return (Inl e)"

lemma run_okE [simp]: "run_state (okE a) s = (Inr a, s)"
  by (simp add: okE_def)

lemma run_errE [simp]: "run_state (errE e) s = (Inl e, s)"
  by (simp add: errE_def)

lemma run_bindE [simp]:
  "run_state (bindE m f) s =
     (case run_state m s of (Inl e, s') \<Rightarrow> (Inl e, s') | (Inr a, s') \<Rightarrow> run_state (f a) s')"
  by (simp add: bindE_def split: prod.splits sum.splits)

lemma bindE_okE [simp]: "bindE (okE a) f = f a"
  by (simp add: bindE_def okE_def)

lemma bindE_errE [simp]: "bindE (errE e) f = errE e"
  by (simp add: bindE_def errE_def)

lemma bindE_cong: "m = m' \<Longrightarrow> (\<And>a. f a = f' a) \<Longrightarrow> bindE m f = bindE m' f'"
  by (simp add: bindE_def cong: sum.case_cong)

lemma bindE_assoc: "bindE (bindE m f) g = bindE m (\<lambda>a. bindE (f a) g)"
  by (rule state_ext) (simp split: prod.splits sum.splits)

lemma run_update [simp]: "run_state (State_Monad.update f) s = ((), f s)"
  by (simp add: State_Monad.update_def)

text \<open>The loop \<open>for _, x := range xs { if err := f(x); err != nil { return err } }\<close>.\<close>

fun foldE :: "('k \<Rightarrow> 'a \<Rightarrow> ('s, 'e + 'a) state) \<Rightarrow> 'k list \<Rightarrow> 'a \<Rightarrow> ('s, 'e + 'a) state" where
  "foldE f [] a = okE a"
| "foldE f (x # xs) a = bindE (f x a) (foldE f xs)"

lemma foldE_append: "foldE f (xs @ ys) a = bindE (foldE f xs a) (foldE f ys)"
  by (induction xs arbitrary: a) (auto simp: bindE_assoc intro!: bindE_cong)

section \<open>Relations between the states before and after\<close>

locale io_order =
  fixes R :: "'s \<Rightarrow> 's \<Rightarrow> bool"
  assumes refl_R: "R s s"
    and trans_R: "R s t \<Longrightarrow> R t u \<Longrightarrow> R s u"
begin

lemma io_return [io_intros]: "state_io_rel R (State_Monad.return a)"
  by (rule state_io_relI) (simp add: State_Monad.return_def refl_R)

lemma io_okE [io_intros]: "state_io_rel R (okE a)"
  by (simp add: okE_def io_return)

lemma io_errE [io_intros]: "state_io_rel R (errE a)"
  by (simp add: errE_def io_return)

lemma io_get [io_intros]: "state_io_rel R State_Monad.get"
  by (rule state_io_relI) (simp add: refl_R)

lemma io_bind [io_intros]:
  assumes "state_io_rel R m" and "\<And>a. state_io_rel R (f a)"
  shows "state_io_rel R (State_Monad.bind m f)"
proof (rule state_io_relI)
  fix b s s' assume run: "run_state (State_Monad.bind m f) s = (b, s')"
  obtain a t where m: "run_state m s = (a, t)" by fastforce
  with run have "run_state (f a) t = (b, s')" by simp
  with assms m show "R s s'" by (meson state_io_relD trans_R)
qed

lemma io_bindE [io_intros]:
  assumes "state_io_rel R m" and "\<And>a. state_io_rel R (f a)"
  shows "state_io_rel R (bindE m f)"
  unfolding bindE_def
  by (rule io_bind [OF assms(1)]) (auto split: sum.split intro: assms(2) io_return)

lemma io_foldE [io_intros]:
  "(\<And>x a. x \<in> set xs \<Longrightarrow> state_io_rel R (f x a)) \<Longrightarrow> state_io_rel R (foldE f xs a)"
proof (induction xs arbitrary: a)
  case Nil
  show ?case by (simp add: io_okE)
next
  case (Cons x xs)
  have "state_io_rel R (foldE f xs b)" for b
    by (rule Cons.IH) (simp add: Cons.prems)
  then show ?case by (auto intro!: io_bindE Cons.prems)
qed

end

lemma state_io_rel_mono: "state_io_rel R m \<Longrightarrow> (\<And>s t. R s t \<Longrightarrow> S s t) \<Longrightarrow> state_io_rel S m"
  by (simp add: state_io_rel_def)

lemma state_io_rel_run: "state_io_rel R m \<Longrightarrow> run_state m s = (a, t) \<Longrightarrow> R s t"
  by (rule state_io_relD)

lemma state_io_relI': "(\<And>s. R s (snd (run_state m s))) \<Longrightarrow> state_io_rel R m"
  by (simp add: state_io_rel_def)

text \<open>A loop whose body returns what a pure function computes is the fold of that function.\<close>

lemma foldE_pure:
  assumes "\<And>x a s. x \<in> set xs \<Longrightarrow> fst (run_state (f x a) s) = Inr (g x a)"
  shows "fst (run_state (foldE f xs a) s) = Inr (fold g xs a)"
  using assms
proof (induction xs arbitrary: a s)
  case Nil
  then show ?case by simp
next
  case (Cons x xs)
  obtain s' where "run_state (f x a) s = (Inr (g x a), s')"
    using Cons.prems [of x a s] by (cases "run_state (f x a) s") auto
  with Cons show ?case by simp
qed

section \<open>Two operations in step\<close>

text \<open>\<open>in_step R m n\<close>: from related states the two operations return the same and end in related states.\<close>

definition in_step :: "('s \<Rightarrow> 't \<Rightarrow> bool) \<Rightarrow> ('s, 'a) state \<Rightarrow> ('t, 'a) state \<Rightarrow> bool" where
  "in_step R m n \<longleftrightarrow> (\<forall>s t. R s t \<longrightarrow>
     fst (run_state m s) = fst (run_state n t) \<and> R (snd (run_state m s)) (snd (run_state n t)))"

named_theorems in_step_intros "composition rules for operations that run in step"

lemma in_step_return [in_step_intros]: "in_step R (State_Monad.return a) (State_Monad.return a)"
  by (simp add: in_step_def)

lemma in_step_bind [in_step_intros]:
  "in_step R m n \<Longrightarrow> (\<And>a. in_step R (f a) (g a)) \<Longrightarrow> in_step R (State_Monad.bind m f) (State_Monad.bind n g)"
  by (simp add: in_step_def split_beta)

lemma in_stepD:
  "in_step R m n \<Longrightarrow> R s t \<Longrightarrow> run_state m s = (a, s') \<Longrightarrow> \<exists>t'. run_state n t = (a, t') \<and> R s' t'"
  by (metis fst_conv in_step_def prod.collapse snd_conv)

section \<open>In step, up to a relation of the results\<close>

text \<open>\<open>in_step_upto R Q m n\<close>: the same, with results that are related by \<open>Q\<close>.\<close>

definition in_step_upto :: "('s \<Rightarrow> 't \<Rightarrow> bool) \<Rightarrow> ('a \<Rightarrow> 'b \<Rightarrow> bool) \<Rightarrow> ('s, 'a) state \<Rightarrow> ('t, 'b) state \<Rightarrow> bool" where
  "in_step_upto R Q m n \<longleftrightarrow> (\<forall>s t. R s t \<longrightarrow>
     Q (fst (run_state m s)) (fst (run_state n t)) \<and> R (snd (run_state m s)) (snd (run_state n t)))"

lemma upto_return: "Q a b \<Longrightarrow> in_step_upto R Q (State_Monad.return a) (State_Monad.return b)"
  by (simp add: in_step_upto_def)

lemma upto_okE: "Q a b \<Longrightarrow> in_step_upto R (rel_sum E Q) (okE a) (okE b)"
  by (simp add: okE_def upto_return)

lemma upto_errE: "E e f \<Longrightarrow> in_step_upto R (rel_sum E Q) (errE e) (errE f)"
  by (simp add: errE_def upto_return)

lemma upto_bind:
  "in_step_upto R P m n \<Longrightarrow> (\<And>a b. P a b \<Longrightarrow> in_step_upto R Q (f a) (g b)) \<Longrightarrow>
   in_step_upto R Q (State_Monad.bind m f) (State_Monad.bind n g)"
  by (simp add: in_step_upto_def split_beta)

lemma upto_bindE:
  assumes "in_step_upto R (rel_sum E P) m n" and "\<And>a b. P a b \<Longrightarrow> in_step_upto R (rel_sum E Q) (f a) (g b)"
  shows "in_step_upto R (rel_sum E Q) (bindE m f) (bindE n g)"
  unfolding bindE_def
  by (rule upto_bind [OF assms(1)], erule rel_sum.cases) (simp_all add: assms(2) upto_return)

lemma upto_foldE:
  assumes "\<And>x a b. x \<in> set xs \<Longrightarrow> Q a b \<Longrightarrow> in_step_upto R (rel_sum E Q) (f x a) (g x b)" and "Q a b"
  shows "in_step_upto R (rel_sum E Q) (foldE f xs a) (foldE g xs b)"
  using assms
proof (induction xs arbitrary: a b)
  case (Cons x xs)
  have "in_step_upto R (rel_sum E Q) (foldE f xs c) (foldE g xs d)" if "Q c d" for c d
    using that Cons by simp
  with Cons.prems show ?case by (auto intro!: upto_bindE)
qed (simp add: upto_okE)

lemma upto_sum:
  "rel_sum E P x y \<Longrightarrow> (\<And>e f. E e f \<Longrightarrow> in_step_upto R Q (m e) (n f)) \<Longrightarrow>
   (\<And>a b. P a b \<Longrightarrow> in_step_upto R Q (m' a) (n' b)) \<Longrightarrow> in_step_upto R Q (case_sum m m' x) (case_sum n n' y)"
  by (auto elim: rel_sum.cases)

lemma upto_option:
  "rel_option P x y \<Longrightarrow> in_step_upto R Q m n \<Longrightarrow> (\<And>a b. P a b \<Longrightarrow> in_step_upto R Q (f a) (g b)) \<Longrightarrow>
   in_step_upto R Q (case_option m f x) (case_option n g y)"
  by (auto elim: option.rel_cases)

lemma uptoD:
  "in_step_upto R Q m n \<Longrightarrow> R s t \<Longrightarrow>
   Q (fst (run_state m s)) (fst (run_state n t)) \<and> R (snd (run_state m s)) (snd (run_state n t))"
  by (simp add: in_step_upto_def)

section \<open>What an operation yields\<close>

text \<open>\<open>yields Q m\<close>: whenever \<open>m\<close> succeeds its value satisfies \<open>Q\<close>.\<close>

definition yields :: "('a \<Rightarrow> bool) \<Rightarrow> ('s, 'e + 'a) state \<Rightarrow> bool" where
  "yields Q m \<longleftrightarrow> (\<forall>s r s'. run_state m s = (Inr r, s') \<longrightarrow> Q r)"

named_theorems yields_intros "composition rules for what an operation yields"

lemma yields_okE [yields_intros]: "Q a \<Longrightarrow> yields Q (okE a)"
  by (simp add: yields_def)

lemma yields_errE [yields_intros]: "yields Q (errE e)"
  by (simp add: yields_def)

lemma yields_bindE [yields_intros]: "(\<And>a. yields Q (f a)) \<Longrightarrow> yields Q (bindE m f)"
  by (auto simp: yields_def split: prod.splits sum.splits)

lemma yields_bindE_via: "yields P m \<Longrightarrow> (\<And>a. P a \<Longrightarrow> yields Q (f a)) \<Longrightarrow> yields Q (bindE m f)"
  by (fastforce simp: yields_def split: prod.splits sum.splits)

lemma yields_bind [yields_intros]: "(\<And>a. yields Q (f a)) \<Longrightarrow> yields Q (State_Monad.bind m f)"
  by (auto simp: yields_def split: prod.splits)

lemma yields_foldE [yields_intros]:
  "Q a \<Longrightarrow> (\<And>x a. x \<in> set xs \<Longrightarrow> Q a \<Longrightarrow> yields Q (f x a)) \<Longrightarrow> yields Q (foldE f xs a)"
proof (induction xs arbitrary: a)
  case Nil
  then show ?case by (simp add: yields_okE)
next
  case (Cons x xs)
  have "yields Q (f x a)" using Cons.prems by simp
  then show ?case using Cons by (auto intro: yields_bindE_via)
qed

text \<open>\<open>fails_with P m\<close>: whenever \<open>m\<close> fails its error satisfies \<open>P\<close>.\<close>

definition fails_with :: "('e \<Rightarrow> bool) \<Rightarrow> ('s, 'e + 'a) state \<Rightarrow> bool" where
  "fails_with P m \<longleftrightarrow> (\<forall>s e s'. run_state m s = (Inl e, s') \<longrightarrow> P e)"

named_theorems fails_intros "composition rules for the errors of an operation"

lemma fails_okE [fails_intros]: "fails_with P (okE a)"
  by (simp add: fails_with_def)

lemma fails_errE [fails_intros]: "P e \<Longrightarrow> fails_with P (errE e)"
  by (simp add: fails_with_def)

lemma fails_bindE [fails_intros]:
  "fails_with P m \<Longrightarrow> (\<And>a. fails_with P (f a)) \<Longrightarrow> fails_with P (bindE m f)"
  by (auto simp: fails_with_def split: prod.splits sum.splits)

lemma fails_bind [fails_intros]: "(\<And>a. fails_with P (f a)) \<Longrightarrow> fails_with P (State_Monad.bind m f)"
  by (auto simp: fails_with_def split: prod.splits)

lemma fails_foldE [fails_intros]:
  "(\<And>x a. x \<in> set xs \<Longrightarrow> fails_with P (f x a)) \<Longrightarrow> fails_with P (foldE f xs a)"
  by (induction xs arbitrary: a) (auto intro!: fails_okE fails_bindE)

section \<open>Sums in sequence\<close>

fun mapE :: "('a \<Rightarrow> 'e + 'b) \<Rightarrow> 'a list \<Rightarrow> 'e + 'b list" where
  "mapE f [] = Inr []"
| "mapE f (x # xs) =
     (case f x of Inl e \<Rightarrow> Inl e | Inr y \<Rightarrow> (case mapE f xs of Inl e \<Rightarrow> Inl e | Inr ys \<Rightarrow> Inr (y # ys)))"

text \<open>A loop whose body fails or extends its argument as a function \<open>spec\<close> says, and appends \<open>log x\<close> to a log.\<close>

lemma foldE_spec:
  assumes body: "\<And>x a s. x \<in> set xs \<Longrightarrow>
      fst (run_state (f x a) s) = (case spec x of Inl e \<Rightarrow> Inl e | Inr b \<Rightarrow> Inr (ext b a))"
  shows "fst (run_state (foldE f xs a) s) =
      (case mapE spec xs of Inl e \<Rightarrow> Inl e | Inr bs \<Rightarrow> Inr (fold ext bs a))"
  using assms
proof (induction xs arbitrary: a s)
  case Nil
  then show ?case by simp
next
  case (Cons x xs)
  obtain r s' where run: "run_state (f x a) s = (r, s')" by fastforce
  have "r = (case spec x of Inl e \<Rightarrow> Inl e | Inr b \<Rightarrow> Inr (ext b a))" using Cons.prems [of x a s] run by simp
  moreover have IH: "fst (run_state (foldE f xs b) t) =
      (case mapE spec xs of Inl e \<Rightarrow> Inl e | Inr bs \<Rightarrow> Inr (fold ext bs b))" for b t
    using Cons.IH Cons.prems by simp
  ultimately show ?case by (cases "spec x") (auto simp: run split: sum.split)
qed

section \<open>Maps as association lists\<close>

text \<open>
  A Go map with string keys whose size or iteration the code looks at is an association list
  with distinct keys, built by \<open>AList.update\<close>; the iteration order of the code is always
  fixed by a sort.
\<close>

lemma distinct_keys_update [simp]:
  "distinct (map fst kvs) \<Longrightarrow> distinct (map fst (AList.update k v kvs))"
  by (rule distinct_update)

lemma map_of_eq_None_keys: "map_of kvs k = None \<longleftrightarrow> k \<notin> set (map fst kvs)"
  by (simp add: map_of_eq_None_iff)

end
