(* ===== verification/GoStrings.thy ===== *)
theory GoStrings
  imports Prelude "HOL-Library.List_Lexorder" "HOL-Library.Char_ord" "HOL-Library.Sublist"
begin

text \<open>
  The part of Go's string library the program uses. A Go string is a sequence of bytes, here
  a list of HOL characters, which are bytes; the order of strings is the byte-wise one of
  \<open>sort.Strings\<close>. \<open>strings.ToLower\<close> and \<open>strings.TrimSpace\<close> work on UTF-8 code points, so
  the theory also holds the UTF-8 decoder of package \<open>unicode/utf8\<close>. The table
  \<open>unicode.ToLower\<close> of non-ASCII code points is data of the language runtime: it is the
  argument \<open>ul\<close> of the functions that use it.
\<close>

named_theorems go_str "equations of the string functions, for evaluation"

abbreviation byte_val :: "char \<Rightarrow> nat" where
  "byte_val c \<equiv> of_char c"

section \<open>Splitting, prefixes and suffixes\<close>

text \<open>\<open>strings.Split(s, sep)\<close> for a one-byte separator.\<close>

fun split_on :: "char \<Rightarrow> string \<Rightarrow> string list" where
  "split_on sep [] = [[]]"
| "split_on sep (c # cs) =
     (if c = sep then [] # split_on sep cs
      else (case split_on sep cs of [] \<Rightarrow> [[c]] | p # ps \<Rightarrow> (c # p) # ps))"

definition has_prefix :: "string \<Rightarrow> string \<Rightarrow> bool" where
  "has_prefix s p \<longleftrightarrow> take (length p) s = p"

definition has_suffix :: "string \<Rightarrow> string \<Rightarrow> bool" where
  "has_suffix s p \<longleftrightarrow> length p \<le> length s \<and> drop (length s - length p) s = p"

definition str_contains :: "string \<Rightarrow> string \<Rightarrow> bool" where
  "str_contains s sub \<longleftrightarrow> sublist sub s"

text \<open>\<open>strings.ReplaceAll\<close> of one byte by another.\<close>

definition replace_byte :: "char \<Rightarrow> char \<Rightarrow> string \<Rightarrow> string" where
  "replace_byte a b s = map (\<lambda>c. if c = a then b else c) s"

lemma split_on_not_Nil [simp]: "split_on sep s \<noteq> []"
  by (cases s) (auto split: list.splits)

lemma split_on_no_sep: "p \<in> set (split_on sep s) \<Longrightarrow> sep \<notin> set p"
proof (induction s arbitrary: p)
  case (Cons c cs)
  then show ?case
    by (cases "split_on sep cs") (auto split: if_splits)
qed simp

lemma split_on_absent: "sep \<notin> set s \<Longrightarrow> split_on sep s = [s]"
  by (induction s) auto

lemma split_on_append: "sep \<notin> set a \<Longrightarrow> split_on sep (a @ sep # s) = a # split_on sep s"
  by (induction a) auto

fun join_with :: "char \<Rightarrow> string list \<Rightarrow> string" where
  "join_with sep [] = []"
| "join_with sep [p] = p"
| "join_with sep (p # ps) = p @ sep # join_with sep ps"

lemma join_with_Cons: "ps \<noteq> [] \<Longrightarrow> join_with sep (p # ps) = p @ sep # join_with sep ps"
  by (cases ps) auto

lemma join_split: "join_with sep (split_on sep s) = s"
proof (induction s)
  case (Cons c cs)
  obtain p ps where "split_on sep cs = p # ps" by (cases "split_on sep cs") auto
  with Cons show ?case by (cases ps) auto
qed simp

lemma split_join:
  "ps \<noteq> [] \<Longrightarrow> (\<And>p. p \<in> set ps \<Longrightarrow> sep \<notin> set p) \<Longrightarrow> split_on sep (join_with sep ps) = ps"
proof (induction sep ps rule: join_with.induct)
  case (3 sep p q ps)
  then show ?case by (simp add: split_on_append)
qed (auto simp: split_on_absent)

lemma has_prefix_iff: "has_prefix s p \<longleftrightarrow> (\<exists>r. s = p @ r)"
  by (metis append_eq_conv_conj append_take_drop_id has_prefix_def)

lemma has_suffix_iff: "has_suffix s p \<longleftrightarrow> (\<exists>r. s = r @ p)"
  unfolding has_suffix_def
  by (metis append_take_drop_id diff_add_inverse2 drop_append drop_all drop0 append_Nil
      le_add2 length_append order_refl diff_self_eq_0)

lemma append_slash_cancel:
  "sep \<notin> set a \<Longrightarrow> sep \<notin> set b \<Longrightarrow> a @ sep # s = b @ sep # t \<longleftrightarrow> a = b \<and> s = t"
proof (induction a arbitrary: b)
  case Nil
  then show ?case by (cases b) auto
next
  case (Cons c a)
  then show ?case by (cases b) auto
qed

section \<open>UTF-8\<close>

text \<open>
  \<open>rune_width s\<close> is the number of bytes \<open>utf8.DecodeRuneInString\<close> consumes from the
  non-empty \<open>s\<close>, 1 for an invalid sequence; \<open>rune_of\<close> is the code point, 65533 (U+FFFD)
  for an invalid sequence.
\<close>

definition byte_in :: "nat \<Rightarrow> nat \<Rightarrow> string \<Rightarrow> nat \<Rightarrow> bool" where
  "byte_in lo hi s i \<longleftrightarrow> i < length s \<and> lo \<le> byte_val (s ! i) \<and> byte_val (s ! i) \<le> hi"

definition rune_width :: "string \<Rightarrow> nat" where
  "rune_width s =
     (let b = byte_val (hd s); cont = byte_in 128 191 s in
      if 194 \<le> b \<and> b \<le> 223 \<and> cont 1 then 2
      else if b = 224 \<and> byte_in 160 191 s 1 \<and> cont 2 then 3
      else if b = 237 \<and> byte_in 128 159 s 1 \<and> cont 2 then 3
      else if 225 \<le> b \<and> b \<le> 239 \<and> b \<noteq> 237 \<and> cont 1 \<and> cont 2 then 3
      else if b = 240 \<and> byte_in 144 191 s 1 \<and> cont 2 \<and> cont 3 then 4
      else if 241 \<le> b \<and> b \<le> 243 \<and> cont 1 \<and> cont 2 \<and> cont 3 then 4
      else if b = 244 \<and> byte_in 128 143 s 1 \<and> cont 2 \<and> cont 3 then 4
      else 1)"

definition rune_error :: nat where
  "rune_error = 65533"

definition rune_of :: "string \<Rightarrow> nat" where
  "rune_of s =
     (let b = byte_val (hd s); low = (\<lambda>i. byte_val (s ! i) mod 64); w = rune_width s in
      if w = 2 then (b mod 32) * 64 + low 1
      else if w = 3 then (b mod 16) * 4096 + low 1 * 64 + low 2
      else if w = 4 then (b mod 8) * 262144 + low 1 * 4096 + low 2 * 64 + low 3
      else if b < 128 then b
      else rune_error)"

lemma rune_width_pos: "1 \<le> rune_width s"
  by (simp add: rune_width_def Let_def)

text \<open>The code points of a string, each with the bytes it was read from.\<close>

function chunks :: "string \<Rightarrow> (nat \<times> string) list" where
  "chunks [] = []"
| "chunks (c # cs) =
     (rune_of (c # cs), take (rune_width (c # cs)) (c # cs)) # chunks (drop (rune_width (c # cs) - 1) cs)"
  by pat_completeness auto
termination by (relation "measure length") auto

definition encode_rune :: "nat \<Rightarrow> string" where
  "encode_rune r =
     (if r < 128 then [char_of r]
      else if r < 2048 then [char_of (192 + r div 64), char_of (128 + r mod 64)]
      else if 1114111 < r \<or> (55296 \<le> r \<and> r \<le> 57343) then [char_of (239::nat), char_of (191::nat), char_of (189::nat)]
      else if r < 65536 then
        [char_of (224 + r div 4096), char_of (128 + r div 64 mod 64), char_of (128 + r mod 64)]
      else [char_of (240 + r div 262144), char_of (128 + r div 4096 mod 64),
            char_of (128 + r div 64 mod 64), char_of (128 + r mod 64)])"

definition is_ascii :: "string \<Rightarrow> bool" where
  "is_ascii s \<longleftrightarrow> list_all (\<lambda>c. byte_val c < 128) s"

lemma concat_chunks: "concat (map snd (chunks s)) = s"
proof (induction s rule: chunks.induct)
  case (2 c cs)
  obtain w where "rune_width (c # cs) = Suc w"
    using rune_width_pos [of "c # cs"] by (cases "rune_width (c # cs)") auto
  with 2 show ?case by (simp add: chunks.simps(2))
qed simp

lemma rune_width_ascii: "byte_val c < 128 \<Longrightarrow> rune_width (c # cs) = 1"
  by (simp add: rune_width_def Let_def)

lemma chunks_ascii_Cons: "byte_val c < 128 \<Longrightarrow> chunks (c # cs) = (byte_val c, [c]) # chunks cs"
  by (simp add: chunks.simps(2) rune_width_ascii rune_of_def Let_def)

declare chunks.simps(2) [simp del]

lemma chunks_ascii: "is_ascii s \<Longrightarrow> chunks s = map (\<lambda>c. (byte_val c, [c])) s"
  by (induction s) (auto simp: is_ascii_def chunks_ascii_Cons)

section \<open>ToLower and TrimSpace\<close>

definition lower_byte :: "char \<Rightarrow> char" where
  "lower_byte c = (if CHR ''A'' \<le> c \<and> c \<le> CHR ''Z'' then char_of (byte_val c + 32) else c)"

text \<open>
  \<open>strings.ToLower\<close>: bytes when the string is ASCII, else code point by code point through
  \<open>unicode.ToLower\<close> (an invalid byte becomes the encoding of U+FFFD, as \<open>strings.Map\<close> does).
\<close>

definition to_lower :: "(nat \<Rightarrow> nat) \<Rightarrow> string \<Rightarrow> string" where
  "to_lower ul s =
     (if is_ascii s then map lower_byte s
      else concat (map (\<lambda>(r, _). encode_rune (ul r)) (chunks s)))"

text \<open>The code points of \<open>unicode.IsSpace\<close>.\<close>

definition is_space_rune :: "nat \<Rightarrow> bool" where
  "is_space_rune r \<longleftrightarrow> (9 \<le> r \<and> r \<le> 13) \<or> r = 32 \<or> r = 133 \<or> r = 160 \<or> r = 5760
     \<or> (8192 \<le> r \<and> r \<le> 8202) \<or> r = 8232 \<or> r = 8233 \<or> r = 8239 \<or> r = 8287 \<or> r = 12288"

definition trim_space :: "string \<Rightarrow> string" where
  "trim_space s =
     (let left = dropWhile (\<lambda>(r, _). is_space_rune r) (chunks s)
      in concat (map snd (rev (dropWhile (\<lambda>(r, _). is_space_rune r) (rev left)))))"

lemma is_ascii_append [simp]: "is_ascii (s @ t) \<longleftrightarrow> is_ascii s \<and> is_ascii t"
  by (simp add: is_ascii_def)

lemma is_ascii_Cons [simp]: "is_ascii (c # t) \<longleftrightarrow> byte_val c < 128 \<and> is_ascii t"
  by (simp add: is_ascii_def)

lemma is_ascii_Nil [simp]: "is_ascii []"
  by (simp add: is_ascii_def)

lemma trim_space_Nil [simp]: "trim_space [] = []"
  by (simp add: trim_space_def)

section \<open>What lower-casing preserves\<close>

text \<open>
  What the program relies on of the table \<open>unicode.ToLower\<close>: it lower-cases ASCII letters,
  keeps the other ASCII code points, and sends a non-ASCII code point to a non-ASCII one or to
  an ASCII lower-case letter (U+212A to k, U+0130 to i).
\<close>

definition lower_table :: "(nat \<Rightarrow> nat) \<Rightarrow> bool" where
  "lower_table ul \<longleftrightarrow>
     (\<forall>r < 128. ul r = (if 65 \<le> r \<and> r \<le> 90 then r + 32 else r)) \<and>
     (\<forall>r \<ge> 128. 128 \<le> ul r \<or> (97 \<le> ul r \<and> ul r \<le> 122))"

text \<open>A table that meets it, for evaluation.\<close>

definition ascii_table :: "nat \<Rightarrow> nat" where
  "ascii_table r = (if 65 \<le> r \<and> r \<le> 90 then r + 32 else r)"

lemma lower_table_ascii [simp]: "lower_table ascii_table"
  by (simp add: lower_table_def ascii_table_def)

definition no_upper :: "string \<Rightarrow> bool" where
  "no_upper s \<longleftrightarrow> list_all (\<lambda>c. \<not> (CHR ''A'' \<le> c \<and> c \<le> CHR ''Z'')) s"

lemma rune_width_lead:
  "rune_width s = 1 \<or> rune_width s = 2 \<and> 194 \<le> byte_val (hd s) \<and> byte_val (hd s) \<le> 223
   \<or> rune_width s = 3 \<and> 224 \<le> byte_val (hd s) \<and> byte_val (hd s) \<le> 239
       \<and> (byte_val (hd s) = 224 \<longrightarrow> 160 \<le> byte_val (s ! 1) \<and> byte_val (s ! 1) \<le> 191)
   \<or> rune_width s = 4 \<and> 240 \<le> byte_val (hd s) \<and> byte_val (hd s) \<le> 244
       \<and> (byte_val (hd s) = 240 \<longrightarrow> 144 \<le> byte_val (s ! 1) \<and> byte_val (s ! 1) \<le> 191)"
  by (simp add: rune_width_def byte_in_def Let_def)

lemma mod_in_block: "q * m \<le> b \<Longrightarrow> b < q * m + m \<Longrightarrow> b mod m = b - q * m" for b q m :: nat
proof -
  assume a: "q * m \<le> b" "b < q * m + m"
  then have "b = (b - q * m) + q * m" and "b - q * m < m" by linarith+
  then show ?thesis by (metis mod_less mod_mult_self1)
qed

lemma high_bits:
  fixes b x :: nat
  shows "194 \<le> b \<Longrightarrow> b \<le> 223 \<Longrightarrow> 128 \<le> b mod 32 * 64"
    and "225 \<le> b \<Longrightarrow> b \<le> 239 \<Longrightarrow> 128 \<le> b mod 16 * 4096"
    and "160 \<le> x \<Longrightarrow> x \<le> 191 \<Longrightarrow> 128 \<le> x mod 64 * 64"
    and "241 \<le> b \<Longrightarrow> b \<le> 244 \<Longrightarrow> 128 \<le> b mod 8 * 262144"
    and "144 \<le> x \<Longrightarrow> x \<le> 191 \<Longrightarrow> 128 \<le> x mod 64 * 4096"
  by (simp_all add: mod_in_block [of 6 32] mod_in_block [of 14 16] mod_in_block [of 2 64]
      mod_in_block [of 30 8])

lemma rune_of_multi: "rune_width s \<noteq> 1 \<Longrightarrow> 128 \<le> rune_of s"
proof -
  assume "rune_width s \<noteq> 1"
  then consider
    (two) "rune_width s = 2" "194 \<le> byte_val (hd s)" "byte_val (hd s) \<le> 223"
  | (three) "rune_width s = 3" "225 \<le> byte_val (hd s)" "byte_val (hd s) \<le> 239"
  | (three') "rune_width s = 3" "160 \<le> byte_val (s ! 1)" "byte_val (s ! 1) \<le> 191"
  | (four) "rune_width s = 4" "241 \<le> byte_val (hd s)" "byte_val (hd s) \<le> 244"
  | (four') "rune_width s = 4" "144 \<le> byte_val (s ! 1)" "byte_val (s ! 1) \<le> 191"
    using rune_width_lead [of s] by linarith
  then show ?thesis
  proof cases
    case two
    then show ?thesis using high_bits(1) [of "byte_val (hd s)"] by (simp add: rune_of_def Let_def)
  next
    case three
    then show ?thesis using high_bits(2) [of "byte_val (hd s)"] by (simp add: rune_of_def Let_def)
  next
    case three'
    then show ?thesis using high_bits(3) [of "byte_val (s ! 1)"] by (simp add: rune_of_def Let_def)
  next
    case four
    then show ?thesis using high_bits(4) [of "byte_val (hd s)"] by (simp add: rune_of_def Let_def)
  next
    case four'
    then show ?thesis using high_bits(5) [of "byte_val (s ! 1)"] by (simp add: rune_of_def Let_def)
  qed
qed

lemma rune_of_ascii: "rune_of s < 128 \<Longrightarrow> rune_of s = byte_val (hd s) \<and> byte_val (hd s) < 128"
  using rune_of_multi [of s]
  by (cases "rune_width s = 1") (auto simp: rune_of_def Let_def rune_error_def split: if_splits)

lemma chunk_byte: "(r, bs) \<in> set (chunks s) \<Longrightarrow> r < 128 \<Longrightarrow> char_of r \<in> set s"
proof (induction s rule: chunks.induct)
  case (2 c cs)
  from "2.prems" consider "r = rune_of (c # cs)"
    | "(r, bs) \<in> set (chunks (drop (rune_width (c # cs) - 1) cs))" by (auto simp: chunks.simps(2))
  then show ?case
  proof cases
    case 1
    with rune_of_ascii [of "c # cs"] "2.prems"(2) show ?thesis by auto
  next
    case 2
    with "2.IH" "2.prems"(2) show ?thesis by (meson in_set_dropD list.set_intros(2))
  qed
qed simp

lemma encode_rune_high: "128 \<le> r \<Longrightarrow> c \<in> set (encode_rune r) \<Longrightarrow> 128 \<le> byte_val c"
  by (auto simp: encode_rune_def split: if_splits)

lemma lower_table_low:
  assumes "lower_table ul" and "ul r < 128"
  shows "\<not> (65 \<le> ul r \<and> ul r \<le> 90) \<and> (ul r < 97 \<longrightarrow> r < 128 \<and> ul r = r)"
proof (cases "r < 128")
  case True
  then have "ul r = (if 65 \<le> r \<and> r \<le> 90 then r + 32 else r)"
    using assms(1) by (simp add: lower_table_def)
  with True show ?thesis by auto
next
  case False
  then have "128 \<le> ul r \<or> (97 \<le> ul r \<and> ul r \<le> 122)"
    using assms(1) by (simp add: lower_table_def)
  with assms(2) show ?thesis by auto
qed

lemma to_lower_byte:
  assumes "lower_table ul" and "c \<in> set (to_lower ul s)"
  shows "\<not> (CHR ''A'' \<le> c \<and> c \<le> CHR ''Z'') \<and> (byte_val c < 97 \<longrightarrow> c \<in> set s)"
proof (cases "is_ascii s")
  case True
  with assms(2) obtain d where "d \<in> set s" "c = lower_byte d" by (auto simp: to_lower_def)
  then show ?thesis by (auto simp: lower_byte_def less_eq_char_def)
next
  case False
  with assms(2) obtain r bs where r: "(r, bs) \<in> set (chunks s)" "c \<in> set (encode_rune (ul r))"
    by (auto simp: to_lower_def)
  show ?thesis
  proof (cases "ul r < 128")
    case True
    with r(2) have c: "c = char_of (ul r)" by (simp add: encode_rune_def)
    have "byte_val c = ul r" using True by (simp add: c)
    moreover have "ul r < 97 \<Longrightarrow> c \<in> set s"
      using lower_table_low [OF assms(1) True] chunk_byte [OF r(1)] c by simp
    moreover have "\<not> (65 \<le> ul r \<and> ul r \<le> 90)"
      using lower_table_low [OF assms(1) True] by simp
    ultimately show ?thesis by (auto simp: less_eq_char_def)
  next
    case False
    with encode_rune_high [OF _ r(2)] have "128 \<le> byte_val c" by simp
    then show ?thesis by (auto simp: less_eq_char_def)
  qed
qed

lemma to_lower_no_upper: "lower_table ul \<Longrightarrow> no_upper (to_lower ul s)"
  using to_lower_byte by (fastforce simp: no_upper_def list_all_iff)

lemma to_lower_no_slash: "lower_table ul \<Longrightarrow> CHR ''/'' \<notin> set s \<Longrightarrow> CHR ''/'' \<notin> set (to_lower ul s)"
  using to_lower_byte [of ul "CHR ''/''" s] by auto

lemma to_lower_eq_Nil [simp]: "to_lower ul s = [] \<longleftrightarrow> s = []"
proof (cases s)
  case (Cons c cs)
  have "encode_rune r \<noteq> []" for r by (simp add: encode_rune_def)
  with Cons show ?thesis by (auto simp: to_lower_def chunks.simps(2))
qed (simp add: to_lower_def)

end
