(* ===== verification/GoJson.thy ===== *)
theory GoJson
  imports GoStrings
begin

text \<open>
  The part of Go's \<open>encoding/json\<close> the program relies on: JSON values, the syntax accepted by
  \<open>json.Unmarshal\<close> (a recursive descent over the bytes with the decoder's nesting limit),
  and the decoding of a value into a typed Go variable. Decoding is written as a
  function from the old contents of the variable to the new ones, because that is what Go
  does: JSON \<open>null\<close> leaves a string, an integer or a struct as it was, a repeated object key
  decodes into the same field again, and an unknown key is skipped. A type mismatch is the
  result None (Go returns the error after the whole value has been read, and every caller
  discards the value then).
\<close>

datatype json =
    JNull
  | JBool bool
  | JNum string            \<comment> \<open>the literal, as written\<close>
  | JStr string            \<comment> \<open>the decoded bytes\<close>
  | JArr "json list"
  | JObj "(string \<times> json) list"  \<comment> \<open>the members in order, duplicates included\<close>

section \<open>Lexical syntax\<close>

definition is_ws :: "char \<Rightarrow> bool" where
  "is_ws c \<longleftrightarrow> c = CHR '' '' \<or> byte_val c = 9 \<or> byte_val c = 10 \<or> byte_val c = 13"

definition skip_ws :: "string \<Rightarrow> string" where
  "skip_ws s = dropWhile is_ws s"

definition is_digit :: "char \<Rightarrow> bool" where
  "is_digit c \<longleftrightarrow> CHR ''0'' \<le> c \<and> c \<le> CHR ''9''"

definition digit_val :: "char \<Rightarrow> nat" where
  "digit_val c = byte_val c - 48"

definition hex_val :: "char \<Rightarrow> nat option" where
  "hex_val c =
     (if is_digit c then Some (digit_val c)
      else if CHR ''a'' \<le> c \<and> c \<le> CHR ''f'' then Some (byte_val c - 87)
      else if CHR ''A'' \<le> c \<and> c \<le> CHR ''F'' then Some (byte_val c - 55)
      else None)"

fun hex4 :: "string \<Rightarrow> (nat \<times> string) option" where
  "hex4 (a # b # c # d # r) =
     (case (hex_val a, hex_val b, hex_val c, hex_val d) of
        (Some w, Some x, Some y, Some z) \<Rightarrow> Some (((w * 16 + x) * 16 + y) * 16 + z, r)
      | _ \<Rightarrow> None)"
| "hex4 _ = None"

lemma hex4_length: "hex4 s = Some (v, r) \<Longrightarrow> length s = length r + 4"
  by (induction s rule: hex4.induct) (auto split: option.splits)

text \<open>
  The second half of a surrogate pair, if one follows: the combined code point and the rest
  (\<open>utf16.DecodeRune\<close>); a lone surrogate is U+FFFD.
\<close>

definition low_surrogate :: "string \<Rightarrow> (nat \<times> string) option" where
  "low_surrogate s =
     (case s of
        a # b # t \<Rightarrow>
          (if a = CHR 0x5C \<and> b = CHR ''u'' then
             (case hex4 t of
                Some (v, r) \<Rightarrow> if 56320 \<le> v \<and> v \<le> 57343 then Some (v - 56320, r) else None
              | None \<Rightarrow> None)
           else None)
      | _ \<Rightarrow> None)"

definition unicode_escape :: "nat \<Rightarrow> string \<Rightarrow> string \<times> string" where
  "unicode_escape v r =
     (if 55296 \<le> v \<and> v \<le> 56319 then
        (case low_surrogate r of
           Some (lo, r') \<Rightarrow> (encode_rune (65536 + (v - 55296) * 1024 + lo), r')
         | None \<Rightarrow> (encode_rune rune_error, r))
      else (encode_rune v, r))"

definition simple_escape :: "char \<Rightarrow> char option" where
  "simple_escape e =
     (if e = CHR 0x22 \<or> e = CHR 0x5C \<or> e = CHR ''/'' then Some e
      else if e = CHR ''b'' then Some (CHR 0x08)
      else if e = CHR ''f'' then Some (CHR 0x0C)
      else if e = CHR ''n'' then Some (CHR 0x0A)
      else if e = CHR ''r'' then Some (CHR 0x0D)
      else if e = CHR ''t'' then Some (CHR 0x09)
      else None)"

definition emit :: "string \<Rightarrow> (string \<times> string) option \<Rightarrow> (string \<times> string) option" where
  "emit p = map_option (\<lambda>(v, r). (p @ v, r))"

lemma low_surrogate_length: "low_surrogate s = Some (v, r) \<Longrightarrow> length r < length s"
  by (auto simp: low_surrogate_def dest!: hex4_length split: list.splits if_splits option.splits)

lemma unicode_escape_length: "length (snd (unicode_escape v r)) \<le> length r"
  by (auto simp: unicode_escape_def dest!: low_surrogate_length split: option.splits)

text \<open>The bytes of a string literal after its opening quote, decoded, and what follows it.\<close>

function str_lit :: "string \<Rightarrow> (string \<times> string) option" where
  "str_lit [] = None"
| "str_lit (c # cs) =
     (if c = CHR 0x22 then Some ([], cs)
      else if byte_val c < 32 then None
      else if c = CHR 0x5C then
        (case cs of
           [] \<Rightarrow> None
         | e # es \<Rightarrow>
             (if e = CHR ''u'' then
                (case hex4 es of
                   None \<Rightarrow> None
                 | Some (v, r) \<Rightarrow> emit (fst (unicode_escape v r)) (str_lit (snd (unicode_escape v r))))
              else
                (case simple_escape e of
                   None \<Rightarrow> None
                 | Some d \<Rightarrow> emit [d] (str_lit es))))
      else
        emit (encode_rune (rune_of (c # cs))) (str_lit (drop (rune_width (c # cs) - 1) cs)))"
  by pat_completeness auto
termination
proof (relation "measure length", goal_cases)
  case (2 c cs e es p v r)
  then have "length es = length r + 4" by (auto dest: hex4_length)
  with 2 unicode_escape_length [of v r] show ?case by simp
qed auto

text \<open>A number literal: an optional minus, an integer part without a leading zero, an
  optional fraction, an optional exponent.\<close>

definition digits :: "string \<Rightarrow> (string \<times> string) option" where
  "digits s = (if s \<noteq> [] \<and> is_digit (hd s) then Some (takeWhile is_digit s, dropWhile is_digit s) else None)"

definition int_part :: "string \<Rightarrow> (string \<times> string) option" where
  "int_part s = (case s of c # r \<Rightarrow> if c = CHR ''0'' then Some ([c], r) else digits s | [] \<Rightarrow> None)"

definition frac_part :: "string \<Rightarrow> (string \<times> string) option" where
  "frac_part s =
     (case s of
        c # r \<Rightarrow> if c = CHR ''.'' then emit [c] (digits r) else Some ([], s)
      | [] \<Rightarrow> Some ([], []))"

definition exp_part :: "string \<Rightarrow> (string \<times> string) option" where
  "exp_part s =
     (case s of
        c # r \<Rightarrow>
          (if c = CHR ''e'' \<or> c = CHR ''E'' then
             (case r of
                d # r' \<Rightarrow>
                  (if d = CHR ''+'' \<or> d = CHR ''-'' then emit [c, d] (digits r') else emit [c] (digits r))
              | [] \<Rightarrow> None)
           else Some ([], s))
      | [] \<Rightarrow> Some ([], []))"

definition num_lit :: "string \<Rightarrow> (string \<times> string) option" where
  "num_lit s =
     (let sign = (if s \<noteq> [] \<and> hd s = CHR ''-'' then [CHR ''-''] else []) in
      case int_part (drop (length sign) s) of
        None \<Rightarrow> None
      | Some (i, r1) \<Rightarrow>
          (case frac_part r1 of
             None \<Rightarrow> None
           | Some (f, r2) \<Rightarrow>
               (case exp_part r2 of
                  None \<Rightarrow> None
                | Some (e, r3) \<Rightarrow> Some (sign @ i @ f @ e, r3))))"

section \<open>Values\<close>

text \<open>
  \<open>jval fuel depth s\<close> reads one value from the start of \<open>s\<close>. \<open>depth\<close> counts the open
  arrays and objects: the decoder refuses to open more than \<open>max_depth\<close> of them. The fuel
  bounds the recursion; \<open>parse_json\<close> gives twice the length of the text plus two, which is
  enough (\<open>jval_fuel\<close>): at most two calls are made on the same text, and a value has at least
  one byte.
\<close>

definition max_depth :: nat where
  "max_depth = 10000"

definition strip_lit :: "string \<Rightarrow> json \<Rightarrow> string \<Rightarrow> (json \<times> string) option" where
  "strip_lit lit v s = (if has_prefix s lit then Some (v, drop (length lit) s) else None)"

fun jval :: "nat \<Rightarrow> nat \<Rightarrow> string \<Rightarrow> (json \<times> string) option"
  and jelems :: "nat \<Rightarrow> nat \<Rightarrow> string \<Rightarrow> (json list \<times> string) option"
  and jmembers :: "nat \<Rightarrow> nat \<Rightarrow> string \<Rightarrow> ((string \<times> json) list \<times> string) option" where
  "jval 0 d s = None"
| "jval (Suc n) d s =
     (case skip_ws s of
        [] \<Rightarrow> None
      | c # r \<Rightarrow>
          (if c = CHR ''{'' then
             (if max_depth \<le> d then None
              else (case skip_ws r of
                      [] \<Rightarrow> None
                    | c' # r' \<Rightarrow>
                        (if c' = CHR ''}'' then Some (JObj [], r')
                         else map_option (map_prod JObj id) (jmembers n (Suc d) (c' # r')))))
           else if c = CHR ''['' then
             (if max_depth \<le> d then None
              else (case skip_ws r of
                      [] \<Rightarrow> None
                    | c' # r' \<Rightarrow>
                        (if c' = CHR '']'' then Some (JArr [], r')
                         else map_option (map_prod JArr id) (jelems n (Suc d) (c' # r')))))
           else if c = CHR 0x22 then map_option (map_prod JStr id) (str_lit r)
           else if c = CHR ''t'' then strip_lit ''true'' (JBool True) (c # r)
           else if c = CHR ''f'' then strip_lit ''false'' (JBool False) (c # r)
           else if c = CHR ''n'' then strip_lit ''null'' JNull (c # r)
           else map_option (map_prod JNum id) (num_lit (c # r))))"
| "jelems 0 d s = None"
| "jelems (Suc n) d s =
     (case jval n d s of
        None \<Rightarrow> None
      | Some (v, r) \<Rightarrow>
          (case skip_ws r of
             [] \<Rightarrow> None
           | c # r' \<Rightarrow>
               (if c = CHR '','' then map_option (map_prod (Cons v) id) (jelems n d r')
                else if c = CHR '']'' then Some ([v], r')
                else None)))"
| "jmembers 0 d s = None"
| "jmembers (Suc n) d s =
     (case skip_ws s of
        [] \<Rightarrow> None
      | q # r \<Rightarrow>
          (if q \<noteq> CHR 0x22 then None
           else (case str_lit r of
                   None \<Rightarrow> None
                 | Some (k, r1) \<Rightarrow>
                     (case skip_ws r1 of
                        [] \<Rightarrow> None
                      | c # r2 \<Rightarrow>
                          (if c \<noteq> CHR '':'' then None
                           else (case jval n d r2 of
                                   None \<Rightarrow> None
                                 | Some (v, r3) \<Rightarrow>
                                     (case skip_ws r3 of
                                        [] \<Rightarrow> None
                                      | e # r4 \<Rightarrow>
                                          (if e = CHR '','' then
                                             map_option (map_prod (Cons (k, v)) id) (jmembers n d r4)
                                           else if e = CHR ''}'' then Some ([(k, v)], r4)
                                           else None))))))))"

definition parse_json :: "string \<Rightarrow> json option" where
  "parse_json s =
     (case jval (2 * length s + 2) 0 s of
        Some (v, r) \<Rightarrow> (if skip_ws r = [] then Some v else None)
      | None \<Rightarrow> None)"

lemma skip_ws_length: "length (skip_ws s) \<le> length s"
  by (simp add: skip_ws_def length_dropWhile_le)

lemma skip_ws_Cons_length: "skip_ws s = c # r \<Longrightarrow> length r < length s"
  using skip_ws_length [of s] by simp

lemma emit_Some: "emit p x = Some (v, r) \<Longrightarrow> \<exists>v'. x = Some (v', r)"
  by (auto simp: emit_def)

lemma str_lit_length: "str_lit s = Some (v, r) \<Longrightarrow> length r < length s"
proof (induction s arbitrary: v r rule: str_lit.induct)
  case (2 c cs)
  consider (quote) "c = CHR 0x22" | (bad) "c \<noteq> CHR 0x22" "byte_val c < 32"
    | (esc) "c \<noteq> CHR 0x22" "\<not> byte_val c < 32" "c = CHR 0x5C"
    | (plain) "c \<noteq> CHR 0x22" "\<not> byte_val c < 32" "c \<noteq> CHR 0x5C"
    by blast
  then show ?case
  proof cases
    case quote
    with "2.prems" show ?thesis by simp
  next
    case bad
    with "2.prems" show ?thesis by simp
  next
    case plain
    with "2.prems" obtain v' where "str_lit (drop (rune_width (c # cs) - 1) cs) = Some (v', r)"
      by (auto dest: emit_Some)
    with "2.IH"(3) plain have "length r < length (drop (rune_width (c # cs) - 1) cs)" by blast
    then show ?thesis by simp
  next
    case esc
    with "2.prems" obtain e es where cs: "cs = e # es" by (cases cs) auto
    show ?thesis
    proof (cases "e = CHR ''u''")
      case True
      with esc cs "2.prems" obtain w q where h: "hex4 es = Some (w, q)"
        by (auto split: option.splits)
      with True esc cs "2.prems" obtain v' where
        "str_lit (snd (unicode_escape w q)) = Some (v', r)" by (auto dest: emit_Some)
      with "2.IH"(1) True esc cs h have "length r < length (snd (unicode_escape w q))" by blast
      with unicode_escape_length [of w q] hex4_length [OF h] cs show ?thesis by simp
    next
      case False
      with esc cs "2.prems" obtain d where d: "simple_escape e = Some d"
        by (auto split: option.splits)
      with False esc cs "2.prems" obtain v' where "str_lit es = Some (v', r)"
        by (auto dest: emit_Some)
      with "2.IH"(2) False esc cs d have "length r < length es" by blast
      with cs show ?thesis by simp
    qed
  qed
qed simp

lemma digits_length: "digits s = Some (v, r) \<Longrightarrow> length r < length s"
  by (cases s) (auto simp: digits_def length_dropWhile_le less_Suc_eq_le split: if_splits)

lemma num_lit_length: "num_lit s = Some (v, r) \<Longrightarrow> length r < length s"
proof -
  have i: "int_part t = Some (w, q) \<Longrightarrow> length q < length t" for t w q
    by (auto simp: int_part_def split: list.splits if_splits dest: digits_length)
  have f: "frac_part t = Some (w, q) \<Longrightarrow> length q \<le> length t" for t w q
    by (auto simp: frac_part_def split: list.splits if_splits dest!: emit_Some digits_length)
  have e: "exp_part t = Some (w, q) \<Longrightarrow> length q \<le> length t" for t w q
    by (auto simp: exp_part_def split: list.splits if_splits dest!: emit_Some digits_length)
  assume "num_lit s = Some (v, r)"
  then obtain n i r1 f r2 e where "int_part (drop n s) = Some (i, r1)" and
    "frac_part r1 = Some (f, r2)" and "exp_part r2 = Some (e, r)"
    by (auto simp: num_lit_def Let_def split: option.splits)
  then show ?thesis using i f e by (fastforce dest: order_le_less_trans)
qed

lemma j_length:
  "jval n d s = Some (v, r) \<Longrightarrow> length r < length s"
  "jelems n d s = Some (vs, r) \<Longrightarrow> length r < length s"
  "jmembers n d s = Some (ms, r) \<Longrightarrow> length r < length s"
proof (induction n d s and n d s and n d s arbitrary: v r and vs r and ms r rule: jval_jelems_jmembers.induct)
  case (2 n d s)
  then obtain c q where s: "skip_ws s = c # q" by (auto split: list.splits)
  have len: "length q < length s" by (rule skip_ws_Cons_length [OF s])
  show ?case
  proof (cases "c = CHR ''{'' \<or> c = CHR ''[''")
    case True
    with 2(3) s obtain c' q' where q: "skip_ws q = c' # q'" by (auto split: list.splits if_splits)
    have "length q' < length q" by (rule skip_ws_Cons_length [OF q])
    moreover from q have "length (c' # q') \<le> length q" using skip_ws_length [of q] by simp
    ultimately show ?thesis using 2 s q len True
      by (fastforce split: if_splits)
  next
    case False
    with 2(3) s len show ?thesis
      by (auto simp: strip_lit_def split: if_splits dest!: str_lit_length num_lit_length)
  qed
next
  case (4 n d s)
  then show ?case
    by (fastforce split: option.splits list.splits if_splits dest: skip_ws_Cons_length)
next
  case (6 n d s)
  then show ?case
    by (fastforce split: option.splits list.splits if_splits dest: skip_ws_Cons_length str_lit_length)
qed auto

lemma j_fuel:
  "2 * length s + 1 \<le> n \<Longrightarrow> n \<le> m \<Longrightarrow> jval m d s = jval n d s"
  "2 * length s + 2 \<le> n \<Longrightarrow> n \<le> m \<Longrightarrow> jelems m d s = jelems n d s"
  "2 * length s + 2 \<le> n \<Longrightarrow> n \<le> m \<Longrightarrow> jmembers m d s = jmembers n d s"
proof (induction n d s and n d s and n d s arbitrary: m and m and m rule: jval_jelems_jmembers.induct)
  case (2 n d s)
  obtain m' where m: "m = Suc m'" "n \<le> m'" using 2(4) by (cases m) auto
  show ?case
  proof (cases "skip_ws s")
    case (Cons c q)
    have len: "length q < length s" by (rule skip_ws_Cons_length [OF Cons])
    show ?thesis
    proof (cases "skip_ws q")
      case Nil
      with Cons m show ?thesis by simp
    next
      case q: (Cons c' q')
      then have "length (c' # q') \<le> length q" using skip_ws_length [of q] by simp
      with len 2(3) have "2 * length (c' # q') + 2 \<le> n" by simp
      note b = this m(2)
      have jm: "jmembers m' (Suc d) (c' # q') = jmembers n (Suc d) (c' # q')"
        if "c = CHR ''{''" "\<not> max_depth \<le> d" "c' \<noteq> CHR ''}''"
        by (rule 2(1) [OF Cons that(1,2) q that(3) b])
      have je: "jelems m' (Suc d) (c' # q') = jelems n (Suc d) (c' # q')"
        if "c \<noteq> CHR ''{''" "c = CHR ''[''" "\<not> max_depth \<le> d" "c' \<noteq> CHR '']''"
        by (rule 2(2) [OF Cons that(1,2,3) q that(4) b])
      show ?thesis
        unfolding m(1) jval.simps(2) Cons list.case q
        by (intro if_cong refl) (simp_all only: jm je not_False_eq_True)
    qed
  qed (simp add: m)
next
  case (4 n d s)
  obtain m' where m: "m = Suc m'" "n \<le> m'" using 4(4) by (cases m) auto
  have v: "jval m' d s = jval n d s" by (rule 4(1)) (use 4(3) m in simp_all)
  show ?case
  proof (cases "jval n d s")
    case (Some a)
    obtain w r where a: "a = (w, r)" by fastforce
    show ?thesis
    proof (cases "skip_ws r")
      case (Cons c r')
      with Some a have "length r' < length s"
        using j_length(1) skip_ws_Cons_length by (metis order.strict_trans)
      with 4(3) have "2 * length r' + 2 \<le> n" by simp
      then have e: "jelems m' d r' = jelems n d r'" if "c = CHR '',''"
        by (rule 4(2) [OF Some a [symmetric] Cons that _ m(2)])
      show ?thesis
        unfolding m(1) jelems.simps(2) v Some a option.case prod.case Cons list.case
        by (intro if_cong refl) (simp only: e)
    qed (use m v Some a in simp)
  qed (use m v in simp)
next
  case (6 n d s)
  obtain m' where m: "m = Suc m'" "n \<le> m'" using 6(4) by (cases m) auto
  show ?case
  proof (cases "skip_ws s")
    case q: (Cons q r)
    show ?thesis
    proof (cases "q = CHR 0x22 \<and> str_lit r \<noteq> None")
      case True
      then obtain k r1 where k: "q = CHR 0x22" "str_lit r = Some (k, r1)" by auto
      show ?thesis
      proof (cases "skip_ws r1")
        case c: (Cons c r2)
        have l2: "length r2 + 2 < length s"
          using skip_ws_Cons_length [OF q] str_lit_length [OF k(2)] skip_ws_Cons_length [OF c] by simp
        show ?thesis
        proof (cases "c = CHR '':''")
          case True
          have nq: "\<not> q \<noteq> CHR 0x22" and nc: "\<not> c \<noteq> CHR '':''" using k(1) True by simp_all
          have "2 * length r2 + 1 \<le> n" using l2 6(3) by simp
          then have v: "jval m' d r2 = jval n d r2"
            by (rule 6(1) [OF q nq k(2) refl c nc _ m(2)])
          show ?thesis
          proof (cases "jval n d r2")
            case (Some a)
            obtain w r3 where a: "a = (w, r3)" by fastforce
            with Some have l3: "length r3 < length r2" using j_length(1) by blast
            show ?thesis
            proof (cases "skip_ws r3")
              case e: (Cons e r4)
              have "2 * length r4 + 2 \<le> n"
                using l2 l3 skip_ws_Cons_length [OF e] 6(3) by simp
              then have f: "jmembers m' d r4 = jmembers n d r4" if "e = CHR '',''"
                by (rule 6(2) [OF q nq k(2) refl c nc Some a [symmetric] e that _ m(2)])
              show ?thesis
                unfolding m(1) jmembers.simps(2) q list.case k(2) option.case prod.case c v Some a e
                by (intro if_cong refl) (simp only: f)
            qed (use m v q k c True Some a in simp)
          qed (use m v q k c True in simp)
        qed (use m q k c in simp)
      qed (use m q k in simp)
    next
      case False
      then show ?thesis by (auto simp: m(1) q split: option.split)
    qed
  qed (simp add: m)
qed auto

lemmas jval_fuel = j_fuel(1)

lemma parse_json_fuel:
  assumes "2 * length s + 2 \<le> n"
  shows "parse_json s = (case jval n 0 s of
     Some (v, r) \<Rightarrow> (if skip_ws r = [] then Some v else None) | None \<Rightarrow> None)"
  using jval_fuel [of s "2 * length s + 2" n 0] assms by (simp add: parse_json_def)

section \<open>Evaluation\<close>

declare str_lit.simps(2) [simp del] jval.simps(2) [simp del] jelems.simps(2) [simp del] jmembers.simps(2) [simp del] 

lemma str_lit_quote: "str_lit (CHR 0x22 # cs) = Some ([], cs)"
  by (simp add: str_lit.simps(2))

lemma str_lit_plain:
  "c \<noteq> CHR 0x22 \<Longrightarrow> c \<noteq> CHR 0x5C \<Longrightarrow> 32 \<le> byte_val c \<Longrightarrow> byte_val c < 128 \<Longrightarrow>
   str_lit (c # cs) = emit [c] (str_lit cs)"
  by (simp add: str_lit.simps(2) rune_width_ascii rune_of_def encode_rune_def Let_def)

lemma emit_simps: "emit p None = None" "emit p (Some (v, r)) = Some (p @ v, r)"
  by (simp_all add: emit_def)

lemmas jval_numeral = jval.simps(2) [of "pred_numeral k" for k, folded numeral_eq_Suc]
lemmas jelems_numeral = jelems.simps(2) [of "pred_numeral k" for k, folded numeral_eq_Suc]
lemmas jmembers_numeral = jmembers.simps(2) [of "pred_numeral k" for k, folded numeral_eq_Suc]

lemma skip_ws_simps: "skip_ws [] = []" "skip_ws (c # s) = (if is_ws c then skip_ws s else c # s)"
  by (simp_all add: skip_ws_def)

text \<open>The equations a closed text is evaluated with.\<close>

lemmas json_eval =
  parse_json_def skip_ws_simps is_ws_def jval_numeral jelems_numeral jmembers_numeral
  str_lit_quote str_lit_plain emit_simps
  num_lit_def int_part_def digits_def is_digit_def frac_part_def exp_part_def
  strip_lit_def has_prefix_def max_depth_def digit_val_def

end
