(* ===== verification/GoDecode.thy ===== *)
theory GoDecode
  imports GoJson
begin

text \<open>
  Typed decoding (\<open>json.Unmarshal\<close> and the decoder under the Vault client's \<open>DecodeJSON\<close>):
  a decoder takes the JSON value and the variable's old contents and gives the new contents, None for a type mismatch.
\<close>

type_synonym 'a dec = "json \<Rightarrow> 'a \<Rightarrow> 'a option"

section \<open>Integers in decimal\<close>

fun nat_of_digits :: "nat \<Rightarrow> string \<Rightarrow> nat" where
  "nat_of_digits acc [] = acc"
| "nat_of_digits acc (c # cs) = nat_of_digits (acc * 10 + digit_val c) cs"

text \<open>\<open>strconv.ParseInt(s, 10, 64)\<close>.\<close>

definition parse_int :: "string \<Rightarrow> int option" where
  "parse_int s =
     (let neg = (s \<noteq> [] \<and> hd s = CHR ''-'');
          ds = (if s \<noteq> [] \<and> (hd s = CHR ''-'' \<or> hd s = CHR ''+'') then tl s else s);
          n = int (nat_of_digits 0 ds) in
      if ds = [] \<or> \<not> list_all is_digit ds then None
      else if neg then (if n \<le> 2 ^ 63 then Some (- n) else None)
      else (if n < 2 ^ 63 then Some n else None))"

text \<open>\<open>strconv.FormatInt(i, 10)\<close>.\<close>

fun nat_digits :: "nat \<Rightarrow> string" where
  "nat_digits n =
     (if n < 10 then [char_of (48 + n)] else nat_digits (n div 10) @ [char_of (48 + n mod 10)])"

declare nat_digits.simps [simp del]

definition format_int :: "int \<Rightarrow> string" where
  "format_int i = (if i < 0 then CHR ''-'' # nat_digits (nat (- i)) else nat_digits (nat i))"

section \<open>Basic decoders\<close>

fun dec_string :: "string dec" where
  "dec_string (JStr s) old = Some s"
| "dec_string JNull old = Some old"
| "dec_string _ old = None"

fun dec_int :: "int dec" where
  "dec_int (JNum lit) old = parse_int lit"
| "dec_int JNull old = Some old"
| "dec_int _ old = None"

fun dec_bool :: "bool dec" where
  "dec_bool (JBool b) old = Some b"
| "dec_bool JNull old = Some old"
| "dec_bool _ old = None"

text \<open>A \<open>json.RawMessage\<close> field keeps the value, \<open>null\<close> included; nil is None.\<close>

definition dec_raw :: "json option dec" where
  "dec_raw j old = Some (Some j)"

text \<open>A pointer: \<open>null\<close> sets it to nil, anything else decodes into what it points to.\<close>

definition dec_ptr :: "'a \<Rightarrow> 'a dec \<Rightarrow> 'a option dec" where
  "dec_ptr zero d j old =
     (if j = JNull then Some None
      else map_option Some (d j (case old of None \<Rightarrow> zero | Some v \<Rightarrow> v)))"

text \<open>
  A slice: the part of its backing array that was written so far (what follows is zero), and its
  length. An array is decoded into the elements that are there, also into those beyond the length:
  when a repeated key decodes into the slice again, a \<open>null\<close> element shows the old contents. An
  empty array gives a new slice, \<open>null\<close> the nil slice.
\<close>

datatype 'a slice = Slice (backing: "'a list") (slice_len: nat)

definition elems :: "'a slice \<Rightarrow> 'a list" where
  "elems s = take (slice_len s) (backing s)"

definition nil_slice :: "'a slice" where
  "nil_slice = Slice [] 0"

fun dec_elems :: "'a \<Rightarrow> 'a dec \<Rightarrow> json list \<Rightarrow> 'a list \<Rightarrow> 'a list option" where
  "dec_elems zero d [] buf = Some buf"
| "dec_elems zero d (j # js) buf =
     (case d j (case buf of [] \<Rightarrow> zero | v # _ \<Rightarrow> v) of
        None \<Rightarrow> None
      | Some v \<Rightarrow> map_option (Cons v) (dec_elems zero d js (tl buf)))"

fun dec_slice :: "'a \<Rightarrow> 'a dec \<Rightarrow> 'a slice dec" where
  "dec_slice zero d (JArr js) old =
     (if js = [] then Some nil_slice
      else map_option (\<lambda>buf. Slice buf (length js)) (dec_elems zero d js (backing old)))"
| "dec_slice zero d JNull old = Some nil_slice"
| "dec_slice zero d _ old = None"

text \<open>A map with string keys: every member is set, the last of a repeated key wins, \<open>null\<close>
  makes the map nil.\<close>

fun dec_entries :: "'a \<Rightarrow> 'a dec \<Rightarrow> (string \<times> json) list \<Rightarrow> (string \<times> 'a) list \<Rightarrow> (string \<times> 'a) list option" where
  "dec_entries zero d [] m = Some m"
| "dec_entries zero d ((k, j) # kvs) m =
     (case d j zero of
        None \<Rightarrow> None
      | Some v \<Rightarrow> dec_entries zero d kvs (AList.update k v m))"

fun dec_map :: "'a \<Rightarrow> 'a dec \<Rightarrow> (string \<times> 'a) list dec" where
  "dec_map zero d (JObj kvs) old = dec_entries zero d kvs old"
| "dec_map zero d JNull old = Some []"
| "dec_map zero d _ old = None"

definition dec_raw_elem :: "json dec" where
  "dec_raw_elem j old = Some j"

section \<open>Structs\<close>

text \<open>
  A struct is decoded member by member through a table of field names. A member selects the field of
  exactly its name, else the first field whose name it equals under case folding; the
  folding of a code point with an ASCII partner is written out (U+017F folds to S and U+212A
  to K, no other non-ASCII code point folds to an ASCII one).
\<close>

definition fold_rune :: "nat \<Rightarrow> nat" where
  "fold_rune r = (if 97 \<le> r \<and> r \<le> 122 then r - 32 else if r = 383 then 83 else if r = 8490 then 75 else r)"

definition fold_name :: "string \<Rightarrow> nat list" where
  "fold_name s = map (\<lambda>(r, _). fold_rune r) (chunks s)"

definition find_field :: "(string \<times> 'a) list \<Rightarrow> string \<Rightarrow> 'a option" where
  "find_field tbl k =
     (case map_of tbl k of
        Some d \<Rightarrow> Some d
      | None \<Rightarrow> map_option snd (find (\<lambda>(n, _). fold_name n = fold_name k) tbl))"

fun dec_members :: "(string \<times> 'a dec) list \<Rightarrow> (string \<times> json) list \<Rightarrow> 'a \<Rightarrow> 'a option" where
  "dec_members tbl [] a = Some a"
| "dec_members tbl ((k, j) # kvs) a =
     (case find_field tbl k of
        None \<Rightarrow> dec_members tbl kvs a
      | Some d \<Rightarrow> (case d j a of None \<Rightarrow> None | Some a' \<Rightarrow> dec_members tbl kvs a'))"

fun dec_struct :: "(string \<times> 'a dec) list \<Rightarrow> 'a dec" where
  "dec_struct tbl (JObj kvs) a = dec_members tbl kvs a"
| "dec_struct tbl JNull a = Some a"
| "dec_struct tbl _ a = None"

definition dec_field :: "('s \<Rightarrow> 'a) \<Rightarrow> ('a \<Rightarrow> 's \<Rightarrow> 's) \<Rightarrow> 'a dec \<Rightarrow> 's dec" where
  "dec_field get put d j s = map_option (\<lambda>v. put v s) (d j (get s))"

section \<open>Lemmas\<close>

lemma elems_nil [simp]: "elems nil_slice = []" "backing nil_slice = []"
  by (simp_all add: elems_def nil_slice_def)

lemma elems_Slice [simp]: "elems (Slice buf n) = take n buf"
  by (simp add: elems_def)

lemma dec_elems_length: "dec_elems zero d js buf = Some buf' \<Longrightarrow> length buf' = max (length js) (length buf)"
  by (induction js arbitrary: buf buf') (auto split: option.splits)

text \<open>An array decoded into a fresh slice, and into one that was used before.\<close>

lemma dec_slice_fresh:
  assumes "\<And>x. x \<in> set xs \<Longrightarrow> d (f x) zero = Some x"
  shows "dec_slice zero d (JArr (map f xs)) nil_slice = Some (Slice xs (length xs))"
proof -
  have "dec_elems zero d (map f xs) [] = Some xs" using assms by (induction xs) simp_all
  then show ?thesis by (auto simp: nil_slice_def)
qed

lemma dec_slice_strings: "dec_slice [] dec_string (JArr (map JStr ss)) nil_slice = Some (Slice ss (length ss))"
  by (rule dec_slice_fresh) simp

lemma dec_slice_null_keeps:
  "map_option elems (dec_slice [] dec_string (JArr [JNull]) (Slice (s # ss) n)) = Some [s]"
  by simp

lemma dec_entries_distinct:
  "dec_entries zero d kvs m = Some m' \<Longrightarrow> distinct (map fst m) \<Longrightarrow> distinct (map fst m')"
  by (induction zero d kvs m rule: dec_entries.induct) (auto split: option.splits)

lemma dec_map_distinct:
  "dec_map zero d j m = Some m' \<Longrightarrow> distinct (map fst m) \<Longrightarrow> distinct (map fst m')"
  by (cases j) (auto dest: dec_entries_distinct)

lemma dec_entries_raw:
  "dec_entries zero dec_raw_elem kvs m = Some (fold (\<lambda>(k, v). AList.update k v) kvs m)"
  by (induction kvs arbitrary: m) (auto simp: dec_raw_elem_def)

lemma find_field_exact: "map_of tbl k = Some d \<Longrightarrow> find_field tbl k = Some d"
  by (simp add: find_field_def)

lemma nat_of_digits_append:
  "nat_of_digits acc (ds @ [c]) = nat_of_digits acc ds * 10 + digit_val c"
  by (induction ds arbitrary: acc) simp_all

lemma nat_digits_ok: "list_all is_digit (nat_digits n) \<and> nat_digits n \<noteq> [] \<and> nat_of_digits 0 (nat_digits n) = n"
proof (induction n rule: nat_digits.induct)
  case (1 n)
  have d: "is_digit (char_of (48 + k)) \<and> digit_val (char_of (48 + k)) = k" if "k < 10" for k :: nat
    using that by (simp add: is_digit_def digit_val_def less_eq_char_def)
  show ?case
  proof (cases "n < 10")
    case True
    then show ?thesis using d [of n] by (simp add: nat_digits.simps [of n])
  next
    case False
    then show ?thesis
      using 1 d [of "n mod 10"] by (simp add: nat_digits.simps [of n] nat_of_digits_append)
  qed
qed

lemma parse_format_int:
  assumes "- (2 ^ 63) \<le> i" "i < 2 ^ 63"
  shows "parse_int (format_int i) = Some i"
proof -
  have hd: "hd (nat_digits n) \<noteq> CHR ''-'' \<and> hd (nat_digits n) \<noteq> CHR ''+''" for n
    using nat_digits_ok [of n] by (cases "nat_digits n") (auto simp: is_digit_def)
  show ?thesis
    using assms nat_digits_ok [of "nat i"] nat_digits_ok [of "nat (- i)"] hd [of "nat i"]
    by (cases "i < 0") (auto simp: parse_int_def format_int_def Let_def)
qed

lemmas decode_eval =
  parse_int_def is_digit_def digit_val_def dec_ptr_def dec_field_def find_field_def fold_name_def fold_rune_def
  chunks_ascii_Cons

end
