(* ===== verification/Identity.thy ===== *)
theory Identity
  imports GoDecode "HOL-Library.Word"
begin

text \<open>
  Package \<open>internal/identity\<close>: the identity extracted from a verified payload
  (\<open>Parse\<close>, \<open>splitFullName\<close>) and the escape function \<open>Esc\<close> of branch names. The lemmas show
  that \<open>Esc\<close> is inverted by a percent-decoder, hence injective, and that its output is one
  lower-case path segment that never starts with a dot; what \<open>Parse\<close> guarantees of an
  identity it returns; and that it looks at nothing else of a payload.
\<close>

unbundle bit_operations_syntax

section \<open>Esc\<close>

definition isUnescaped :: "char \<Rightarrow> bool" where
  "isUnescaped c \<longleftrightarrow>
     (if CHR ''a'' \<le> c \<and> c \<le> CHR ''z'' then True
      else if CHR ''0'' \<le> c \<and> c \<le> CHR ''9'' then True
      else if c = CHR ''.'' \<or> c = CHR ''_'' \<or> c = CHR ''-'' then True
      else False)"

definition hex :: string where
  "hex = ''0123456789abcdef''"

definition esc_byte :: "char \<Rightarrow> string" where
  "esc_byte c =
     (let w = (of_char c :: 8 word)
      in [CHR ''%'', hex ! unat (drop_bit 4 w), hex ! unat (w AND 15)])"

text \<open>The loop of \<open>Esc\<close>, with its index.\<close>

fun Esc_loop :: "nat \<Rightarrow> string \<Rightarrow> string" where
  "Esc_loop i [] = []"
| "Esc_loop i (c # cs) =
     (if i = 0 \<and> c = CHR ''.'' then esc_byte c @ Esc_loop (Suc i) cs
      else if isUnescaped c then c # Esc_loop (Suc i) cs
      else esc_byte c @ Esc_loop (Suc i) cs)"

definition Esc :: "string \<Rightarrow> string" where
  "Esc s = Esc_loop 0 s"

text \<open>A percent-decoder, the inverse \<open>Esc\<close> is measured against.\<close>

fun unesc :: "string \<Rightarrow> string option" where
  "unesc [] = Some []"
| "unesc (c # cs) =
     (if c = CHR ''%'' then
        (case cs of
           h # l # r \<Rightarrow>
             (case (hex_val h, hex_val l) of
                (Some a, Some b) \<Rightarrow> map_option (Cons (char_of (16 * a + b))) (unesc r)
              | _ \<Rightarrow> None)
         | _ \<Rightarrow> None)
      else map_option (Cons c) (unesc cs))"

text \<open>The alphabet of the output.\<close>

definition esc_char :: "char \<Rightarrow> bool" where
  "esc_char c \<longleftrightarrow> isUnescaped c \<or> c = CHR ''%''"

lemma esc_byte_nibbles:
  "esc_byte c = [CHR ''%'', hex ! (byte_val c div 16), hex ! (byte_val c mod 16)]"
proof -
  have v: "unat (of_char c :: 8 word) = byte_val c"
    using nat_of_char_less_256 [of c]
    by (simp add: unsigned_of_nat take_bit_nat_eq_self flip: of_nat_of_char [where ?'a = "8 word"])
  have "unat (drop_bit 4 (of_char c :: 8 word)) = byte_val c div 16"
    using unat_drop_bit_eq [of 4 "of_char c :: 8 word"] unfolding v drop_bit_eq_div by simp
  moreover have "unat ((of_char c :: 8 word) AND 15) = byte_val c mod 16"
  proof -
    have "(of_char c :: 8 word) AND 15 = take_bit 4 (of_char c)"
      by (simp add: take_bit_eq_mask mask_eq_exp_minus_1)
    moreover have "unat (take_bit 4 (of_char c :: 8 word)) = byte_val c mod 16"
      by (subst unsigned_take_bit_eq) (simp add: v take_bit_eq_mod)
    ultimately show ?thesis by simp
  qed
  ultimately show ?thesis by (simp add: esc_byte_def Let_def)
qed

lemma hex_digits:
  "list_all (\<lambda>n. hex_val (hex ! n) = Some n \<and> isUnescaped (hex ! n) \<and> hex ! n \<noteq> CHR ''.'') [0..<16]"
  by (simp add: upt_rec hex_def hex_val_def is_digit_def digit_val_def isUnescaped_def)

lemma hex_digit:
  assumes "n < 16"
  shows "hex_val (hex ! n) = Some n" and "isUnescaped (hex ! n)" and "hex ! n \<noteq> CHR ''.''"
  using hex_digits assms by (simp_all add: list_all_iff)

declare unesc.simps(2) [simp del]

lemma unesc_pair:
  "hex_val h = Some a \<Longrightarrow> hex_val l = Some b \<Longrightarrow>
   unesc (CHR ''%'' # h # l # r) = map_option (Cons (char_of (16 * a + b))) (unesc r)"
  by (simp add: unesc.simps(2))

lemma unesc_plain: "c \<noteq> CHR ''%'' \<Longrightarrow> unesc (c # cs) = map_option (Cons c) (unesc cs)"
  by (simp add: unesc.simps(2))

lemma unesc_esc_byte: "unesc (esc_byte c @ r) = map_option (Cons c) (unesc r)"
proof -
  have "byte_val c div 16 < 16" and "byte_val c mod 16 < 16"
    using nat_of_char_less_256 [of c] by (auto simp: div_less_iff_less_mult)
  then show ?thesis by (simp add: esc_byte_nibbles unesc_pair hex_digit)
qed

lemma isUnescaped_facts:
  "isUnescaped c \<Longrightarrow> c \<noteq> CHR ''%'' \<and> c \<noteq> CHR ''/'' \<and> byte_val c < 128 \<and> lower_byte c = c"
  by (auto simp: isUnescaped_def lower_byte_def less_eq_char_def split: if_splits)

lemma unesc_unescaped: "isUnescaped c \<Longrightarrow> unesc (c # cs) = map_option (Cons c) (unesc cs)"
  using isUnescaped_facts [of c] by (simp add: unesc_plain)

lemma unesc_Esc_loop: "unesc (Esc_loop i s) = Some s"
  by (induction i s rule: Esc_loop.induct)
     (auto simp: unesc_esc_byte unesc_unescaped)

lemma esc_byte_chars: "\<forall>d \<in> set (esc_byte c). esc_char d"
proof -
  have "byte_val c div 16 < 16" and "byte_val c mod 16 < 16"
    using nat_of_char_less_256 [of c] by (auto simp: div_less_iff_less_mult)
  then show ?thesis by (simp add: esc_byte_nibbles esc_char_def hex_digit)
qed

lemma Esc_loop_chars: "d \<in> set (Esc_loop i s) \<Longrightarrow> esc_char d"
  by (induction i s rule: Esc_loop.induct)
     (use esc_byte_chars in \<open>auto simp: esc_char_def split: if_splits\<close>)

lemma Esc_loop_Suc_plain: "\<forall>c \<in> set s. isUnescaped c \<Longrightarrow> Esc_loop (Suc i) s = s"
  by (induction s arbitrary: i) auto

lemma Esc_hd: "Esc s = c # r \<Longrightarrow> c \<noteq> CHR ''.''"
  by (cases s) (auto simp: Esc_def esc_byte_nibbles split: if_splits)

lemma esc_char_facts:
  "esc_char c \<Longrightarrow> c \<noteq> CHR ''/'' \<and> byte_val c < 128 \<and> lower_byte c = c"
  using isUnescaped_facts [of c] by (auto simp: esc_char_def lower_byte_def)

lemma Esc_no_slash: "CHR ''/'' \<notin> set (Esc s)"
  using Esc_loop_chars esc_char_facts by (fastforce simp: Esc_def)

lemma esc_char_no_upper: "esc_char c \<Longrightarrow> \<not> (CHR ''A'' \<le> c \<and> c \<le> CHR ''Z'')"
  by (auto simp: esc_char_def isUnescaped_def less_eq_char_def split: if_splits)

lemma Esc_no_upper: "no_upper (Esc s)"
  using Esc_loop_chars esc_char_no_upper by (fastforce simp: no_upper_def list_all_iff Esc_def)

lemma Esc_ascii: "is_ascii (Esc s)"
  using Esc_loop_chars esc_char_facts by (fastforce simp: Esc_def is_ascii_def list_all_iff)

lemma Esc_lower: "to_lower ul (Esc s) = Esc s"
proof -
  have "map lower_byte (Esc s) = Esc s"
    using Esc_loop_chars esc_char_facts by (intro map_idI) (fastforce simp: Esc_def)
  then show ?thesis by (simp add: to_lower_def Esc_ascii)
qed

lemma Esc_inj: "Esc s = Esc t \<Longrightarrow> s = t"
  by (metis Esc_def option.inject unesc_Esc_loop)

section \<open>Parse\<close>

record identity =
  Org :: string
  Repo :: string
  Event :: string
  Branch :: string
  ForgeRemoteID :: string
  Commit :: string
  PipelineNumber :: int

record payload_repo =
  pr_FullName :: string
  pr_ForgeRemoteID :: string

record payload_pipeline =
  pp_Event :: string
  pp_Branch :: string
  pp_Number :: int
  pp_Commit :: string

record parsePayload =
  pl_Repo :: "payload_repo option"
  pl_Pipeline :: "payload_pipeline option"

text \<open>Every error of \<open>Parse\<close> wraps \<open>ErrMalformed\<close>; the constructors are the details.\<close>

datatype parse_error = InvalidJSON | MissingRepo | MissingPipeline | InvalidFullName string | MissingEvent

definition dec_payload_repo :: "payload_repo dec" where
  "dec_payload_repo = dec_struct
     [(''full_name'', dec_field pr_FullName (\<lambda>v r. r\<lparr>pr_FullName := v\<rparr>) dec_string),
      (''forge_remote_id'', dec_field pr_ForgeRemoteID (\<lambda>v r. r\<lparr>pr_ForgeRemoteID := v\<rparr>) dec_string)]"

definition dec_payload_pipeline :: "payload_pipeline dec" where
  "dec_payload_pipeline = dec_struct
     [(''event'', dec_field pp_Event (\<lambda>v r. r\<lparr>pp_Event := v\<rparr>) dec_string),
      (''branch'', dec_field pp_Branch (\<lambda>v r. r\<lparr>pp_Branch := v\<rparr>) dec_string),
      (''number'', dec_field pp_Number (\<lambda>v r. r\<lparr>pp_Number := v\<rparr>) dec_int),
      (''commit'', dec_field pp_Commit (\<lambda>v r. r\<lparr>pp_Commit := v\<rparr>) dec_string)]"

definition zero_repo :: payload_repo where
  "zero_repo = \<lparr>pr_FullName = [], pr_ForgeRemoteID = []\<rparr>"

definition zero_pipeline :: payload_pipeline where
  "zero_pipeline = \<lparr>pp_Event = [], pp_Branch = [], pp_Number = 0, pp_Commit = []\<rparr>"

definition zero_payload :: parsePayload where
  "zero_payload = \<lparr>pl_Repo = None, pl_Pipeline = None\<rparr>"

definition payload_fields :: "(string \<times> parsePayload dec) list" where
  "payload_fields =
     [(''repo'', dec_field pl_Repo (\<lambda>v p. p\<lparr>pl_Repo := v\<rparr>) (dec_ptr zero_repo dec_payload_repo)),
      (''pipeline'', dec_field pl_Pipeline (\<lambda>v p. p\<lparr>pl_Pipeline := v\<rparr>)
         (dec_ptr zero_pipeline dec_payload_pipeline))]"

definition splitFullName :: "(nat \<Rightarrow> nat) \<Rightarrow> string \<Rightarrow> parse_error + string \<times> string" where
  "splitFullName ul fullName =
     (case split_on (CHR ''/'') fullName of
        [a, b] \<Rightarrow> (if a = [] \<or> b = [] then Inl (InvalidFullName fullName)
                   else Inr (to_lower ul a, to_lower ul b))
      | _ \<Rightarrow> Inl (InvalidFullName fullName))"

definition Parse :: "(nat \<Rightarrow> nat) \<Rightarrow> string \<Rightarrow> parse_error + identity" where
  "Parse ul body =
     (case Option.bind (parse_json body) (\<lambda>j. dec_struct payload_fields j zero_payload) of
        None \<Rightarrow> Inl InvalidJSON
      | Some p \<Rightarrow>
          (case pl_Repo p of
             None \<Rightarrow> Inl MissingRepo
           | Some r \<Rightarrow>
               (case pl_Pipeline p of
                  None \<Rightarrow> Inl MissingPipeline
                | Some q \<Rightarrow>
                    (case splitFullName ul (pr_FullName r) of
                       Inl e \<Rightarrow> Inl e
                     | Inr (org, repo) \<Rightarrow>
                         (if pp_Event q = [] then Inl MissingEvent
                          else Inr \<lparr>Org = org, Repo = repo, Event = to_lower ul (pp_Event q),
                                    Branch = pp_Branch q, ForgeRemoteID = pr_ForgeRemoteID r,
                                    Commit = pp_Commit q, PipelineNumber = pp_Number q\<rparr>)))))"

text \<open>What every identity \<open>Parse\<close> returns satisfies.\<close>

definition wf_identity :: "identity \<Rightarrow> bool" where
  "wf_identity ident \<longleftrightarrow>
     Org ident \<noteq> [] \<and> Repo ident \<noteq> [] \<and> Event ident \<noteq> [] \<and>
     CHR ''/'' \<notin> set (Org ident) \<and> CHR ''/'' \<notin> set (Repo ident) \<and>
     no_upper (Org ident) \<and> no_upper (Repo ident) \<and> no_upper (Event ident)"

lemma splitFullName_Inr:
  "splitFullName ul f = Inr (org, repo) \<longleftrightarrow>
     (\<exists>a b. f = a @ CHR ''/'' # b \<and> a \<noteq> [] \<and> b \<noteq> [] \<and> CHR ''/'' \<notin> set a \<and> CHR ''/'' \<notin> set b \<and>
        org = to_lower ul a \<and> repo = to_lower ul b)" (is "?L \<longleftrightarrow> ?R")
proof
  assume ?L
  then obtain a b where s: "split_on (CHR ''/'') f = [a, b]" and ne: "a \<noteq> []" "b \<noteq> []"
    and eq: "org = to_lower ul a" "repo = to_lower ul b"
    by (auto simp: splitFullName_def split: list.splits if_splits)
  have "f = a @ CHR ''/'' # b" using join_split [of "CHR ''/''" f] by (simp add: s)
  moreover have "CHR ''/'' \<notin> set a" "CHR ''/'' \<notin> set b"
    using split_on_no_sep [of _ "CHR ''/''" f] by (simp_all add: s)
  ultimately show ?R using ne eq by blast
next
  assume ?R
  then show ?L by (auto simp: splitFullName_def split_on_append split_on_absent)
qed

lemma Parse_Inr:
  assumes "Parse ul body = Inr ident"
  obtains p r q org repo where
    "Option.bind (parse_json body) (\<lambda>j. dec_struct payload_fields j zero_payload) = Some p"
    "pl_Repo p = Some r" "pl_Pipeline p = Some q"
    "splitFullName ul (pr_FullName r) = Inr (org, repo)" "pp_Event q \<noteq> []"
    "ident = \<lparr>Org = org, Repo = repo, Event = to_lower ul (pp_Event q), Branch = pp_Branch q,
              ForgeRemoteID = pr_ForgeRemoteID r, Commit = pp_Commit q, PipelineNumber = pp_Number q\<rparr>"
  using assms by (auto simp: Parse_def split: option.splits sum.splits if_splits)

lemma wf_Parse: "lower_table ul \<Longrightarrow> Parse ul body = Inr ident \<Longrightarrow> wf_identity ident"
  by (erule Parse_Inr) (auto simp: wf_identity_def splitFullName_Inr to_lower_no_upper to_lower_no_slash)

text \<open>
  What \<open>Parse\<close> looks at: the members of an object whose names the decoder takes for one of the given names (exactly, or
  under case folding), in order and with repetitions; of a payload, the repository and the pipeline, and in each the members
  of the identity.
\<close>

definition named :: "string list \<Rightarrow> string \<Rightarrow> bool" where
  "named ns k \<longleftrightarrow> (\<exists>n \<in> set ns. fold_name n = fold_name k)"

definition only :: "string list \<Rightarrow> json \<Rightarrow> json" where
  "only ns j = (case j of JObj kvs \<Rightarrow> JObj (filter (\<lambda>(k, _). named ns k) kvs) | _ \<Rightarrow> j)"

definition relevant :: "json \<Rightarrow> json" where
  "relevant j =
     (case only [''repo'', ''pipeline''] j of
        JObj kvs \<Rightarrow> JObj (map (\<lambda>(k, v).
          (k, if named [''repo''] k then only [''full_name'', ''forge_remote_id''] v
              else only [''event'', ''branch'', ''number'', ''commit''] v)) kvs)
      | j \<Rightarrow> j)"

lemma find_field_None: "find_field tbl k = None \<longleftrightarrow> \<not> named (map fst tbl) k"
  by (cases "map_of tbl k") (force simp: find_field_def named_def find_None_iff dest: map_of_SomeD)+

lemma dec_only: "dec_struct tbl (only (map fst tbl) j) a = dec_struct tbl j a"
proof -
  have "dec_members tbl (filter (\<lambda>(k, _). named (map fst tbl) k) kvs) a = dec_members tbl kvs a" for kvs
    by (induction tbl kvs a rule: dec_members.induct) (auto simp: find_field_None [symmetric] split: option.split)
  then show ?thesis by (cases j) (simp_all add: only_def)
qed

lemma only_null: "only ns j = JNull \<longleftrightarrow> j = JNull"
  by (simp add: only_def split: json.split)

lemma dec_field_only:
  "dec_field get put (dec_ptr zero (dec_struct tbl)) (only (map fst tbl) j) = dec_field get put (dec_ptr zero (dec_struct tbl)) j"
  by (rule ext) (simp add: dec_field_def dec_ptr_def only_null dec_only)

lemma find_payload_field:
  "named [''repo''] k \<Longrightarrow> find_field payload_fields k =
     Some (dec_field pl_Repo (\<lambda>v p. p\<lparr>pl_Repo := v\<rparr>) (dec_ptr zero_repo dec_payload_repo))"
  "\<not> named [''repo''] k \<Longrightarrow> named [''repo'', ''pipeline''] k \<Longrightarrow> find_field payload_fields k =
     Some (dec_field pl_Pipeline (\<lambda>v p. p\<lparr>pl_Pipeline := v\<rparr>) (dec_ptr zero_pipeline dec_payload_pipeline))"
  "\<not> named [''repo'', ''pipeline''] k \<Longrightarrow> find_field payload_fields k = None"
  by (auto simp: find_field_def payload_fields_def named_def fold_name_def fold_rune_def chunks_ascii_Cons)

lemma dec_payload_only:
  "dec_field get put (dec_ptr zero_repo dec_payload_repo) (only [''full_name'', ''forge_remote_id''] j) =
     dec_field get put (dec_ptr zero_repo dec_payload_repo) j"
  "dec_field get' put' (dec_ptr zero_pipeline dec_payload_pipeline) (only [''event'', ''branch'', ''number'', ''commit''] j) =
     dec_field get' put' (dec_ptr zero_pipeline dec_payload_pipeline) j"
proof -
  have r: "dec_payload_repo = dec_struct tbl \<Longrightarrow> map fst tbl = ns \<Longrightarrow>
    dec_field get put (dec_ptr zero_repo dec_payload_repo) (only ns j) = dec_field get put (dec_ptr zero_repo dec_payload_repo) j"
    for tbl ns using dec_field_only [of get put zero_repo tbl j] by simp
  have p: "dec_payload_pipeline = dec_struct tbl \<Longrightarrow> map fst tbl = ns \<Longrightarrow>
    dec_field get' put' (dec_ptr zero_pipeline dec_payload_pipeline) (only ns j) =
    dec_field get' put' (dec_ptr zero_pipeline dec_payload_pipeline) j"
    for tbl ns using dec_field_only [of get' put' zero_pipeline tbl j] by simp
  show "dec_field get put (dec_ptr zero_repo dec_payload_repo) (only [''full_name'', ''forge_remote_id''] j) =
     dec_field get put (dec_ptr zero_repo dec_payload_repo) j"
    by (rule r [OF dec_payload_repo_def]) simp
  show "dec_field get' put' (dec_ptr zero_pipeline dec_payload_pipeline) (only [''event'', ''branch'', ''number'', ''commit''] j) =
     dec_field get' put' (dec_ptr zero_pipeline dec_payload_pipeline) j"
    by (rule p [OF dec_payload_pipeline_def]) simp
qed

lemma dec_relevant: "dec_struct payload_fields (relevant j) a = dec_struct payload_fields j a"
proof (cases j)
  case (JObj kvs)
  have "dec_struct payload_fields (relevant (JObj kvs)) a = dec_members payload_fields kvs a"
    unfolding relevant_def only_def [of "[''repo'', ''pipeline'']"] json.case dec_struct.simps
  proof (induction kvs arbitrary: a)
    case (Cons m kvs)
    obtain k v where m: "m = (k, v)" by fastforce
    consider "named [''repo''] k" | "\<not> named [''repo''] k" "named [''repo'', ''pipeline''] k"
      | "\<not> named [''repo'', ''pipeline''] k" by blast
    then show ?case
    proof cases
      case 1
      then have "named [''repo'', ''pipeline''] k" by (simp add: named_def)
      with 1 Cons show ?thesis by (simp add: m find_payload_field(1) dec_payload_only(1) split: option.split)
    next
      case 2
      with Cons show ?thesis by (simp add: m find_payload_field(2) dec_payload_only(2) split: option.split)
    next
      case 3
      with Cons show ?thesis by (simp add: m find_payload_field(3))
    qed
  qed simp
  then show ?thesis by (simp add: JObj)
qed (simp_all add: relevant_def only_def)

lemma one_slash_split:
  "count_list f c = 1 \<longleftrightarrow> (\<exists>a b. f = a @ c # b \<and> c \<notin> set a \<and> c \<notin> set b)"
proof
  assume "count_list f c = 1"
  then have "c \<in> set f" by (metis count_notin zero_neq_one)
  then obtain a b where f: "f = a @ c # b" "c \<notin> set a" by (meson split_list_first)
  with \<open>count_list f c = 1\<close> have "count_list b c = 0" by simp
  with f show "\<exists>a b. f = a @ c # b \<and> c \<notin> set a \<and> c \<notin> set b"
    by (metis count_list_0_iff)
next
  assume "\<exists>a b. f = a @ c # b \<and> c \<notin> set a \<and> c \<notin> set b"
  then show "count_list f c = 1" by auto
qed

text \<open>A payload as Woodpecker sends it, and its identity.\<close>

definition sample_payload :: string where
  \<open>sample_payload = ''{"repo":{"full_name":"Acme/widgets","forge_remote_id":"7"},"netrc":null,"pipeline":{"event":"Push","branch":"Main","number":3}}''\<close>

lemma sample_json:
  \<open>parse_json sample_payload = Some (JObj
     [(''repo'', JObj [(''full_name'', JStr ''Acme/widgets''), (''forge_remote_id'', JStr ''7'')]),
      (''netrc'', JNull),
      (''pipeline'', JObj [(''event'', JStr ''Push''), (''branch'', JStr ''Main''), (''number'', JNum ''3'')])])\<close>
  by (simp add: sample_payload_def json_eval)

lemmas parse_eval =
  decode_eval payload_fields_def zero_payload_def zero_repo_def zero_pipeline_def
  dec_payload_repo_def dec_payload_pipeline_def splitFullName_def to_lower_def lower_byte_def
  char_of_eq_iff

lemma sample_Parse:
  \<open>Parse ascii_table sample_payload = Inr \<lparr>Org = ''acme'', Repo = ''widgets'', Event = ''push'',
     Branch = ''Main'', ForgeRemoteID = ''7'', Commit = [], PipelineNumber = 3\<rparr>\<close>
  by (simp add: Parse_def sample_json parse_eval)

section \<open>Properties\<close>

text \<open>C27. \<open>Esc\<close> loses nothing: percent-decoding its output gives the branch name back, so two
  branches have the same encoding only when they are the same byte string (in particular
  names that differ only in case never share one).\<close>

theorem Esc_roundtrip: "unesc (Esc s) = Some s \<and> (Esc s = Esc t \<longleftrightarrow> s = t)"
  by (auto simp: Esc_def unesc_Esc_loop dest: Esc_inj [unfolded Esc_def])

text \<open>The output of \<open>Esc\<close> is one lower-case path segment: its bytes are in
  \<open>[a-z0-9._%-]\<close>, it has no slash, never starts with a dot, and lower-casing it (as Vault does
  with policy names) changes nothing.\<close>

theorem Esc_segment:
  "list_all esc_char (Esc s) \<and> CHR ''/'' \<notin> set (Esc s) \<and> \<not> has_prefix (Esc s) ''.'' \<and>
   to_lower ul (Esc s) = Esc s"
proof -
  have "\<not> has_prefix (Esc s) ''.''"
    using Esc_hd by (cases "Esc s") (auto simp: has_prefix_def)
  moreover have "list_all esc_char (Esc s)"
    using Esc_loop_chars by (auto simp: list_all_iff Esc_def)
  ultimately show ?thesis by (simp add: Esc_no_slash Esc_lower)
qed

text \<open>\<open>splitFullName\<close> accepts exactly the names with a single slash that is neither the
  first nor the last byte.\<close>

theorem splitFullName_accepts:
  "(\<exists>p. splitFullName ul f = Inr p) \<longleftrightarrow>
     count_list f (CHR ''/'') = 1 \<and> hd f \<noteq> CHR ''/'' \<and> last f \<noteq> CHR ''/''"
proof -
  have "(\<exists>p. splitFullName ul f = Inr p) \<longleftrightarrow>
      (\<exists>a b. f = a @ CHR ''/'' # b \<and> a \<noteq> [] \<and> b \<noteq> [] \<and> CHR ''/'' \<notin> set a \<and> CHR ''/'' \<notin> set b)"
    by (force simp: splitFullName_Inr)
  also have "\<dots> \<longleftrightarrow> count_list f (CHR ''/'') = 1 \<and> hd f \<noteq> CHR ''/'' \<and> last f \<noteq> CHR ''/''"
    (is "?L \<longleftrightarrow> ?R")
  proof
    assume ?L
    then show ?R by (auto simp: neq_Nil_conv) (metis last_in_set list.distinct(1) last_ConsR set_ConsD)
  next
    assume ?R
    then obtain a b where f: "f = a @ CHR ''/'' # b" "CHR ''/'' \<notin> set a" "CHR ''/'' \<notin> set b"
      using one_slash_split by metis
    from \<open>?R\<close> have ends: "hd f \<noteq> CHR ''/''" "last f \<noteq> CHR ''/''" by simp_all
    from f ends have "a \<noteq> []" "b \<noteq> []" by auto
    with f show ?L by blast
  qed
  finally show ?thesis .
qed

text \<open>C25. An identity returned by \<open>Parse\<close> has a non-empty organisation, repository and event;
  the organisation and the repository have no slash, and none of the three has an ASCII
  upper-case letter.\<close>

theorem Parse_wf: "lower_table ul \<Longrightarrow> Parse ul body = Inr ident \<Longrightarrow> wf_identity ident"
  by (rule wf_Parse)

theorem Parse_wf_witness:
  \<open>wf_identity \<lparr>Org = ''acme'', Repo = ''widgets'', Event = ''push'', Branch = ''Main'',
     ForgeRemoteID = ''7'', Commit = [], PipelineNumber = 3\<rparr>\<close>
  by (rule Parse_wf [OF lower_table_ascii sample_Parse])

text \<open>C26. Nothing else in a payload has an influence: \<open>Parse\<close> gives the same answer to any two JSON payloads that agree
  in the two members \<open>repo.full_name\<close> and \<open>repo.forge_remote_id\<close> and the four members \<open>event\<close>, \<open>branch\<close>,
  \<open>number\<close> and \<open>commit\<close> of \<open>pipeline\<close>, however they differ in all other members (\<open>netrc\<close> among
  them), at the top, in the repository or in the pipeline.\<close>

theorem others_ignored:
  assumes "parse_json body = Some j" and "parse_json body' = Some j'" and "relevant j = relevant j'"
  shows "Parse ul body = Parse ul body'"
proof -
  have "dec_struct payload_fields j zero_payload = dec_struct payload_fields j' zero_payload"
    using assms(3) dec_relevant by metis
  then show ?thesis by (simp add: Parse_def assms(1,2))
qed

theorem others_ignored_witness:
  \<open>Parse ascii_table ''{"netrc":{"login":"x"},"repo":{"full_name":"a/b","clone_url":"u"},"pipeline":{"event":"tag"}}'' =
   Parse ascii_table ''{"repo":{"full_name":"a/b","owner":7},"user":"y","pipeline":{"event":"tag","status":null}}''\<close>
proof -
  let ?j = "JObj [(''netrc'', JObj [(''login'', JStr ''x'')]),
    (''repo'', JObj [(''full_name'', JStr ''a/b''), (''clone_url'', JStr ''u'')]), (''pipeline'', JObj [(''event'', JStr ''tag'')])]"
  let ?j' = "JObj [(''repo'', JObj [(''full_name'', JStr ''a/b''), (''owner'', JNum ''7'')]), (''user'', JStr ''y''),
    (''pipeline'', JObj [(''event'', JStr ''tag''), (''status'', JNull)])]"
  have "relevant ?j = relevant ?j'"
    by (simp add: relevant_def only_def named_def fold_name_def fold_rune_def chunks_ascii_Cons)
  then show ?thesis by (intro others_ignored [where j = ?j and j' = ?j']) (simp_all only:, simp_all add: json_eval)
qed

end
