(* ===== verification/Policy.thy ===== *)
theory Policy
  imports Identity
begin

text \<open>
  Package \<open>internal/policy\<close>: the Vault policy names of an identity. The lemmas show which
  identities get a branch-tier policy, that policies of different repositories are disjoint,
  and that a branch-tier policy belongs to one branch when events have no slash; and who holds it
  in general.
\<close>

definition branchfulEvents :: "(string \<times> bool) list" where
  "branchfulEvents =
     [(''push'', True),
      (''pull_request'', True),
      (''pull_request_closed'', True),
      (''release'', True),
      (''cron'', True)]"

text \<open>A lookup of a missing key in a Go map of booleans is false.\<close>

definition Branchful :: "string \<Rightarrow> bool" where
  "Branchful event = (case map_of branchfulEvents event of Some b \<Rightarrow> b | None \<Rightarrow> False)"

definition Derive :: "identity \<Rightarrow> string \<Rightarrow> string list" where
  "Derive ident pfx =
     (let p1 = pfx @ ''/'' @ Org ident @ ''/'' @ Repo ident @ ''/'' @ Event ident in
      if \<not> Branchful (Event ident) \<or> Branch ident = [] then [p1]
      else (let p2 = p1 @ ''/'' @ Esc (Branch ident) in [p1, p2]))"

text \<open>The part of a policy name after the prefix and the repository: the event, and for a branch
  tier the escaped branch.\<close>

definition tier_names :: "identity \<Rightarrow> string list" where
  "tier_names ident =
     Event ident # (if Branchful (Event ident) \<and> Branch ident \<noteq> []
                    then [Event ident @ ''/'' @ Esc (Branch ident)] else [])"

lemma Derive_tiers:
  "Derive ident pfx =
     map (\<lambda>t. pfx @ CHR ''/'' # Org ident @ CHR ''/'' # Repo ident @ CHR ''/'' # t) (tier_names ident)"
  by (simp add: Derive_def tier_names_def Let_def)

lemma Branchful_iff:
  "Branchful e \<longleftrightarrow> e \<in> {''push'', ''pull_request'', ''pull_request_closed'', ''release'', ''cron''}"
  by (auto simp: Branchful_def branchfulEvents_def split: option.splits if_splits)

lemma Branchful_no_slash: "Branchful e \<Longrightarrow> CHR ''/'' \<notin> set e"
  by (auto simp: Branchful_iff)

lemma shared_policy:
  assumes "wf_identity i" "wf_identity j"
    and "pol \<in> set (Derive i pfx)" "pol \<in> set (Derive j pfx)"
  shows "Org i = Org j \<and> Repo i = Repo j \<and> (\<exists>t. t \<in> set (tier_names i) \<and> t \<in> set (tier_names j) \<and>
     pol = pfx @ CHR ''/'' # Org i @ CHR ''/'' # Repo i @ CHR ''/'' # t)"
  using assms by (auto simp: Derive_tiers wf_identity_def append_slash_cancel)

lemma tier_branch:
  assumes "CHR ''/'' \<notin> set (Event i)" "CHR ''/'' \<notin> set (Event j)"
    and "e @ CHR ''/'' # Esc b \<in> set (tier_names j)" "e = Event i"
  shows "Event j = Event i \<and> Branch j = b"
proof -
  have "e @ CHR ''/'' # Esc b \<noteq> Event j" using assms(2) by (metis in_set_conv_decomp)
  with assms show ?thesis
    by (auto simp: tier_names_def append_slash_cancel dest: Esc_inj split: if_splits)
qed

text \<open>Identities of one repository, for the witnesses.\<close>

definition sample_identity :: "string \<Rightarrow> string \<Rightarrow> identity" where
  "sample_identity event branch =
     \<lparr>Org = ''acme'', Repo = ''widgets'', Event = event, Branch = branch, ForgeRemoteID = ''7'',
      Commit = ''c0ffee'', PipelineNumber = 42\<rparr>"

lemma wf_sample: "wf_identity (sample_identity e b) \<longleftrightarrow> e \<noteq> [] \<and> no_upper e"
  by (simp add: wf_identity_def sample_identity_def no_upper_def)

section \<open>Properties\<close>

text \<open>Every identity gets its event policy; it gets a second one, for the escaped branch,
  exactly when the event is push, pull_request, pull_request_closed, release or cron and
  the branch is not empty.\<close>

theorem Derive_shape:
  "Derive ident pfx =
     (let p1 = join_with (CHR ''/'') [pfx, Org ident, Repo ident, Event ident] in
      if Event ident \<in> {''push'', ''pull_request'', ''pull_request_closed'', ''release'', ''cron''}
         \<and> Branch ident \<noteq> []
      then [p1, join_with (CHR ''/'') [p1, Esc (Branch ident)]] else [p1])"
  by (simp add: Derive_def Branchful_iff Let_def)

text \<open>C28. Repositories are isolated: two identities with a policy name in common belong to the same
  organisation and repository.\<close>

theorem Derive_isolated:
  assumes "wf_identity i" and "wf_identity j"
    and "set (Derive i pfx) \<inter> set (Derive j pfx) \<noteq> {}"
  shows "Org i = Org j \<and> Repo i = Repo j"
  using assms shared_policy by blast

theorem Derive_isolated_witness:
  "Org (sample_identity ''push'' ''main'') = Org (sample_identity ''push'' ''dev'')"
  using Derive_isolated [of "sample_identity ''push'' ''main''" "sample_identity ''push'' ''dev''" "''ci''"]
  by (simp add: wf_sample Derive_def Let_def sample_identity_def)

text \<open>C29. A branch-tier policy belongs to one branch of one event: when the events of two
  identities have no slash, the second one is granted the branch-tier policy of the first only
  with the same organisation, repository, event and branch name, byte for byte.\<close>

theorem Derive_branch_exact:
  assumes "wf_identity i" and "wf_identity j"
    and "CHR ''/'' \<notin> set (Event i)" and "CHR ''/'' \<notin> set (Event j)"
    and "Derive i pfx = [p1, p2]" and "p2 \<in> set (Derive j pfx)"
  shows "Org j = Org i \<and> Repo j = Repo i \<and> Event j = Event i \<and> Branch j = Branch i"
proof -
  have t: "tier_names i = [Event i, Event i @ ''/'' @ Esc (Branch i)]"
    and p2: "p2 = pfx @ CHR ''/'' # Org i @ CHR ''/'' # Repo i @ CHR ''/'' # (Event i @ ''/'' @ Esc (Branch i))"
    using assms(5) by (auto simp: Derive_tiers tier_names_def split: if_splits)
  have "p2 \<in> set (Derive i pfx)" using assms(5) by simp
  from shared_policy [OF assms(1,2) this assms(6)] p2
  have "Org j = Org i" "Repo j = Repo i" "Event i @ CHR ''/'' # Esc (Branch i) \<in> set (tier_names j)"
    by auto
  with tier_branch [OF assms(3,4)] show ?thesis by simp
qed

theorem Derive_branch_exact_witness:
  "Branch (sample_identity ''push'' ''main'') = ''main''"
  using Derive_branch_exact [of "sample_identity ''push'' ''main''" "sample_identity ''push'' ''main''"
      "''ci''" "''ci/acme/widgets/push''" "''ci/acme/widgets/push/main''"]
  by (simp add: wf_sample Derive_def Let_def sample_identity_def Branchful_iff Esc_def isUnescaped_def)

text \<open>C30. Who holds a branch-tier policy, for any events: besides the identities of the same repository, event and
  branch, exactly those of the repository whose event is, in full, the event of the tier, a slash and the
  escaped branch. The event of a payload is not validated, so such an event can be sent: the witness parses a payload whose event is
  \<open>push/main\<close> and whose branch is another one, and its identity is granted the branch tier of \<open>main\<close>. This is why C29
  needs events without a slash.\<close>

theorem branch_policy_holders:
  assumes "wf_identity i" and "wf_identity j" and "Derive i pfx = [p1, p2]"
  shows "p2 \<in> set (Derive j pfx) \<longleftrightarrow> Org j = Org i \<and> Repo j = Repo i \<and>
     (Event j = Event i \<and> Branch j = Branch i \<or> Event j = Event i @ ''/'' @ Esc (Branch i))"
proof -
  let ?t = "Event i @ CHR ''/'' # Esc (Branch i)"
  have i: "Branchful (Event i)" "Branch i \<noteq> []"
    and p2: "p2 = pfx @ CHR ''/'' # Org i @ CHR ''/'' # Repo i @ CHR ''/'' # ?t"
    using assms(3) by (auto simp: Derive_tiers tier_names_def split: if_splits)
  have "p2 \<in> set (Derive i pfx)" using assms(3) by simp
  have "Org j = Org i \<and> Repo j = Repo i \<and> ?t \<in> set (tier_names j)" if j: "p2 \<in> set (Derive j pfx)"
  proof -
    from shared_policy [OF assms(1,2) \<open>p2 \<in> set (Derive i pfx)\<close> j] obtain t where
      "Org i = Org j" "Repo i = Repo j" "t \<in> set (tier_names j)"
      "p2 = pfx @ CHR ''/'' # Org i @ CHR ''/'' # Repo i @ CHR ''/'' # t" by blast
    moreover from this(4) have "t = ?t" unfolding p2 by simp
    ultimately show ?thesis by simp
  qed
  moreover have "Org j = Org i \<and> Repo j = Repo i \<and> ?t \<in> set (tier_names j) \<Longrightarrow> p2 \<in> set (Derive j pfx)"
    unfolding Derive_tiers p2 set_map by (elim conjE, simp only:, rule imageI)
  ultimately have "p2 \<in> set (Derive j pfx) \<longleftrightarrow> Org j = Org i \<and> Repo j = Repo i \<and> ?t \<in> set (tier_names j)" by blast
  moreover have "?t \<in> set (tier_names j) \<longleftrightarrow>
      Event j = ?t \<or> Branchful (Event j) \<and> Branch j \<noteq> [] \<and> ?t = Event j @ CHR ''/'' # Esc (Branch j)"
    by (auto simp: tier_names_def)
  moreover have "Branchful (Event j) \<and> Branch j \<noteq> [] \<and> ?t = Event j @ CHR ''/'' # Esc (Branch j) \<longleftrightarrow>
      Event j = Event i \<and> Branch j = Branch i"
    using i Branchful_no_slash by (auto simp: append_slash_cancel intro: Esc_inj [THEN sym])
  ultimately show ?thesis by auto
qed

theorem branch_policy_holders_witness:
  \<open>\<exists>j. Parse ascii_table ''{"repo":{"full_name":"acme/widgets"},"pipeline":{"event":"push/main","branch":"evil"}}'' = Inr j \<and>
     Branch j \<noteq> ''main'' \<and> ''ci/acme/widgets/push/main'' \<in> set (Derive j ''ci'')\<close>
proof -
  let ?j = "\<lparr>Org = ''acme'', Repo = ''widgets'', Event = ''push/main'', Branch = ''evil'', ForgeRemoteID = [],
    Commit = [], PipelineNumber = 0\<rparr>"
  have j: \<open>Parse ascii_table ''{"repo":{"full_name":"acme/widgets"},"pipeline":{"event":"push/main","branch":"evil"}}'' = Inr ?j\<close>
    (is "Parse _ ?body = _")
  proof -
    have "parse_json ?body = Some (JObj [(''repo'', JObj [(''full_name'', JStr ''acme/widgets'')]),
        (''pipeline'', JObj [(''event'', JStr ''push/main''), (''branch'', JStr ''evil'')])])"
      by (simp add: json_eval)
    then show ?thesis by (simp add: Parse_def parse_eval)
  qed
  have i: "Derive (sample_identity ''push'' ''main'') ''ci'' = [''ci/acme/widgets/push'', ''ci/acme/widgets/push/main'']"
    by (simp add: Derive_def Let_def sample_identity_def Branchful_iff Esc_def isUnescaped_def)
  have "wf_identity (sample_identity ''push'' ''main'')" by (simp add: wf_sample no_upper_def)
  from branch_policy_holders [OF this wf_Parse [OF lower_table_ascii j] i] j
  show ?thesis by (simp add: sample_identity_def Esc_def isUnescaped_def)
qed

text \<open>Under a prefix without upper-case letters every policy name is free of upper-case
  letters, so Vault's lower-casing of policy names is the identity on them (which the
  comparison of the requested names with the warned ones relies on).\<close>

theorem Derive_no_upper:
  assumes "wf_identity ident" and "no_upper pfx" and "p \<in> set (Derive ident pfx)"
  shows "no_upper p"
  using assms Esc_no_upper [of "Branch ident"]
  by (auto simp: Derive_tiers tier_names_def wf_identity_def no_upper_def split: if_splits)

theorem Derive_no_upper_witness:
  "no_upper ''ci/acme/widgets/push/%4dain''"
  using Derive_no_upper [of "sample_identity ''push'' ''Main''" "''ci''" "''ci/acme/widgets/push/%4dain''"]
  by (simp add: wf_sample Derive_def Let_def sample_identity_def Branchful_iff Esc_def isUnescaped_def
      esc_byte_nibbles hex_def no_upper_def)

end
