(* ===== verification/VaultApi.thy ===== *)
theory VaultApi
  imports Policy
begin

text \<open>
  The data of package \<open>internal/vaultx\<close> and its use of the Vault API client.

  The server, the network and the API client library are not part of the repository: they
  are the record \<open>lib\<close>, three functions from a call and the outside state \<open>'w\<close> to a reply and the
  next outside state, and the Unicode table of the runtime. Nothing is assumed of them
  here. A call of the library by the model appends itself to \<open>calls\<close>, so that theorems can say
  which calls an operation makes, as whom, and in which order.
\<close>

section \<open>Calls and replies\<close>

text \<open>The context a call runs under: of the HTTP request, the detached one of the broker's clean-up, or
  of the lifecycle goroutine.\<close>

datatype ctx = RequestCtx | CleanupCtx | RunCtx

datatype req_body =
    NoBody
  | MintBody "string list" "(string \<times> string) list option" string
      \<comment> \<open>\<open>policies\<close>, \<open>meta\<close> (None is a nil map), \<open>display_name\<close>\<close>

record raw_request =
  rq_method :: string
  rq_path :: string
  rq_list :: bool           \<comment> \<open>the query parameter \<open>list=true\<close>\<close>
  rq_token :: string        \<comment> \<open>\<open>ClientToken\<close>\<close>
  rq_body :: req_body
  rq_ctx :: ctx

text \<open>The outcome of \<open>RawRequestWithContext\<close>: a response whose body is a JSON value or not, an
  \<open>*api.ResponseError\<close> with its status code, or any other error (transport, timeout,
  cancellation).\<close>

datatype raw_reply = RawOK "json option" | RawStatus nat | RawFail

record secret_auth =
  sa_ClientToken :: string
  sa_LeaseDuration :: int

text \<open>The \<open>(*api.Secret, error)\<close> of the login and renewal calls: an error, a nil secret, or a secret
  with its \<open>Auth\<close>.\<close>

datatype secret_reply = SecretErr | SecretNil | SecretOK "secret_auth option"

datatype api_call =
    Raw raw_request
  | LogicalWrite string "(string \<times> string) list" string ctx  \<comment> \<open>path, data, token, context\<close>
  | RenewSelfCall int string ctx                          \<comment> \<open>increment, token, context\<close>

record 'w lib =
  lib_raw :: "raw_request \<Rightarrow> 'w \<Rightarrow> raw_reply \<times> 'w"
  lib_write :: "string \<Rightarrow> (string \<times> string) list \<Rightarrow> string \<Rightarrow> ctx \<Rightarrow> 'w \<Rightarrow> secret_reply \<times> 'w"
  lib_renew :: "int \<Rightarrow> string \<Rightarrow> ctx \<Rightarrow> 'w \<Rightarrow> secret_reply \<times> 'w"
  lib_lower :: "nat \<Rightarrow> nat"

section \<open>The client\<close>

record vx_config =
  cfg_Addr :: string
  cfg_RoleID :: string
  cfg_SecretID :: string
  cfg_TokenRole :: string
  cfg_KVMount :: string
  cfg_KVPrefix :: string

datatype metric = IncSweepRead | IncDerefRead

datatype log_level = LevelDebug | LevelInfo | LevelWarn | LevelError

text \<open>
  \<open>Client\<close>: the default token of the API client, the mutex-guarded session state, whether the
  metrics seam is set, the outside state, and the calls, metric increments and log lines so far.
\<close>

record 'w client =
  api_token :: string
  token :: string
  leaseSeconds :: int
  sessionOK :: bool
  canaryOK :: bool
  metrics_set :: bool
  world :: 'w
  calls :: "api_call list"
  metric_calls :: "metric list"
  log_lines :: "(log_level \<times> string) list"

datatype vx_error =
    LoginFailed | LoginNoAuth | RenewFailed
  | MintFailed | MintDecode | MintNoAuth
  | RevokeSelfFailed
  | CanaryMint vx_error | CanaryTokenType string | CanaryRenewable | CanaryOrphan | CanaryRevoke vx_error
  | MalformedDirective string
  | GetFailed string | ListDecode string | EntryDecode string
  | DerefFailed string vx_error | DerefDecode string

text \<open>\<open>errors.Is(err, ErrMalformedDirective)\<close>.\<close>

fun is_malformed :: "vx_error \<Rightarrow> bool" where
  "is_malformed (MalformedDirective _) = True"
| "is_malformed (DerefFailed _ e) = is_malformed e"
| "is_malformed (CanaryMint e) = is_malformed e"
| "is_malformed (CanaryRevoke e) = is_malformed e"
| "is_malformed _ = False"

text \<open>
  A new client (\<open>New\<close>): no session, no canary pass, no token. (\<open>api.NewClient\<close> of the library takes a default token from
  \<open>VAULT_TOKEN\<close>; the only calls made before a login has succeeded are logins, and a login that succeeds replaces it.)
\<close>

definition New :: "bool \<Rightarrow> 'w \<Rightarrow> 'w client" where
  "New with_metrics w =
     \<lparr>api_token = [], token = [], leaseSeconds = 0, sessionOK = False, canaryOK = False,
      metrics_set = with_metrics, world = w, calls = [], metric_calls = [], log_lines = []\<rparr>"

definition SetMetrics :: "'w client \<Rightarrow> 'w client" where
  "SetMetrics c = c\<lparr>metrics_set := True\<rparr>"

definition Healthy :: "'w client \<Rightarrow> bool" where
  "Healthy c \<longleftrightarrow> sessionOK c \<and> canaryOK c"

definition CanaryOK :: "'w client \<Rightarrow> bool" where
  "CanaryOK c \<longleftrightarrow> canaryOK c"

definition setSessionOK :: "bool \<Rightarrow> ('w client, unit) state" where
  "setSessionOK v = State_Monad.update (\<lambda>c. c\<lparr>sessionOK := v\<rparr>)"

definition setCanaryOK :: "bool \<Rightarrow> ('w client, unit) state" where
  "setCanaryOK v = State_Monad.update (\<lambda>c. c\<lparr>canaryOK := v\<rparr>)"

definition logger :: "log_level \<Rightarrow> string \<Rightarrow> ('w client, unit) state" where
  "logger level msg = State_Monad.update (\<lambda>c. c\<lparr>log_lines := log_lines c @ [(level, msg)]\<rparr>)"

text \<open>\<open>if c.metrics != nil { c.metrics.Inc...() }\<close>\<close>

definition count_metric :: "metric \<Rightarrow> ('w client, unit) state" where
  "count_metric m =
     State_Monad.update (\<lambda>c. if metrics_set c then c\<lparr>metric_calls := metric_calls c @ [m]\<rparr> else c)"

section \<open>Requests\<close>

text \<open>\<open>c.api.NewRequest\<close> (the default token of the client is the request's) and the calls themselves.\<close>

definition newRequest :: "string \<Rightarrow> string \<Rightarrow> ('w client, raw_request) state" where
  "newRequest method path = do {
     c \<leftarrow> State_Monad.get;
     State_Monad.return \<lparr>rq_method = method, rq_path = path, rq_list = False,
       rq_token = api_token c, rq_body = NoBody, rq_ctx = RequestCtx\<rparr>
   }"

definition rawRequest :: "'w lib \<Rightarrow> ctx \<Rightarrow> raw_request \<Rightarrow> ('w client, raw_reply) state" where
  "rawRequest lib ctx req = State (\<lambda>c.
     let rq = req\<lparr>rq_ctx := ctx\<rparr>; (r, w) = lib_raw lib rq (world c)
     in (r, c\<lparr>world := w, calls := calls c @ [Raw rq]\<rparr>))"

definition logicalWrite ::
  "'w lib \<Rightarrow> ctx \<Rightarrow> string \<Rightarrow> (string \<times> string) list \<Rightarrow> ('w client, secret_reply) state" where
  "logicalWrite lib ctx path data = State (\<lambda>c.
     let (r, w) = lib_write lib path data (api_token c) ctx (world c)
     in (r, c\<lparr>world := w, calls := calls c @ [LogicalWrite path data (api_token c) ctx]\<rparr>))"

definition renewSelfWithContext :: "'w lib \<Rightarrow> ctx \<Rightarrow> int \<Rightarrow> ('w client, secret_reply) state" where
  "renewSelfWithContext lib ctx increment = State (\<lambda>c.
     let (r, w) = lib_renew lib increment (api_token c) ctx (world c)
     in (r, c\<lparr>world := w, calls := calls c @ [RenewSelfCall increment (api_token c) ctx]\<rparr>))"

text \<open>\<open>vaultGet\<close>: \<open>Inr None\<close> is found=false without an error (403, 404), \<open>Inr (Some body)\<close> a response to decode. The path of
  the request is the one the code composes; \<open>NewRequest\<close> of the library joins and cleans it.\<close>

definition vaultGet ::
  "'w lib \<Rightarrow> ctx \<Rightarrow> string \<Rightarrow> string \<Rightarrow> bool \<Rightarrow> ('w client, vx_error + json option option) state" where
  "vaultGet lib ctx tok path list = do {
     req \<leftarrow> newRequest ''GET'' (''/v1/'' @ path);
     let req = (if list then req\<lparr>rq_list := True\<rparr> else req);
     let req = req\<lparr>rq_token := tok\<rparr>;
     r \<leftarrow> rawRequest lib ctx req;
     State_Monad.return (case r of
         RawOK body \<Rightarrow> Inr (Some body)
       | RawStatus code \<Rightarrow> (if code = 403 \<or> code = 404 then Inr None else Inl (GetFailed path))
       | RawFail \<Rightarrow> Inl (GetFailed path))
   }"

section \<open>What a request changes\<close>

abbreviation get_request :: "ctx \<Rightarrow> string \<Rightarrow> string \<Rightarrow> raw_request" where
  "get_request ctx tok path \<equiv>
     \<lparr>rq_method = ''GET'', rq_path = ''/v1/'' @ path, rq_list = False, rq_token = tok,
      rq_body = NoBody, rq_ctx = ctx\<rparr>"

abbreviation get_call :: "ctx \<Rightarrow> string \<Rightarrow> string \<Rightarrow> bool \<Rightarrow> api_call" where
  "get_call ctx tok path list \<equiv>
     Raw \<lparr>rq_method = ''GET'', rq_path = ''/v1/'' @ path, rq_list = list, rq_token = tok,
          rq_body = NoBody, rq_ctx = ctx\<rparr>"

lemma run_newRequest [simp]:
  "run_state (newRequest method path) c =
     (\<lparr>rq_method = method, rq_path = path, rq_list = False, rq_token = api_token c,
       rq_body = NoBody, rq_ctx = RequestCtx\<rparr>, c)"
  by (simp add: newRequest_def)

lemma run_rawRequest:
  "run_state (rawRequest lib ctx req) c =
     (fst (lib_raw lib (req\<lparr>rq_ctx := ctx\<rparr>) (world c)),
      c\<lparr>world := snd (lib_raw lib (req\<lparr>rq_ctx := ctx\<rparr>) (world c)),
        calls := calls c @ [Raw (req\<lparr>rq_ctx := ctx\<rparr>)]\<rparr>)"
  by (simp add: rawRequest_def Let_def split: prod.split)

definition classify_get :: "string \<Rightarrow> raw_reply \<Rightarrow> vx_error + json option option" where
  "classify_get path r =
     (case r of
        RawOK body \<Rightarrow> Inr (Some body)
      | RawStatus code \<Rightarrow> (if code = 403 \<or> code = 404 then Inr None else Inl (GetFailed path))
      | RawFail \<Rightarrow> Inl (GetFailed path))"

lemma run_vaultGet:
  "run_state (vaultGet lib ctx tok path list) c =
     (let rq = \<lparr>rq_method = ''GET'', rq_path = ''/v1/'' @ path, rq_list = list, rq_token = tok,
                rq_body = NoBody, rq_ctx = ctx\<rparr>; (r, w) = lib_raw lib rq (world c)
      in (classify_get path r, c\<lparr>world := w, calls := calls c @ [Raw rq]\<rparr>))"
  by (simp add: vaultGet_def classify_get_def run_rawRequest Let_def split_beta)

text \<open>
  \<open>appends P\<close>: the session state and the log are as before, and the calls are the old ones
  followed by calls that satisfy \<open>P\<close>.
\<close>

definition session_of :: "'w client \<Rightarrow> string \<times> string \<times> int \<times> bool \<times> bool \<times> bool" where
  "session_of c = (api_token c, token c, leaseSeconds c, sessionOK c, canaryOK c, metrics_set c)"

definition appends :: "(api_call \<Rightarrow> bool) \<Rightarrow> 'w client \<Rightarrow> 'w client \<Rightarrow> bool" where
  "appends P c d \<longleftrightarrow> session_of d = session_of c \<and> log_lines d = log_lines c \<and>
     (\<exists>new. calls d = calls c @ new \<and> list_all P new)"

interpretation appends: io_order "appends P" for P
proof
  show "appends P s s" for s :: "'w client" by (simp add: appends_def)
  show "appends P s u" if "appends P s t" "appends P t u" for s t u :: "'w client"
    using that by (auto simp: appends_def)
qed

lemma appends_newRequest [io_intros]: "state_io_rel (appends P) (newRequest m p)"
  by (rule state_io_relI') (simp add: appends.refl_R)

lemma appends_vaultGet:
  "P (get_call ctx tok path list) \<Longrightarrow> state_io_rel (appends P) (vaultGet lib ctx tok path list)"
  by (rule state_io_relI')
     (simp add: run_vaultGet Let_def split_beta appends_def session_of_def)

lemma appends_count_metric [io_intros]: "state_io_rel (appends P) (count_metric m)"
  by (rule state_io_relI') (simp add: count_metric_def appends_def session_of_def)

lemma appends_mono: "appends P c d \<Longrightarrow> (\<And>x. P x \<Longrightarrow> Q x) \<Longrightarrow> appends Q c d"
  by (auto simp: appends_def list_all_iff)

section \<open>Two outside worlds to run operations in\<close>

text \<open>
  A server that answers with a list of replies in order (and fails when the list is used up),
  for concrete runs; and a server that answers a read by its request alone.
\<close>

definition scripted :: "(raw_reply list) lib" where
  "scripted =
     \<lparr>lib_raw = (\<lambda>rq w. case w of [] \<Rightarrow> (RawFail, []) | r # rs \<Rightarrow> (r, rs)),
      lib_write = (\<lambda>_ _ _ _ w. (SecretErr, w)), lib_renew = (\<lambda>_ _ _ w. (SecretErr, w)),
      lib_lower = ascii_table\<rparr>"

definition frozen :: "(raw_request \<Rightarrow> raw_reply) \<Rightarrow> unit lib" where
  "frozen srv =
     \<lparr>lib_raw = (\<lambda>rq w. (srv rq, w)), lib_write = (\<lambda>_ _ _ _ w. (SecretErr, w)),
      lib_renew = (\<lambda>_ _ _ w. (SecretErr, w)), lib_lower = ascii_table\<rparr>"

lemma scripted_raw [simp]:
  "lib_raw scripted rq [] = (RawFail, [])" "lib_raw scripted rq (r # rs) = (r, rs)"
  "lib_lower scripted = ascii_table"
  by (simp_all add: scripted_def)

lemma frozen_raw [simp]: "lib_raw (frozen srv) rq w = (srv rq, w)" "lib_lower (frozen srv) = ascii_table"
  by (simp_all add: frozen_def)

end
