(* ===== verification/GoTime.thy ===== *)
theory GoTime
  imports GoDecode "HOL-Library.Word" "HOL-Library.Log_Nat"
begin

text \<open>
  The part of Go's package \<open>time\<close> the program uses: durations as signed 64-bit counts of
  nanoseconds, the saturating difference of two instants, and \<open>ParseDuration\<close> with its
  overflow checks. A fraction of a unit goes through binary floating point in Go; the
  rounding of each of its operations is written out on rationals.
\<close>

section \<open>Durations\<close>

type_synonym duration = "64 word"

definition second :: duration where
  "second = 1000000000"

lemma sint_of_int64: "- (2 ^ 63) \<le> x \<Longrightarrow> x < 2 ^ 63 \<Longrightarrow> sint (word_of_int x :: duration) = x"
  by (simp add: signed_of_int signed_take_bit_int_eq_self)

lemma sint_range64: "- (2 ^ 63) \<le> sint (d :: duration)" "sint (d :: duration) < 2 ^ 63"
  using sint_greater_eq [of d] sint_less [of d] by simp_all

text \<open>Instants, in nanoseconds on one time line, and \<open>Time.Sub\<close>, which saturates.\<close>

type_synonym instant = int

definition time_Sub :: "instant \<Rightarrow> instant \<Rightarrow> duration" where
  "time_Sub t u =
     (if t - u < - (2 ^ 63) then word_of_int (- (2 ^ 63))
      else if 2 ^ 63 - 1 < t - u then word_of_int (2 ^ 63 - 1)
      else word_of_int (t - u))"

lemma sint_time_Sub: "sint (time_Sub t u) = max (- (2 ^ 63)) (min (2 ^ 63 - 1) (t - u))"
  by (auto simp: time_Sub_def sint_of_int64 simp del: of_int_diff)

section \<open>Floating point\<close>

text \<open>The binary exponent of a positive rational, and rounding to 53 bits, to nearest, ties to even.
  Exponents are unbounded here; the quotients \<open>ParseDuration\<close> forms beyond the range of a
  float are truncated to 0 with or without the bound.\<close>

definition exp_of :: "rat \<Rightarrow> int" where
  "exp_of x =
     (let (p, q) = quotient_of x; k = int (floorlog 2 (nat p)) - int (floorlog 2 (nat q)) in
      if 2 powi k \<le> x then k else k - 1)"

definition f64 :: "rat \<Rightarrow> rat" where
  "f64 x =
     (if x = 0 then 0
      else
        (let u = 2 powi (exp_of x - 52); n = \<lfloor>x / u\<rfloor>; r = x / u - of_int n in
         of_int (if r < 1 / 2 \<or> (r = 1 / 2 \<and> even n) then n else n + 1) * u))"

section \<open>ParseDuration\<close>

datatype duration_error = BadDuration | MissingUnit | UnknownUnit string

fun leading_int :: "nat \<Rightarrow> string \<Rightarrow> (nat \<times> string) option" where
  "leading_int x [] = Some (x, [])"
| "leading_int x (c # cs) =
     (if \<not> is_digit c then Some (x, c # cs)
      else if 2 ^ 63 div 10 < x then None
      else if 2 ^ 63 < x * 10 + digit_val c then None
      else leading_int (x * 10 + digit_val c) cs)"

fun leading_fraction :: "nat \<Rightarrow> rat \<Rightarrow> bool \<Rightarrow> string \<Rightarrow> nat \<times> rat \<times> string" where
  "leading_fraction x scale overflow [] = (x, scale, [])"
| "leading_fraction x scale overflow (c # cs) =
     (if \<not> is_digit c then (x, scale, c # cs)
      else if overflow \<or> (2 ^ 63 - 1) div 10 < x \<or> 2 ^ 63 < x * 10 + digit_val c then leading_fraction x scale True cs
      else leading_fraction (x * 10 + digit_val c) (f64 (scale * 10)) overflow cs)"

definition unitMap :: "(string \<times> nat) list" where
  "unitMap =
     [(''ns'', 1), (''us'', 1000), ([CHR 0xC2, CHR 0xB5, CHR ''s''], 1000), ([CHR 0xCE, CHR 0xBC, CHR ''s''], 1000),
      (''ms'', 1000000), (''s'', 1000000000), (''m'', 60000000000), (''h'', 3600000000000)]"

definition unit_char :: "char \<Rightarrow> bool" where
  "unit_char c \<longleftrightarrow> c \<noteq> CHR ''.'' \<and> \<not> is_digit c"

text \<open>The number: its integer part, its fraction over a scale, whether it had digits at all, and the rest.\<close>

definition scan_number :: "string \<Rightarrow> (nat \<times> nat \<times> rat \<times> bool \<times> string) option" where
  "scan_number s =
     (case leading_int 0 s of
        None \<Rightarrow> None
      | Some (v, r) \<Rightarrow>
          (if r \<noteq> [] \<and> hd r = CHR ''.'' then
             (let (f, scale, r') = leading_fraction 0 1 False (tl r) in
              Some (v, f, scale, r \<noteq> s \<or> r' \<noteq> tl r, r'))
           else Some (v, 0, 1, r \<noteq> s, r)))"

text \<open>\<open>v\<close> and \<open>f / scale\<close> times \<open>w\<close> nanoseconds.\<close>

definition scale_unit :: "nat \<Rightarrow> nat \<Rightarrow> rat \<Rightarrow> nat \<Rightarrow> nat option" where
  "scale_unit v f scale w =
     (if 2 ^ 63 div w < v then None
      else if f = 0 then Some (v * w)
      else
        (let ns = v * w + nat \<lfloor>f64 (f64 (of_nat f) * f64 (of_nat w / scale))\<rfloor> in
         if 2 ^ 63 < ns then None else Some ns))"

text \<open>One number with its unit: its nanoseconds and the rest of the text.\<close>

definition parse_unit :: "string \<Rightarrow> duration_error + nat \<times> string" where
  "parse_unit s =
     (if s = [] \<or> unit_char (hd s) then Inl BadDuration
      else
        (case scan_number s of
           None \<Rightarrow> Inl BadDuration
         | Some (v, f, scale, has_digits, r) \<Rightarrow>
             (let u = takeWhile unit_char r in
              if \<not> has_digits then Inl BadDuration
              else if u = [] then Inl MissingUnit
              else
                (case map_of unitMap u of
                   None \<Rightarrow> Inl (UnknownUnit u)
                 | Some w \<Rightarrow>
                     (case scale_unit v f scale w of
                        None \<Rightarrow> Inl BadDuration
                      | Some ns \<Rightarrow> Inr (ns, dropWhile unit_char r))))))"

lemma leading_int_length: "leading_int x s = Some (v, r) \<Longrightarrow> length r \<le> length s"
  by (induction x s rule: leading_int.induct) (auto split: if_splits)

lemma leading_fraction_length: "leading_fraction x sc ov s = (f, sc', r) \<Longrightarrow> length r \<le> length s"
  by (induction x sc ov s rule: leading_fraction.induct) (auto simp del: power.simps split: if_splits)

lemma scan_number_length:
  assumes "scan_number s = Some (v, f, sc, h, r)"
  shows "length r \<le> length s"
proof -
  from assms obtain w t where t: "leading_int 0 s = Some (w, t)" by (auto simp: scan_number_def split: option.splits)
  have "length r \<le> length t"
    using assms by (auto simp: scan_number_def t split: if_splits prod.splits dest!: leading_fraction_length)
  with leading_int_length [OF t] show ?thesis by simp
qed

lemma parse_unit_length:
  assumes "parse_unit s = Inr (ns, r)"
  shows "length r < length s"
proof -
  from assms obtain v f sc h t where t: "scan_number s = Some (v, f, sc, h, t)" "takeWhile unit_char t \<noteq> []"
    "r = dropWhile unit_char t"
    by (auto simp: parse_unit_def Let_def split: if_splits option.splits)
  have "length (takeWhile unit_char t) + length r = length t"
    unfolding t(3) length_append [symmetric] takeWhile_dropWhile_id ..
  with t(2) have "length r < length t" by (cases "takeWhile unit_char t") auto
  with scan_number_length [OF t(1)] show ?thesis by simp
qed

text \<open>The loop; the sum is a \<open>uint64\<close>.\<close>

function parse_units :: "nat \<Rightarrow> string \<Rightarrow> duration_error + nat" where
  "parse_units d s =
     (if s = [] then Inr d
      else
        (case parse_unit s of
           Inl e \<Rightarrow> Inl e
         | Inr (v, r) \<Rightarrow>
             (let d' = (d + v) mod 2 ^ 64 in if 2 ^ 63 < d' then Inl BadDuration else parse_units d' r)))"
  by pat_completeness auto
termination by (relation "measure (\<lambda>(d, s). length s)") (auto dest: parse_unit_length)

declare parse_units.simps [simp del]

definition ParseDuration :: "string \<Rightarrow> duration_error + duration" where
  "ParseDuration s =
     (let neg = (s \<noteq> [] \<and> hd s = CHR ''-'');
          t = (if s \<noteq> [] \<and> (hd s = CHR ''-'' \<or> hd s = CHR ''+'') then tl s else s) in
      if t = ''0'' then Inr 0
      else if t = [] then Inl BadDuration
      else
        (case parse_units 0 t of
           Inl e \<Rightarrow> Inl e
         | Inr d \<Rightarrow>
             (if neg then Inr (- word_of_int (int d))
              else if 2 ^ 63 - 1 < d then Inl BadDuration
              else Inr (word_of_int (int d)))))"

section \<open>Lemmas\<close>

lemma nat_of_digits_ge: "x \<le> nat_of_digits x ds"
  by (induction ds arbitrary: x) (auto, metis add_leD1 le_add1 le_trans mult.commute mult_le_mono1 nat_mult_1 one_le_numeral)

lemma leading_int_digits:
  assumes "list_all is_digit ds" and "r = [] \<or> \<not> is_digit (hd r)" and "x \<le> 2 ^ 63"
  shows "leading_int x (ds @ r) = (if nat_of_digits x ds \<le> 2 ^ 63 then Some (nat_of_digits x ds, r) else None)"
  using assms(1,3)
proof (induction ds arbitrary: x)
  case Nil
  with assms(2) show ?case by (cases r) auto
next
  case (Cons c ds)
  have "2 ^ 63 < nat_of_digits (x * 10 + digit_val c) ds" if "2 ^ 63 div 10 < x \<or> 2 ^ 63 < x * 10 + digit_val c"
    using that nat_of_digits_ge [of "x * 10 + digit_val c" ds] by auto
  with Cons show ?case by auto
qed

lemma parse_units_one:
  assumes "list_all is_digit ds" "ds \<noteq> []" "list_all unit_char u" "u \<noteq> []" "map_of unitMap u = Some w"
  shows "parse_units 0 (ds @ u) =
    (if nat_of_digits 0 ds \<le> 2 ^ 63 \<and> nat_of_digits 0 ds \<le> 2 ^ 63 div w
     then Inr (nat_of_digits 0 ds * w) else Inl BadDuration)"
proof -
  obtain d ds' where ds: "ds = d # ds'" using assms(2) by (cases ds) auto
  obtain a u' where u: "u = a # u'" using assms(4) by (cases u) auto
  have a: "\<not> is_digit a" "a \<noteq> CHR ''.''" "\<not> unit_char d" using assms(1,3) by (auto simp: ds u unit_char_def)
  have tw: "takeWhile unit_char u = u" "dropWhile unit_char u = []"
    using assms(3) by (auto simp: list_all_iff takeWhile_eq_all_conv)
  have "scan_number (ds @ u) = (if nat_of_digits 0 ds \<le> 2 ^ 63 then Some (nat_of_digits 0 ds, 0, 1, True, u) else None)"
    using leading_int_digits [OF assms(1), of u 0] a(1,2) by (simp add: scan_number_def u ds del: leading_int.simps)
  then have "parse_unit (ds @ u) = (if nat_of_digits 0 ds \<le> 2 ^ 63 \<and> nat_of_digits 0 ds \<le> 2 ^ 63 div w
      then Inr (nat_of_digits 0 ds * w, []) else Inl BadDuration)"
    using a(3) by (simp add: parse_unit_def tw assms(4,5) scale_unit_def ds)
  moreover have "nat_of_digits 0 ds * w \<le> 2 ^ 63" if "nat_of_digits 0 ds \<le> 2 ^ 63 div w"
    using mult_le_mono1 [OF that, of w] div_times_less_eq_dividend order_trans by blast
  ultimately show ?thesis
    using assms(2) by (auto simp: parse_units.simps [of 0 "ds @ u"] parse_units.simps [of _ "[]"] Let_def)
qed

lemma ParseDuration_seconds:
  "ParseDuration (nat_digits n @ ''s'') = (if n \<le> 9223372036 then Inr (word_of_int (int n * 1000000000)) else Inl BadDuration)"
proof -
  note d = nat_digits_ok [of n]
  then obtain c cs where ds: "nat_digits n = c # cs" "is_digit c" by (cases "nat_digits n") auto
  have u: "list_all unit_char ''s''" "map_of unitMap ''s'' = Some 1000000000"
    by (simp_all add: unit_char_def is_digit_def unitMap_def)
  have "parse_units 0 (nat_digits n @ ''s'') = (if n \<le> 9223372036 then Inr (n * 1000000000) else Inl BadDuration)"
    using parse_units_one [of "nat_digits n" "''s''" 1000000000] d u by auto
  moreover have "c \<noteq> CHR ''-''" "c \<noteq> CHR ''+''" using ds(2) by (auto simp: is_digit_def)
  ultimately show ?thesis by (simp add: ParseDuration_def ds Let_def)
qed

end
