(* ===== verification/Mint.thy ===== *)
theory Mint
  imports VaultApi GoTime
begin

text \<open>
  \<open>internal/vaultx/mint.go\<close>: \<open>MintToken\<close> and \<open>RevokeSelf\<close>, with the decoding of the mint response
  and the token's lifetime as a 64-bit duration.
\<close>

record mint =
  Token :: string
  Accessor :: string
  TokenType :: string
  TTL :: duration
  Renewable :: bool
  Orphan :: "bool option"
  Warnings :: "string list"

record mintAuthResponse =
  ma_ClientToken :: string
  ma_Accessor :: string
  ma_TokenType :: string
  ma_Renewable :: bool
  ma_Orphan :: "bool option"
  ma_LeaseDuration :: int

record mintResponse =
  mr_Warnings :: "string slice"
  mr_Auth :: "mintAuthResponse option"

definition zero_mint_auth :: mintAuthResponse where
  "zero_mint_auth = \<lparr>ma_ClientToken = [], ma_Accessor = [], ma_TokenType = [], ma_Renewable = False,
     ma_Orphan = None, ma_LeaseDuration = 0\<rparr>"

definition zero_mint_response :: mintResponse where
  "zero_mint_response = \<lparr>mr_Warnings = nil_slice, mr_Auth = None\<rparr>"

definition dec_mint_auth :: "mintAuthResponse dec" where
  "dec_mint_auth = dec_struct
     [(''client_token'', dec_field ma_ClientToken (\<lambda>v a. a\<lparr>ma_ClientToken := v\<rparr>) dec_string),
      (''accessor'', dec_field ma_Accessor (\<lambda>v a. a\<lparr>ma_Accessor := v\<rparr>) dec_string),
      (''token_type'', dec_field ma_TokenType (\<lambda>v a. a\<lparr>ma_TokenType := v\<rparr>) dec_string),
      (''renewable'', dec_field ma_Renewable (\<lambda>v a. a\<lparr>ma_Renewable := v\<rparr>) dec_bool),
      (''orphan'', dec_field ma_Orphan (\<lambda>v a. a\<lparr>ma_Orphan := v\<rparr>) (dec_ptr False dec_bool)),
      (''lease_duration'', dec_field ma_LeaseDuration (\<lambda>v a. a\<lparr>ma_LeaseDuration := v\<rparr>) dec_int)]"

definition dec_mint_response :: "mintResponse dec" where
  "dec_mint_response = dec_struct
     [(''warnings'', dec_field mr_Warnings (\<lambda>v r. r\<lparr>mr_Warnings := v\<rparr>) (dec_slice [] dec_string)),
      (''auth'', dec_field mr_Auth (\<lambda>v r. r\<lparr>mr_Auth := v\<rparr>) (dec_ptr zero_mint_auth dec_mint_auth))]"

text \<open>\<open>time.Duration(parsed.Auth.LeaseDuration) * time.Second\<close>, which wraps around.\<close>

definition lease_ttl :: "int \<Rightarrow> duration" where
  "lease_ttl lease = word_of_int lease * second"

text \<open>What \<open>MintToken\<close> makes of the response's body.\<close>

definition mint_of_body :: "json option \<Rightarrow> vx_error + mint" where
  "mint_of_body body =
     (case Option.bind body (\<lambda>j. dec_mint_response j zero_mint_response) of
        None \<Rightarrow> Inl MintDecode
      | Some parsed \<Rightarrow>
          (case mr_Auth parsed of
             None \<Rightarrow> Inl MintNoAuth
           | Some a \<Rightarrow>
               (if ma_ClientToken a = [] then Inl MintNoAuth
                else Inr \<lparr>Token = ma_ClientToken a, Accessor = ma_Accessor a, TokenType = ma_TokenType a,
                          TTL = lease_ttl (ma_LeaseDuration a), Renewable = ma_Renewable a,
                          Orphan = ma_Orphan a, Warnings = elems (mr_Warnings parsed)\<rparr>)))"

text \<open>\<open>MintToken\<close>. (Encoding the request's strings as JSON cannot fail, so the branch for an
  encoding error is not reachable.)\<close>

definition MintToken ::
  "'w lib \<Rightarrow> vx_config \<Rightarrow> ctx \<Rightarrow> string list \<Rightarrow> (string \<times> string) list option \<Rightarrow> string
   \<Rightarrow> ('w client, vx_error + mint) state" where
  "MintToken lib cfg ctx policies meta displayName = do {
     req \<leftarrow> newRequest ''POST'' (''/v1/auth/token/create/'' @ cfg_TokenRole cfg);
     r \<leftarrow> rawRequest lib ctx (req\<lparr>rq_body := MintBody policies meta displayName\<rparr>);
     State_Monad.return (case r of
         RawOK body \<Rightarrow> mint_of_body body
       | RawStatus _ \<Rightarrow> Inl MintFailed
       | RawFail \<Rightarrow> Inl MintFailed)
   }"

definition RevokeSelf :: "'w lib \<Rightarrow> ctx \<Rightarrow> string \<Rightarrow> ('w client, vx_error option) state" where
  "RevokeSelf lib ctx tok = do {
     req \<leftarrow> newRequest ''POST'' ''/v1/auth/token/revoke-self'';
     r \<leftarrow> rawRequest lib ctx (req\<lparr>rq_token := tok\<rparr>);
     State_Monad.return (case r of
         RawOK _ \<Rightarrow> None
       | RawStatus _ \<Rightarrow> Some RevokeSelfFailed
       | RawFail \<Rightarrow> Some RevokeSelfFailed)
   }"

section \<open>Lemmas\<close>

text \<open>The calls the two operations make.\<close>

definition mint_call ::
  "vx_config \<Rightarrow> ctx \<Rightarrow> string \<Rightarrow> string list \<Rightarrow> (string \<times> string) list option \<Rightarrow> string \<Rightarrow> api_call" where
  "mint_call cfg ctx own policies meta displayName =
     Raw \<lparr>rq_method = ''POST'', rq_path = ''/v1/auth/token/create/'' @ cfg_TokenRole cfg, rq_list = False,
          rq_token = own, rq_body = MintBody policies meta displayName, rq_ctx = ctx\<rparr>"

definition revoke_call :: "ctx \<Rightarrow> string \<Rightarrow> api_call" where
  "revoke_call ctx tok =
     Raw \<lparr>rq_method = ''POST'', rq_path = ''/v1/auth/token/revoke-self'', rq_list = False,
          rq_token = tok, rq_body = NoBody, rq_ctx = ctx\<rparr>"

lemma run_MintToken:
  "run_state (MintToken lib cfg ctx policies meta name) c = (res, c') \<Longrightarrow>
     \<exists>w. c' = c\<lparr>world := w, calls := calls c @ [mint_call cfg ctx (api_token c) policies meta name]\<rparr>"
  by (auto simp: MintToken_def run_rawRequest mint_call_def)

lemma run_RevokeSelf:
  "run_state (RevokeSelf lib ctx tok) c = (res, c') \<Longrightarrow>
     \<exists>w. c' = c\<lparr>world := w, calls := calls c @ [revoke_call ctx tok]\<rparr>"
  by (auto simp: RevokeSelf_def run_rawRequest revoke_call_def)

lemma mint_of_body_token: "mint_of_body b = Inr m \<Longrightarrow> Token m \<noteq> []"
  by (auto simp: mint_of_body_def split: option.splits if_splits)

lemma MintToken_token:
  "run_state (MintToken lib cfg ctx policies meta name) c = (Inr m, c') \<Longrightarrow> Token m \<noteq> []"
  by (auto simp: MintToken_def run_rawRequest mint_of_body_token split: raw_reply.splits)

lemma appends_MintToken:
  "(\<And>own. P (mint_call cfg ctx own policies meta name)) \<Longrightarrow>
   state_io_rel (appends P) (MintToken lib cfg ctx policies meta name)"
  by (rule state_io_relI') (simp add: MintToken_def run_rawRequest mint_call_def appends_def session_of_def)

lemma appends_RevokeSelf:
  "P (revoke_call ctx tok) \<Longrightarrow> state_io_rel (appends P) (RevokeSelf lib ctx tok)"
  by (rule state_io_relI') (simp add: RevokeSelf_def run_rawRequest revoke_call_def appends_def session_of_def)

lemma mint_not_revoke [simp]:
  "mint_call cfg ctx own policies meta name \<noteq> revoke_call ctx' tok"
  "get_call ctx tk path l \<noteq> revoke_call ctx' tok"
  by (simp_all add: mint_call_def revoke_call_def)

lemma lease_ttl_eq: "lease_ttl lease = word_of_int (lease * 1000000000)"
  by (simp add: lease_ttl_def second_def)

lemma sint_lease_ttl:
  assumes "\<bar>lease\<bar> \<le> 9223372036"
  shows "sint (lease_ttl lease) = lease * 1000000000"
  unfolding lease_ttl_eq by (rule sint_of_int64) (use assms in auto)

section \<open>Properties\<close>

text \<open>The lifetime of a minted token is its lease duration in nanoseconds exactly when the lease
  is at most 9223372036 seconds (292 years) in absolute value; a longer lease wraps around.\<close>

theorem lease_ttl_exact:
  "sint (lease_ttl lease) = lease * 1000000000 \<longleftrightarrow> \<bar>lease\<bar> \<le> 9223372036"
proof
  assume eq: "sint (lease_ttl lease) = lease * 1000000000"
  have "- (2 ^ 63) \<le> sint (lease_ttl lease)" "sint (lease_ttl lease) < 2 ^ 63"
    using sint_ge [of "lease_ttl lease"] sint_lt [of "lease_ttl lease"] by simp_all
  with eq show "\<bar>lease\<bar> \<le> 9223372036" by auto
qed (rule sint_lease_ttl)

text \<open>A mint is one POST to the create endpoint of the configured role, made as ironbark itself
  with exactly the given policies, metadata and display name; it changes nothing of the
  client's session, and a mint that succeeds yields a non-empty token.\<close>

theorem MintToken_call:
  "let (res, c') = run_state (MintToken lib cfg ctx policies meta name) c in
   calls c' = calls c @ [mint_call cfg ctx (api_token c) policies meta name] \<and>
   session_of c' = session_of c \<and> res \<noteq> Inr (m\<lparr>Token := []\<rparr>)"
proof -
  obtain res c' where run: "run_state (MintToken lib cfg ctx policies meta name) c = (res, c')" by fastforce
  show ?thesis
    using run_MintToken [OF run] run by (auto simp: session_of_def dest: MintToken_token)
qed

end
