(* ===== verification/Sweep.thy ===== *)
theory Sweep
  imports Mint "HOL-Library.Multiset"
begin

text \<open>
  \<open>internal/vaultx/sweep.go\<close>: the reads made as the minted token. Each function of the file is one
  definition; the accumulator, which the code passes as a pointer, is an argument and a result, and a Go map is
  an association list with distinct keys.
\<close>

type_synonym raw_map = "(string \<times> json) list"

record sweptSecret =
  Name :: string
  Value :: string
  Images :: "string list"   \<comment> \<open>nil is []\<close>
  Events :: "string list"

record sweepResult =
  Secrets :: "sweptSecret list"
  LeasesCreated :: bool

record sweepAccumulator =
  seen :: "string set"
  secrets :: "sweptSecret list"
  leasesCreated :: bool

section \<open>Names, fields and pins\<close>

text \<open>\<open>validNameRe\<close>, \<open>^[a-z0-9_]+$\<close>.\<close>

definition valid_name_char :: "char \<Rightarrow> bool" where
  "valid_name_char c \<longleftrightarrow> 97 \<le> byte_val c \<and> byte_val c \<le> 122 \<or> 48 \<le> byte_val c \<and> byte_val c \<le> 57 \<or> c = CHR ''_''"

definition validName :: "string \<Rightarrow> bool" where
  "validName s \<longleftrightarrow> s \<noteq> [] \<and> list_all valid_name_char s"

definition add ::
  "string \<Rightarrow> string \<Rightarrow> string list \<Rightarrow> string list \<Rightarrow> sweepAccumulator \<Rightarrow> sweepAccumulator" where
  "add name v images events sw =
     (if \<not> validName name then sw
      else if name \<in> seen sw then sw
      else sw\<lparr>seen := insert name (seen sw),
              secrets := secrets sw @ [\<lparr>Name = name, Value = v, Images = images, Events = events\<rparr>]\<rparr>)"

definition normalizeName :: "(nat \<Rightarrow> nat) \<Rightarrow> string \<Rightarrow> string" where
  "normalizeName ul s = replace_byte (CHR ''-'') (CHR ''_'') (to_lower ul s)"

text \<open>\<open>stringField\<close>; a nil \<open>RawMessage\<close> is None. (\<open>json.Unmarshal\<close> accepts \<open>null\<close> for a string and leaves it
  empty, so a \<open>null\<close> field is the empty string.)\<close>

definition stringField :: "json option \<Rightarrow> string option" where
  "stringField raw = (case raw of None \<Rightarrow> None | Some j \<Rightarrow> dec_string j [])"

definition splitTrimCommaList :: "string \<Rightarrow> string list" where
  "splitTrimCommaList v = map trim_space (split_on (CHR '','') v)"

definition entryPins :: "(string \<times> string) list \<Rightarrow> string list \<times> string list" where
  "entryPins customMeta =
     (case map_of customMeta ''ironbark_images'' of Some v \<Rightarrow> splitTrimCommaList v | None \<Rightarrow> [],
      case map_of customMeta ''ironbark_events'' of Some v \<Rightarrow> splitTrimCommaList v | None \<Rightarrow> [])"

definition isPointerForm :: "raw_map \<Rightarrow> bool" where
  "isPointerForm d \<longleftrightarrow> size d = 1 \<and> map_of d ''$ref'' \<noteq> None"

definition isShorthandForm :: "raw_map \<Rightarrow> bool" where
  "isShorthandForm d \<longleftrightarrow> size d = 1 \<and> map_of d ''value'' \<noteq> None"

definition sortedFieldNames :: "raw_map \<Rightarrow> string list" where
  "sortedFieldNames d = sort (map fst d)"

text \<open>\<open>isKV2Shaped\<close>: the inner map when both members are objects (or \<open>null\<close>, which \<open>json.Unmarshal\<close> accepts
  for a map).\<close>

definition isKV2Shaped :: "raw_map \<Rightarrow> raw_map option" where
  "isKV2Shaped d =
     (case map_of d ''data'' of
        None \<Rightarrow> None
      | Some rawData \<Rightarrow>
          (case map_of d ''metadata'' of
             None \<Rightarrow> None
           | Some rawMeta \<Rightarrow>
               (case dec_map JNull dec_raw_elem rawData [] of
                  None \<Rightarrow> None
                | Some inner \<Rightarrow>
                    (case dec_map JNull dec_raw_elem rawMeta [] of
                       None \<Rightarrow> None
                     | Some meta \<Rightarrow> Some inner))))"

text \<open>The loop over the fields of an entry in general form, and of a dereferenced one.\<close>

definition add_fields ::
  "(nat \<Rightarrow> nat) \<Rightarrow> string \<Rightarrow> raw_map \<Rightarrow> string list \<Rightarrow> string list \<Rightarrow> sweepAccumulator \<Rightarrow> sweepAccumulator" where
  "add_fields ul key d images events sw =
     fold (\<lambda>f sw.
       case stringField (map_of d f) of
         None \<Rightarrow> sw
       | Some v \<Rightarrow> add (normalizeName ul key @ ''_'' @ normalizeName ul f) v images events sw)
       (sortedFieldNames d) sw"

section \<open>Decoders of the responses\<close>

definition dec_identity :: "json option dec" where
  "dec_identity = dec_struct [(''data'', dec_struct [(''data'', dec_struct [(''forge_remote_id'', dec_raw)])])]"

definition dec_config :: "raw_map dec" where
  "dec_config = dec_struct [(''data'', dec_struct [(''data'', dec_map JNull dec_raw_elem)])]"

definition dec_keys :: "string slice dec" where
  "dec_keys = dec_struct [(''data'', dec_struct [(''keys'', dec_slice [] dec_string)])]"

record entryResponse =
  er_Data :: raw_map
  er_CustomMetadata :: "(string \<times> string) list"

definition dec_entry :: "entryResponse dec" where
  "dec_entry = dec_struct [(''data'', dec_struct
     [(''data'', dec_field er_Data (\<lambda>v r. r\<lparr>er_Data := v\<rparr>) (dec_map JNull dec_raw_elem)),
      (''metadata'', dec_struct
        [(''custom_metadata'',
          dec_field er_CustomMetadata (\<lambda>v r. r\<lparr>er_CustomMetadata := v\<rparr>) (dec_map [] dec_string))])])]"

record derefResponse =
  dr_LeaseID :: string
  dr_Data :: raw_map

definition dec_deref :: "derefResponse dec" where
  "dec_deref = dec_struct
     [(''lease_id'', dec_field dr_LeaseID (\<lambda>v r. r\<lparr>dr_LeaseID := v\<rparr>) dec_string),
      (''data'', dec_field dr_Data (\<lambda>v r. r\<lparr>dr_Data := v\<rparr>) (dec_map JNull dec_raw_elem))]"

text \<open>\<open>resp.DecodeJSON(&parsed)\<close>: None for a body that is not JSON or does not fit.\<close>

definition DecodeJSON :: "'a dec \<Rightarrow> 'a \<Rightarrow> json option \<Rightarrow> 'a option" where
  "DecodeJSON d zero body = Option.bind body (\<lambda>j. d j zero)"

section \<open>Directives\<close>

text \<open>\<open>ReadIdentity\<close>; \<open>Inr None\<close> is the nil pointer.\<close>

definition ReadIdentity ::
  "'w lib \<Rightarrow> vx_config \<Rightarrow> ctx \<Rightarrow> string \<Rightarrow> string \<Rightarrow> ('w client, vx_error + string option) state" where
  "ReadIdentity lib cfg ctx tok base =
     bindE (vaultGet lib ctx tok (cfg_KVMount cfg @ ''/data/'' @ base @ ''/.identity'') False) (\<lambda>resp.
       case resp of
         None \<Rightarrow> okE None
       | Some body \<Rightarrow>
           (case DecodeJSON dec_identity None body of
              None \<Rightarrow> errE (MalformedDirective ''.identity: decode response'')
            | Some raw \<Rightarrow>
                (case stringField raw of
                   None \<Rightarrow> errE (MalformedDirective ''.identity: forge_remote_id missing, non-string, or empty'')
                 | Some ident \<Rightarrow>
                     (if ident = [] then
                        errE (MalformedDirective ''.identity: forge_remote_id missing, non-string, or empty'')
                      else okE (Some ident)))))"

text \<open>The loop of \<open>ReadConfig\<close> over the fields (the result does not depend on Go's map order).\<close>

fun config_fields :: "raw_map \<Rightarrow> vx_error + (string \<times> string) list" where
  "config_fields [] = Inr []"
| "config_fields ((k, raw) # kvs) =
     (case stringField (Some raw) of
        None \<Rightarrow> Inl (MalformedDirective ''.config: key is not a string'')
      | Some v \<Rightarrow> (case config_fields kvs of Inl e \<Rightarrow> Inl e | Inr out \<Rightarrow> Inr ((k, v) # out)))"

text \<open>\<open>ReadConfig\<close>; \<open>Inr None\<close> is the nil map.\<close>

definition ReadConfig ::
  "'w lib \<Rightarrow> vx_config \<Rightarrow> ctx \<Rightarrow> string \<Rightarrow> string
   \<Rightarrow> ('w client, vx_error + (string \<times> string) list option) state" where
  "ReadConfig lib cfg ctx tok base =
     bindE (vaultGet lib ctx tok (cfg_KVMount cfg @ ''/data/'' @ base @ ''/.config'') False) (\<lambda>resp.
       case resp of
         None \<Rightarrow> okE None
       | Some body \<Rightarrow>
           (case DecodeJSON dec_config [] body of
              None \<Rightarrow> errE (MalformedDirective ''.config: decode response'')
            | Some d \<Rightarrow> (case config_fields d of Inl e \<Rightarrow> errE e | Inr out \<Rightarrow> okE (Some out))))"

section \<open>The sweep\<close>

definition Base :: "vx_config \<Rightarrow> identity \<Rightarrow> string" where
  "Base cfg ident = cfg_KVPrefix cfg @ ''/'' @ Org ident @ ''/'' @ Repo ident"

definition listTierKeys ::
  "'w lib \<Rightarrow> vx_config \<Rightarrow> ctx \<Rightarrow> string \<Rightarrow> string \<Rightarrow> ('w client, vx_error + string list) state" where
  "listTierKeys lib cfg ctx tok tierPath = (
     let path = cfg_KVMount cfg @ ''/metadata/'' @ tierPath in
     bindE (vaultGet lib ctx tok path True) (\<lambda>resp.
       case resp of
         None \<Rightarrow> okE []
       | Some body \<Rightarrow>
           (case DecodeJSON dec_keys nil_slice body of
              None \<Rightarrow> errE (ListDecode path)
            | Some ks \<Rightarrow> okE (filter (\<lambda>k. \<not> (has_suffix k ''/'' \<or> has_prefix k ''.'')) (elems ks)))))"

definition sweepDeref ::
  "'w lib \<Rightarrow> ctx \<Rightarrow> string \<Rightarrow> string \<Rightarrow> string \<Rightarrow> string list \<Rightarrow> string list \<Rightarrow> sweepAccumulator
   \<Rightarrow> ('w client, vx_error + sweepAccumulator) state" where
  "sweepDeref lib ctx tok key refPath images events sw = do {
     r \<leftarrow> vaultGet lib ctx tok refPath False;
     case r of
       Inl e \<Rightarrow> errE (DerefFailed refPath e)
     | Inr None \<Rightarrow> okE sw
     | Inr (Some body) \<Rightarrow> do {
         count_metric IncDerefRead;
         case DecodeJSON dec_deref \<lparr>dr_LeaseID = [], dr_Data = []\<rparr> body of
           None \<Rightarrow> errE (DerefDecode refPath)
         | Some parsed \<Rightarrow>
             let sw = (if dr_LeaseID parsed \<noteq> [] then sw\<lparr>leasesCreated := True\<rparr> else sw) in
             (case isKV2Shaped (dr_Data parsed) of
                Some inner \<Rightarrow>
                  (case stringField (map_of inner ''value'') of
                     Some v \<Rightarrow> okE (add (normalizeName (lib_lower lib) key) v images events sw)
                   | None \<Rightarrow> okE (add_fields (lib_lower lib) key inner images events sw))
              | None \<Rightarrow> okE (add_fields (lib_lower lib) key (dr_Data parsed) images events sw))
       }
   }"

definition sweepEntry ::
  "'w lib \<Rightarrow> vx_config \<Rightarrow> ctx \<Rightarrow> string \<Rightarrow> string \<Rightarrow> string \<Rightarrow> sweepAccumulator
   \<Rightarrow> ('w client, vx_error + sweepAccumulator) state" where
  "sweepEntry lib cfg ctx tok tierPath key sw = (
     let dataPath = cfg_KVMount cfg @ ''/data/'' @ tierPath @ ''/'' @ key in
     bindE (vaultGet lib ctx tok dataPath False) (\<lambda>resp.
       case resp of
         None \<Rightarrow> okE sw
       | Some body \<Rightarrow> do {
           count_metric IncSweepRead;
           case DecodeJSON dec_entry \<lparr>er_Data = [], er_CustomMetadata = []\<rparr> body of
             None \<Rightarrow> errE (EntryDecode dataPath)
           | Some parsed \<Rightarrow>
               let (images, events) = entryPins (er_CustomMetadata parsed); d = er_Data parsed in
               if isPointerForm d then
                 (case stringField (map_of d ''$ref'') of
                    None \<Rightarrow> okE sw
                  | Some refPath \<Rightarrow> sweepDeref lib ctx tok key refPath images events sw)
               else if isShorthandForm d then
                 (case stringField (map_of d ''value'') of
                    None \<Rightarrow> okE sw
                  | Some v \<Rightarrow> okE (add (normalizeName (lib_lower lib) key) v images events sw))
               else okE (add_fields (lib_lower lib) key d images events sw)
         }))"

definition sweepTier ::
  "'w lib \<Rightarrow> vx_config \<Rightarrow> ctx \<Rightarrow> string \<Rightarrow> string \<Rightarrow> sweepAccumulator
   \<Rightarrow> ('w client, vx_error + sweepAccumulator) state" where
  "sweepTier lib cfg ctx tok tierPath sw =
     bindE (listTierKeys lib cfg ctx tok tierPath)
       (\<lambda>ks. foldE (sweepEntry lib cfg ctx tok tierPath) (sort ks) sw)"

text \<open>The tiers of \<open>Sweep\<close>, most specific first.\<close>

definition sweep_tiers :: "vx_config \<Rightarrow> identity \<Rightarrow> bool \<Rightarrow> string list" where
  "sweep_tiers cfg ident branchful = (
     let base = Base cfg ident in
     (if branchful \<and> Branch ident \<noteq> [] then [base @ ''/'' @ Event ident @ ''/'' @ Esc (Branch ident)] else [])
     @ [base @ ''/'' @ Event ident, base])"

definition empty_acc :: sweepAccumulator where
  "empty_acc = \<lparr>seen = {}, secrets = [], leasesCreated = False\<rparr>"

definition Sweep ::
  "'w lib \<Rightarrow> vx_config \<Rightarrow> ctx \<Rightarrow> string \<Rightarrow> identity \<Rightarrow> bool \<Rightarrow> ('w client, vx_error + sweepResult) state" where
  "Sweep lib cfg ctx tok ident branchful =
     bindE (foldE (sweepTier lib cfg ctx tok) (sweep_tiers cfg ident branchful) empty_acc)
       (\<lambda>sw. okE \<lparr>Secrets = secrets sw, LeasesCreated = leasesCreated sw\<rparr>)"

section \<open>Validity of the names\<close>

definition acc_ok :: "sweepAccumulator \<Rightarrow> bool" where
  "acc_ok sw \<longleftrightarrow> seen sw = Name ` set (secrets sw) \<and> distinct (map Name (secrets sw)) \<and>
     (\<forall>s \<in> set (secrets sw). validName (Name s))"

lemma acc_ok_empty [simp]: "acc_ok empty_acc"
  by (simp add: acc_ok_def empty_acc_def)

lemma acc_ok_add [simp]: "acc_ok sw \<Longrightarrow> acc_ok (add name v images events sw)"
  by (auto simp: acc_ok_def add_def)

lemma acc_ok_leases [simp]: "acc_ok (sw\<lparr>leasesCreated := b\<rparr>) = acc_ok sw"
  by (simp add: acc_ok_def)

lemma acc_ok_add_fields [simp]: "acc_ok sw \<Longrightarrow> acc_ok (add_fields ul key d images events sw)"
proof -
  have "acc_ok (fold (\<lambda>f sw. case stringField (map_of d f) of None \<Rightarrow> sw
      | Some v \<Rightarrow> add (g f) v images events sw) fs sw)" if "acc_ok sw" for fs sw g
    using that by (induction fs arbitrary: sw) (auto split: option.split)
  then show "acc_ok sw \<Longrightarrow> ?thesis" by (simp add: add_fields_def)
qed

lemma acc_ok_sweepEntry: "acc_ok sw \<Longrightarrow> yields acc_ok (sweepEntry lib cfg ctx tok tier key sw)"
  by (auto simp: sweepEntry_def sweepDeref_def Let_def split_beta split: sum.split option.split
      intro!: yields_intros)

lemma acc_ok_sweepTier: "acc_ok sw \<Longrightarrow> yields acc_ok (sweepTier lib cfg ctx tok tier sw)"
  unfolding sweepTier_def by (intro yields_intros acc_ok_sweepEntry)

section \<open>Errors\<close>

lemma fails_vaultGet: "(\<And>p. P (GetFailed p)) \<Longrightarrow> fails_with P (vaultGet lib ctx tok path l)"
  by (auto simp: fails_with_def run_vaultGet classify_get_def Let_def split_beta
      split: raw_reply.splits if_splits)

lemma vaultGet_not_malformed: "run_state (vaultGet lib ctx tok path l) c = (Inl e, c') \<Longrightarrow> \<not> is_malformed e"
  using fails_vaultGet [of "\<lambda>e. \<not> is_malformed e" lib ctx tok path l]
  by (simp add: fails_with_def) blast

lemma fails_sweepDeref: "fails_with (\<lambda>e. \<not> is_malformed e) (sweepDeref lib ctx tok key ref im ev sw)"
  by (auto simp: fails_with_def sweepDeref_def Let_def split: prod.splits sum.splits option.splits
      dest: vaultGet_not_malformed)

lemma fails_Sweep: "fails_with (\<lambda>e. \<not> is_malformed e) (Sweep lib cfg ctx tok ident b)"
  unfolding Sweep_def sweepTier_def listTierKeys_def sweepEntry_def Let_def
  by (intro fails_intros fails_vaultGet)
     (auto simp: Let_def split_beta split: option.split intro!: fails_intros fails_sweepDeref)

section \<open>The abstract sweep\<close>

text \<open>
  What a sweep returns when the server answers every read by its request alone (nobody
  writes during the sweep). The specification computes, without accumulator and without calls, what every
  entry offers, and serves for every valid name the first offer.
\<close>

definition static :: "'w lib \<Rightarrow> (raw_request \<Rightarrow> raw_reply) \<Rightarrow> bool" where
  "static lib srv \<longleftrightarrow> (\<forall>rq w. fst (lib_raw lib rq w) = srv rq)"

definition answer ::
  "(raw_request \<Rightarrow> raw_reply) \<Rightarrow> ctx \<Rightarrow> string \<Rightarrow> string \<Rightarrow> bool \<Rightarrow> vx_error + json option option" where
  "answer srv ctx tok path list = classify_get path
     (srv \<lparr>rq_method = ''GET'', rq_path = ''/v1/'' @ path, rq_list = list, rq_token = tok,
           rq_body = NoBody, rq_ctx = ctx\<rparr>)"

lemma static_vaultGet:
  "static lib srv \<Longrightarrow> fst (run_state (vaultGet lib ctx tok path list) c) = answer srv ctx tok path list"
  by (simp add: run_vaultGet static_def answer_def Let_def split_beta)

text \<open>The secrets a list of fields offers, and what an entry asks for: to offer secrets, or to read
  another path once.\<close>

definition field_offers ::
  "(nat \<Rightarrow> nat) \<Rightarrow> string \<Rightarrow> raw_map \<Rightarrow> string list \<Rightarrow> string list \<Rightarrow> sweptSecret list" where
  "field_offers ul key d images events =
     List.map_filter (\<lambda>f. map_option
       (\<lambda>v. \<lparr>Name = normalizeName ul key @ ''_'' @ normalizeName ul f, Value = v, Images = images, Events = events\<rparr>)
       (stringField (map_of d f))) (sortedFieldNames d)"

datatype entry_kind = Offers "sweptSecret list" | Reference string

definition entry_kind :: "(nat \<Rightarrow> nat) \<Rightarrow> string \<Rightarrow> entryResponse \<Rightarrow> entry_kind" where
  "entry_kind ul key parsed =
     (let (images, events) = entryPins (er_CustomMetadata parsed); d = er_Data parsed in
      if map fst d = [''$ref''] then
        (case stringField (map_of d ''$ref'') of None \<Rightarrow> Offers [] | Some p \<Rightarrow> Reference p)
      else if map fst d = [''value''] then
        (case stringField (map_of d ''value'') of
           None \<Rightarrow> Offers []
         | Some v \<Rightarrow> Offers [\<lparr>Name = normalizeName ul key, Value = v, Images = images, Events = events\<rparr>])
      else Offers (field_offers ul key d images events))"

text \<open>What a dereferenced body offers, under the pins of the entry that names it.\<close>

definition deref_offers ::
  "(nat \<Rightarrow> nat) \<Rightarrow> string \<Rightarrow> (string \<times> string) list \<Rightarrow> raw_map \<Rightarrow> sweptSecret list" where
  "deref_offers ul key customMeta d =
     (let (images, events) = entryPins customMeta in
      case isKV2Shaped d of
        None \<Rightarrow> field_offers ul key d images events
      | Some inner \<Rightarrow>
          (case stringField (map_of inner ''value'') of
             Some v \<Rightarrow> [\<lparr>Name = normalizeName ul key, Value = v, Images = images, Events = events\<rparr>]
           | None \<Rightarrow> field_offers ul key inner images events))"

type_synonym offers = "sweptSecret list \<times> bool"   \<comment> \<open>with: was a lease created\<close>

definition spec_deref ::
  "(raw_request \<Rightarrow> raw_reply) \<Rightarrow> (nat \<Rightarrow> nat) \<Rightarrow> ctx \<Rightarrow> string \<Rightarrow> string \<Rightarrow> (string \<times> string) list \<Rightarrow> string
   \<Rightarrow> vx_error + offers" where
  "spec_deref srv ul ctx tok key customMeta refPath =
     (case answer srv ctx tok refPath False of
        Inl e \<Rightarrow> Inl (DerefFailed refPath e)
      | Inr None \<Rightarrow> Inr ([], False)
      | Inr (Some body) \<Rightarrow>
          (case DecodeJSON dec_deref \<lparr>dr_LeaseID = [], dr_Data = []\<rparr> body of
             None \<Rightarrow> Inl (DerefDecode refPath)
           | Some parsed \<Rightarrow> Inr (deref_offers ul key customMeta (dr_Data parsed), dr_LeaseID parsed \<noteq> [])))"

definition spec_entry ::
  "(raw_request \<Rightarrow> raw_reply) \<Rightarrow> (nat \<Rightarrow> nat) \<Rightarrow> vx_config \<Rightarrow> ctx \<Rightarrow> string \<Rightarrow> string \<Rightarrow> string
   \<Rightarrow> vx_error + offers" where
  "spec_entry srv ul cfg ctx tok tier key = (
     let path = cfg_KVMount cfg @ ''/data/'' @ tier @ ''/'' @ key in
     case answer srv ctx tok path False of
       Inl e \<Rightarrow> Inl e
     | Inr None \<Rightarrow> Inr ([], False)
     | Inr (Some body) \<Rightarrow>
         (case DecodeJSON dec_entry \<lparr>er_Data = [], er_CustomMetadata = []\<rparr> body of
            None \<Rightarrow> Inl (EntryDecode path)
          | Some parsed \<Rightarrow>
              (case entry_kind ul key parsed of
                 Offers ss \<Rightarrow> Inr (ss, False)
               | Reference p \<Rightarrow> spec_deref srv ul ctx tok key (er_CustomMetadata parsed) p)))"

definition plain_key :: "string \<Rightarrow> bool" where
  "plain_key k \<longleftrightarrow> \<not> has_suffix k ''/'' \<and> \<not> has_prefix k ''.''"

definition spec_keys ::
  "(raw_request \<Rightarrow> raw_reply) \<Rightarrow> vx_config \<Rightarrow> ctx \<Rightarrow> string \<Rightarrow> string \<Rightarrow> vx_error + string list" where
  "spec_keys srv cfg ctx tok tier = (
     let path = cfg_KVMount cfg @ ''/metadata/'' @ tier in
     case answer srv ctx tok path True of
       Inl e \<Rightarrow> Inl e
     | Inr None \<Rightarrow> Inr []
     | Inr (Some body) \<Rightarrow>
         (case DecodeJSON dec_keys nil_slice body of
            None \<Rightarrow> Inl (ListDecode path)
          | Some ks \<Rightarrow> Inr (filter plain_key (sort (elems ks)))))"

definition merge_offers :: "offers list \<Rightarrow> offers" where
  "merge_offers os = (concat (map fst os), list_ex snd os)"

definition spec_tier ::
  "(raw_request \<Rightarrow> raw_reply) \<Rightarrow> (nat \<Rightarrow> nat) \<Rightarrow> vx_config \<Rightarrow> ctx \<Rightarrow> string \<Rightarrow> string \<Rightarrow> vx_error + offers" where
  "spec_tier srv ul cfg ctx tok tier =
     (case spec_keys srv cfg ctx tok tier of
        Inl e \<Rightarrow> Inl e
      | Inr ks \<Rightarrow> map_sum id merge_offers (mapE (spec_entry srv ul cfg ctx tok tier) ks))"

fun first_by_name :: "sweptSecret list \<Rightarrow> sweptSecret list" where
  "first_by_name [] = []"
| "first_by_name (s # ss) = s # filter (\<lambda>t. Name t \<noteq> Name s) (first_by_name ss)"

definition spec_sweep ::
  "(raw_request \<Rightarrow> raw_reply) \<Rightarrow> (nat \<Rightarrow> nat) \<Rightarrow> vx_config \<Rightarrow> ctx \<Rightarrow> string \<Rightarrow> identity \<Rightarrow> bool
   \<Rightarrow> vx_error + sweepResult" where
  "spec_sweep srv ul cfg ctx tok ident branchful =
     map_sum id (\<lambda>os. let (ss, leases) = merge_offers os in
         \<lparr>Secrets = first_by_name (filter (\<lambda>s. validName (Name s)) ss), LeasesCreated = leases\<rparr>)
       (mapE (spec_tier srv ul cfg ctx tok) (sweep_tiers cfg ident branchful))"

section \<open>The sweep implements it\<close>

definition accept :: "offers \<Rightarrow> sweepAccumulator \<Rightarrow> sweepAccumulator" where
  "accept os sw = fold (\<lambda>s. add (Name s) (Value s) (Images s) (Events s)) (fst os)
     (sw\<lparr>leasesCreated := leasesCreated sw \<or> snd os\<rparr>)"

lemma add_leases [simp]:
  "add n v im ev (sw\<lparr>leasesCreated := b\<rparr>) = (add n v im ev sw)\<lparr>leasesCreated := b\<rparr>"
  "leasesCreated (add n v im ev sw) = leasesCreated sw"
  by (simp_all add: add_def)

lemma add_fold_leases:
  "fold (\<lambda>s. add (Name s) (Value s) (Images s) (Events s)) ss (sw\<lparr>leasesCreated := b\<rparr>) =
     (fold (\<lambda>s. add (Name s) (Value s) (Images s) (Events s)) ss sw)\<lparr>leasesCreated := b\<rparr>"
  "leasesCreated (fold (\<lambda>s. add (Name s) (Value s) (Images s) (Events s)) ss sw) = leasesCreated sw"
  by (induction ss arbitrary: sw) simp_all

lemma accept_merge: "fold accept os sw = accept (merge_offers os) sw"
proof (induction os arbitrary: sw)
  case Nil
  then show ?case by (simp add: accept_def merge_offers_def)
next
  case (Cons x os)
  then show ?case by (simp add: accept_def merge_offers_def add_fold_leases disj_assoc)
qed

lemma add_fields_accept: "add_fields ul key d images events sw = accept (field_offers ul key d images events, False) sw"
proof -
  have "fold (\<lambda>f sw. case stringField (map_of d f) of None \<Rightarrow> sw
            | Some v \<Rightarrow> add (normalizeName ul key @ ''_'' @ normalizeName ul f) v images events sw) fs sw =
        fold (\<lambda>s. add (Name s) (Value s) (Images s) (Events s)) (List.map_filter (\<lambda>f. map_option
       (\<lambda>v. \<lparr>Name = normalizeName ul key @ ''_'' @ normalizeName ul f, Value = v, Images = images, Events = events\<rparr>)
       (stringField (map_of d f))) fs) sw" for fs
    by (induction fs arbitrary: sw) (auto simp: List.map_filter_simps split: option.split)
  then show ?thesis by (simp add: add_fields_def field_offers_def accept_def)
qed

lemma singleton_form: "(size d = 1 \<and> map_of d k \<noteq> None) \<longleftrightarrow> map fst d = [k]"
  by (cases d rule: list.exhaust; cases "tl d"; auto split: if_splits)

lemma isPointerForm_iff: "isPointerForm d \<longleftrightarrow> map fst d = [''$ref'']"
  unfolding isPointerForm_def by (rule singleton_form)

lemma isShorthandForm_iff: "isShorthandForm d \<longleftrightarrow> map fst d = [''value'']"
  unfolding isShorthandForm_def by (rule singleton_form)

lemma accept_empty [simp]: "accept ([], False) sw = sw"
  by (simp add: accept_def)

lemma accept_single [simp]:
  "accept ([s], False) sw = add (Name s) (Value s) (Images s) (Events s) sw"
  by (simp add: accept_def)

lemma accept_leases: "accept (ss, b) sw = accept (ss, False) (if b then sw\<lparr>leasesCreated := True\<rparr> else sw)"
  by (simp add: accept_def)

lemma run_count_metric [simp]: "run_state (count_metric m) c =
    ((), if metrics_set c then c\<lparr>metric_calls := metric_calls c @ [m]\<rparr> else c)"
  by (simp add: count_metric_def)

lemma sweepDeref_spec:
  assumes "static lib srv" and "entryPins customMeta = (images, events)"
  shows "fst (run_state (sweepDeref lib ctx tok key refPath images events sw) c) =
     (case spec_deref srv (lib_lower lib) ctx tok key customMeta refPath of
        Inl e \<Rightarrow> Inl e | Inr os \<Rightarrow> Inr (accept os sw))"
proof -
  have [simp]: "fst (run_state (vaultGet lib ctx tok refPath False) c) = answer srv ctx tok refPath False"
    by (rule static_vaultGet [OF assms(1)])
  show ?thesis
    by (simp add: sweepDeref_def spec_deref_def split_beta deref_offers_def assms(2) Let_def
          add_fields_accept accept_leases [of _ "_ \<noteq> _"] split: sum.split option.split)
qed

lemma sweepEntry_spec:
  assumes "static lib srv"
  shows "fst (run_state (sweepEntry lib cfg ctx tok tier key sw) c) =
     (case spec_entry srv (lib_lower lib) cfg ctx tok tier key of
        Inl e \<Rightarrow> Inl e | Inr os \<Rightarrow> Inr (accept os sw))"
proof -
  define path where "path = cfg_KVMount cfg @ ''/data/'' @ tier @ ''/'' @ key"
  have [simp]: "fst (run_state (vaultGet lib ctx tok path False) c) = answer srv ctx tok path False"
    by (rule static_vaultGet [OF assms])
  have run: "fst (run_state (sweepEntry lib cfg ctx tok tier key sw) c) =
     (case answer srv ctx tok path False of
        Inl e \<Rightarrow> Inl e
      | Inr None \<Rightarrow> Inr sw
      | Inr (Some body) \<Rightarrow>
          (case DecodeJSON dec_entry \<lparr>er_Data = [], er_CustomMetadata = []\<rparr> body of
             None \<Rightarrow> Inl (EntryDecode path)
           | Some parsed \<Rightarrow>
              (case spec_body parsed of Inl e \<Rightarrow> Inl e | Inr os \<Rightarrow> Inr (accept os sw))))"
    if "spec_body = (\<lambda>parsed. case entry_kind (lib_lower lib) key parsed of
         Offers ss \<Rightarrow> Inr (ss, False)
       | Reference p \<Rightarrow> spec_deref srv (lib_lower lib) ctx tok key (er_CustomMetadata parsed) p)" for spec_body
    unfolding sweepEntry_def Let_def path_def [symmetric]
    by (simp add: split_beta that entry_kind_def Let_def
          isPointerForm_iff isShorthandForm_iff add_fields_accept
          sweepDeref_spec [OF assms prod.collapse [symmetric]]
        split: option.split sum.split)
  show ?thesis
    unfolding run [OF refl] spec_entry_def Let_def path_def [symmetric]
    by (simp split: option.split sum.split)
qed

lemma listTierKeys_spec:
  assumes "static lib srv"
  shows "map_sum id sort (fst (run_state (listTierKeys lib cfg ctx tok tier) c)) = spec_keys srv cfg ctx tok tier"
proof -
  define path where "path = cfg_KVMount cfg @ ''/metadata/'' @ tier"
  have [simp]: "fst (run_state (vaultGet lib ctx tok path True) c) = answer srv ctx tok path True"
    by (rule static_vaultGet [OF assms])
  show ?thesis
    unfolding listTierKeys_def spec_keys_def Let_def path_def [symmetric]
    by (simp add: split_beta plain_key_def [abs_def] filter_sort split: sum.split option.split)
qed

lemma sweepTier_spec:
  assumes "static lib srv"
  shows "fst (run_state (sweepTier lib cfg ctx tok tier sw) c) =
     (case spec_tier srv (lib_lower lib) cfg ctx tok tier of
        Inl e \<Rightarrow> Inl e | Inr os \<Rightarrow> Inr (accept os sw))"
proof -
  have entries: "fst (run_state (foldE (sweepEntry lib cfg ctx tok tier) ks sw) d) =
     (case map_sum id merge_offers (mapE (spec_entry srv (lib_lower lib) cfg ctx tok tier) ks) of
        Inl e \<Rightarrow> Inl e | Inr os \<Rightarrow> Inr (accept os sw))" for ks d
    by (subst foldE_spec [OF sweepEntry_spec [OF assms]]) (auto simp: accept_merge split: sum.split)
  obtain r d where run: "run_state (listTierKeys lib cfg ctx tok tier) c = (r, d)" by fastforce
  have "spec_keys srv cfg ctx tok tier = map_sum id sort r"
    using listTierKeys_spec [OF assms, of cfg ctx tok tier c] run by simp
  then show ?thesis by (cases r) (auto simp: sweepTier_def spec_tier_def run entries)
qed

lemma fold_add:
  assumes "seen sw = Name ` set (secrets sw)"
  shows "secrets (fold (\<lambda>s. add (Name s) (Value s) (Images s) (Events s)) ss sw) =
    secrets sw @ first_by_name (filter (\<lambda>s. validName (Name s) \<and> Name s \<notin> seen sw) ss)"
  using assms
proof (induction ss arbitrary: sw)
  case Nil
  then show ?case by simp
next
  case (Cons s ss)
  have del: "first_by_name (filter (\<lambda>t. Name t \<noteq> n) xs) = filter (\<lambda>t. Name t \<noteq> n) (first_by_name xs)" for n xs
    by (induction xs) (auto simp: conj_commute)
  have both: "filter (\<lambda>t. validName (Name t) \<and> Name t \<noteq> n \<and> Name t \<notin> A) xs =
      filter (\<lambda>t. Name t \<noteq> n) (filter (\<lambda>t. validName (Name t) \<and> Name t \<notin> A) xs)" for n A xs
    by (auto intro: filter_cong)
  show ?case
  proof (cases "validName (Name s) \<and> Name s \<notin> seen sw")
    case True
    then have "add (Name s) (Value s) (Images s) (Events s) sw =
        sw\<lparr>seen := insert (Name s) (seen sw), secrets := secrets sw @ [s]\<rparr>"
      by (simp add: add_def)
    with True show ?thesis using Cons.prems by (simp add: Cons.IH both del del: filter_filter)
  next
    case False
    then have "add (Name s) (Value s) (Images s) (Events s) sw = sw" by (auto simp: add_def)
    with False show ?thesis using Cons by auto
  qed
qed

lemma Sweep_spec:
  assumes "static lib srv"
  shows "fst (run_state (Sweep lib cfg ctx tok ident branchful) c) =
     spec_sweep srv (lib_lower lib) cfg ctx tok ident branchful"
proof -
  have "secrets (accept os empty_acc) = first_by_name (filter (\<lambda>s. validName (Name s)) (fst os))"
    and "leasesCreated (accept os empty_acc) = snd os" for os
    using fold_add [of "\<lparr>seen = {}, secrets = [], leasesCreated = snd os\<rparr>"]
    by (simp_all add: accept_def empty_acc_def add_fold_leases)
  moreover have "fst (run_state (foldE (sweepTier lib cfg ctx tok) ts sw) c) =
     (case mapE (spec_tier srv (lib_lower lib) cfg ctx tok) ts of
        Inl e \<Rightarrow> Inl e | Inr os \<Rightarrow> Inr (accept (merge_offers os) sw))" for ts sw
    by (subst foldE_spec [OF sweepTier_spec [OF assms]]) (auto simp: accept_merge split: sum.split)
  ultimately show ?thesis
    by (auto simp: Sweep_def spec_sweep_def split_beta Let_def split: sum.split)
qed

section \<open>Calls\<close>

text \<open>The outside state after some calls, and the reference that the body of an entry holds: an entry
  whose only field is \<open>$ref\<close>.\<close>

fun world_after :: "'w lib \<Rightarrow> api_call list \<Rightarrow> 'w \<Rightarrow> 'w" where
  "world_after lib [] w = w"
| "world_after lib (Raw rq # xs) w = world_after lib xs (snd (lib_raw lib rq w))"
| "world_after lib (x # xs) w = world_after lib xs w"

definition entry_ref :: "json option \<Rightarrow> string option" where
  "entry_ref body =
     (case DecodeJSON dec_entry \<lparr>er_Data = [], er_CustomMetadata = []\<rparr> body of
        None \<Rightarrow> None
      | Some parsed \<Rightarrow>
          (if map fst (er_Data parsed) = [''$ref''] then stringField (map_of (er_Data parsed) ''$ref'') else None))"

text \<open>
  \<open>group_step lib P\<close>: some calls in a row that satisfy \<open>P\<close> in the outside state in which the first is made, with
  the session and the log as before; \<open>grouped\<close>: any number of such groups.
\<close>

definition group_step :: "'w lib \<Rightarrow> ('w \<Rightarrow> api_call list \<Rightarrow> bool) \<Rightarrow> 'w client \<Rightarrow> 'w client \<Rightarrow> bool" where
  "group_step lib P c d \<longleftrightarrow> session_of d = session_of c \<and> log_lines d = log_lines c \<and>
     (\<exists>g. P (world c) g \<and> calls d = calls c @ g \<and> world d = world_after lib g (world c))"

definition grouped :: "'w lib \<Rightarrow> ('w \<Rightarrow> api_call list \<Rightarrow> bool) \<Rightarrow> 'w client \<Rightarrow> 'w client \<Rightarrow> bool" where
  "grouped lib P = (group_step lib P)\<^sup>*\<^sup>*"

interpretation grouped: io_order "grouped lib P" for lib P
  by unfold_locales (auto simp: grouped_def)

lemma grouped_one: "group_step lib P c d \<Longrightarrow> grouped lib P c d"
  by (simp add: grouped_def)

lemma grouped_mono: "grouped lib P c d \<Longrightarrow> (\<And>w g. P w g \<Longrightarrow> Q w g) \<Longrightarrow> grouped lib Q c d"
  unfolding grouped_def group_step_def by (erule rtranclp_mono [THEN predicate2D, rotated]) blast

text \<open>The groups of a sweep: the LIST of a tier; the read of one of its plain keys; such a read that is answered with an
  entry that holds a reference, followed by the read of that reference.\<close>

definition sweep_group :: "'w lib \<Rightarrow> vx_config \<Rightarrow> ctx \<Rightarrow> string \<Rightarrow> string list \<Rightarrow> 'w \<Rightarrow> api_call list \<Rightarrow> bool" where
  "sweep_group lib cfg ctx tok tiers w g \<longleftrightarrow> (\<exists>t \<in> set tiers.
     g = [get_call ctx tok (cfg_KVMount cfg @ ''/metadata/'' @ t) True] \<or>
     (\<exists>k. plain_key k \<and>
        (let path = cfg_KVMount cfg @ ''/data/'' @ t @ ''/'' @ k in
         g = [get_call ctx tok path False] \<or>
         (\<exists>body ref. fst (lib_raw lib (get_request ctx tok path) w) = RawOK body \<and> entry_ref body = Some ref \<and>
            g = [get_call ctx tok path False, get_call ctx tok ref False]))))"

lemma run_sweepDeref:
  assumes "run_state (sweepDeref lib ctx tok key ref im ev sw) c = (r, c')"
  shows "session_of c' = session_of c \<and> log_lines c' = log_lines c \<and> calls c' = calls c @ [get_call ctx tok ref False] \<and>
     world c' = snd (lib_raw lib (get_request ctx tok ref) (world c))"
  using assms
  by (auto simp: sweepDeref_def run_vaultGet split_beta Let_def session_of_def
      split: sum.splits option.splits if_splits)

text \<open>An entry is read once, and then one other path only if its body is a pointer to that path.\<close>

lemma run_sweepEntry:
  fixes cfg tier key ctx tok
  defines "data \<equiv> get_call ctx tok (cfg_KVMount cfg @ ''/data/'' @ tier @ ''/'' @ key) False"
  assumes run: "run_state (sweepEntry lib cfg ctx tok tier key sw) c = (r, c')"
  shows "session_of c' = session_of c \<and> log_lines c' = log_lines c \<and>
     (calls c' = calls c @ [data] \<and> world c' = world_after lib [data] (world c) \<or>
      (\<exists>rq body parsed ref. data = Raw rq \<and> fst (lib_raw lib rq (world c)) = RawOK body \<and>
         DecodeJSON dec_entry \<lparr>er_Data = [], er_CustomMetadata = []\<rparr> body = Some parsed \<and>
         map fst (er_Data parsed) = [''$ref''] \<and> stringField (map_of (er_Data parsed) ''$ref'') = Some ref \<and>
         calls c' = calls c @ [data, get_call ctx tok ref False] \<and>
         world c' = world_after lib [data, get_call ctx tok ref False] (world c)))"
proof -
  define path where "path = cfg_KVMount cfg @ ''/data/'' @ tier @ ''/'' @ key"
  obtain res d where get: "run_state (vaultGet lib ctx tok path False) c = (res, d)" by fastforce
  have d: "session_of d = session_of c" "log_lines d = log_lines c" "calls d = calls c @ [get_call ctx tok path False]"
    "world d = snd (lib_raw lib (get_request ctx tok path) (world c))"
    using get by (auto simp: run_vaultGet Let_def split_beta session_of_def)
  have res: "res = classify_get path (fst (lib_raw lib \<lparr>rq_method = ''GET'', rq_path = ''/v1/'' @ path, rq_list = False,
      rq_token = tok, rq_body = NoBody, rq_ctx = ctx\<rparr> (world c)))"
    using get by (auto simp: run_vaultGet Let_def split_beta)
  have ok: "res = Inr (Some body) \<Longrightarrow> fst (lib_raw lib \<lparr>rq_method = ''GET'', rq_path = ''/v1/'' @ path, rq_list = False,
      rq_token = tok, rq_body = NoBody, rq_ctx = ctx\<rparr> (world c)) = RawOK body" for body
    by (auto simp: res classify_get_def split: raw_reply.splits if_splits)
  define e where "e = (if metrics_set d then d\<lparr>metric_calls := metric_calls d @ [IncSweepRead]\<rparr> else d)"
  have e: "session_of e = session_of c" "log_lines e = log_lines c" "calls e = calls c @ [get_call ctx tok path False]"
    "world e = snd (lib_raw lib (get_request ctx tok path) (world c))"
    using d by (auto simp: e_def session_of_def)
  show ?thesis
  proof (cases "\<exists>body parsed ref. res = Inr (Some body) \<and>
      DecodeJSON dec_entry \<lparr>er_Data = [], er_CustomMetadata = []\<rparr> body = Some parsed \<and>
      map fst (er_Data parsed) = [''$ref''] \<and> stringField (map_of (er_Data parsed) ''$ref'') = Some ref")
    case True
    then obtain body parsed ref where b: "res = Inr (Some body)"
      "DecodeJSON dec_entry \<lparr>er_Data = [], er_CustomMetadata = []\<rparr> body = Some parsed"
      "map fst (er_Data parsed) = [''$ref'']" "stringField (map_of (er_Data parsed) ''$ref'') = Some ref"
      by (elim exE conjE)
    obtain im ev where "entryPins (er_CustomMetadata parsed) = (im, ev)" by fastforce
    then have "run_state (sweepDeref lib ctx tok key ref im ev sw) e = (r, c')"
      using run unfolding sweepEntry_def Let_def path_def [symmetric]
      by (simp add: get b(1,2,4) b(3) [folded isPointerForm_iff] e_def split: if_splits)
    from run_sweepDeref [OF this] e b ok show ?thesis unfolding data_def path_def [symmetric] by auto
  next
    case False
    have "c' = d \<or> c' = e"
      using run False unfolding sweepEntry_def Let_def path_def [symmetric] isPointerForm_iff [symmetric]
      by (auto simp: get isPointerForm_iff [symmetric] e_def split_beta
          split: sum.splits option.splits if_splits)
    then show ?thesis using d e unfolding data_def path_def [symmetric] by auto
  qed
qed

lemma grouped_sweepEntry:
  assumes "t \<in> set tiers" and "plain_key k"
  shows "state_io_rel (grouped lib (sweep_group lib cfg ctx tok tiers)) (sweepEntry lib cfg ctx tok t k sw)"
proof (rule state_io_relI, rule grouped_one)
  fix r c c' assume "run_state (sweepEntry lib cfg ctx tok t k sw) c = (r, c')"
  note run = run_sweepEntry [OF this]
  let ?path = "cfg_KVMount cfg @ ''/data/'' @ t @ ''/'' @ k"
  from run have "\<exists>g. (g = [get_call ctx tok ?path False] \<or>
      (\<exists>body ref. fst (lib_raw lib (get_request ctx tok ?path) (world c)) = RawOK body \<and> entry_ref body = Some ref \<and>
         g = [get_call ctx tok ?path False, get_call ctx tok ref False])) \<and>
      calls c' = calls c @ g \<and> world c' = world_after lib g (world c)"
    by (fastforce simp: entry_ref_def)
  then have "\<exists>g. sweep_group lib cfg ctx tok tiers (world c) g \<and> calls c' = calls c @ g \<and> world c' = world_after lib g (world c)"
    unfolding sweep_group_def Let_def using assms by blast
  with run show "group_step lib (sweep_group lib cfg ctx tok tiers) c c'" unfolding group_step_def by blast
qed

lemma grouped_sweepTier:
  assumes "t \<in> set tiers"
  shows "state_io_rel (grouped lib (sweep_group lib cfg ctx tok tiers)) (sweepTier lib cfg ctx tok t sw)"
proof (rule state_io_relI)
  let ?P = "sweep_group lib cfg ctx tok tiers"
  fix r c c' assume run: "run_state (sweepTier lib cfg ctx tok t sw) c = (r, c')"
  obtain ks d where keys: "run_state (listTierKeys lib cfg ctx tok t) c = (ks, d)" by fastforce
  let ?g = "[get_call ctx tok (cfg_KVMount cfg @ ''/metadata/'' @ t) True]"
  have "calls d = calls c @ ?g" "world d = world_after lib ?g (world c)" "session_of d = session_of c" "log_lines d = log_lines c"
    using keys by (auto simp: listTierKeys_def Let_def run_vaultGet split_beta session_of_def split: sum.splits option.splits)
  moreover have "?P (world c) ?g" using assms by (auto simp: sweep_group_def)
  ultimately have 1: "grouped lib ?P c d" by (intro grouped_one) (auto simp: group_step_def)
  have plain: "list_all plain_key l" if "ks = Inr l" for l
    using keys that by (auto simp: listTierKeys_def Let_def split_beta list_all_iff plain_key_def split: sum.splits option.splits)
  show "grouped lib ?P c c'"
  proof (cases ks)
    case (Inl e)
    with run keys 1 show ?thesis by (simp add: sweepTier_def)
  next
    case (Inr l)
    have "state_io_rel (grouped lib ?P) (foldE (sweepEntry lib cfg ctx tok t) (sort l) sw)"
      using plain [OF Inr] by (intro grouped.io_foldE grouped_sweepEntry assms) (simp add: list_all_iff)
    with run keys Inr have "grouped lib ?P d c'"
      by (simp add: sweepTier_def state_io_rel_run)
    with 1 show ?thesis by (rule grouped.trans_R)
  qed
qed

lemma grouped_Sweep:
  "state_io_rel (grouped lib (sweep_group lib cfg ctx tok (sweep_tiers cfg ident b))) (Sweep lib cfg ctx tok ident b)"
  unfolding Sweep_def
  by (intro grouped.io_bindE grouped.io_foldE grouped_sweepTier grouped.io_okE)

lemma run_Sweep_ok:
  assumes "run_state (Sweep lib cfg ctx tok ident b) c = (Inr res, c')"
  shows "distinct (map Name (Secrets res)) \<and> (\<forall>s \<in> set (Secrets res). validName (Name s))"
proof -
  have "yields acc_ok (foldE (sweepTier lib cfg ctx tok) (sweep_tiers cfg ident b) empty_acc)"
    by (intro yields_foldE acc_ok_sweepTier) simp_all
  moreover from assms obtain sw where
    "run_state (foldE (sweepTier lib cfg ctx tok) (sweep_tiers cfg ident b) empty_acc) c = (Inr sw, c')"
    "Secrets res = secrets sw"
    by (auto simp: Sweep_def split: prod.splits sum.splits)
  ultimately show ?thesis unfolding yields_def acc_ok_def by metis
qed

section \<open>A sample server\<close>

text \<open>A server that answers the listed paths, and 404 otherwise.\<close>

definition site :: "(string \<times> raw_reply) list \<Rightarrow> raw_request \<Rightarrow> raw_reply" where
  "site tbl rq = (case map_of tbl (rq_path rq) of Some r \<Rightarrow> r | None \<Rightarrow> RawStatus 404)"

definition key_list :: "string list \<Rightarrow> raw_reply" where
  "key_list ks = RawOK (Some (JObj [(''data'', JObj [(''keys'', JArr (map JStr ks))])]))"

definition kv_entry :: "raw_map \<Rightarrow> (string \<times> json) list \<Rightarrow> raw_reply" where
  "kv_entry d custom = RawOK (Some (JObj [(''data'', JObj
     [(''data'', JObj d), (''metadata'', JObj [(''custom_metadata'', JObj custom)])])]))"

definition sample_vx :: vx_config where
  "sample_vx = \<lparr>cfg_Addr = ''http://vault'', cfg_RoleID = ''r'', cfg_SecretID = ''s'', cfg_TokenRole = ''ci'',
     cfg_KVMount = ''kv'', cfg_KVPrefix = ''ci''\<rparr>"

lemma static_frozen [simp]: "static (frozen srv) srv"
  by (simp add: static_def)

lemma static_vaultGet_frozen [simp]:
  "run_state (vaultGet (frozen srv) ctx tok path l) c = (answer srv ctx tok path l,
     c\<lparr>calls := calls c @ [get_call ctx tok path l]\<rparr>)"
  by (auto simp: run_vaultGet answer_def Let_def intro: client.equality)

lemma dec_key_list: "DecodeJSON dec_keys nil_slice (Some (JObj [(''data'', JObj [(''keys'', JArr (map JStr ks))])])) =
    Some (Slice ks (length ks))"
  by (simp add: DecodeJSON_def dec_keys_def find_field_def dec_slice_strings del: dec_slice.simps)

definition sample_site :: "raw_request \<Rightarrow> raw_reply" where
  "sample_site = site
     [(''/v1/kv/metadata/ci/acme/widgets/tag'', key_list [''npm'', ''.x'', ''API-key'']),
      (''/v1/kv/data/ci/acme/widgets/tag/npm'', kv_entry [(''value'', JStr ''n1'')] []),
      (''/v1/kv/data/ci/acme/widgets/tag/API-key'', kv_entry [(''id'', JStr ''7''), (''n'', JNum ''1'')] []),
      (''/v1/kv/metadata/ci/acme/widgets'', key_list [''npm'', ''d/'']),
      (''/v1/kv/data/ci/acme/widgets/npm'', kv_entry [(''$ref'', JStr ''db/creds'')] []),
      (''/v1/db/creds'', RawOK (Some (JObj [(''lease_id'', JStr ''l''), (''data'', JObj [(''pw'', JStr ''x'')])]))),
      (''/v1/auth/token/create/ci'', RawOK (Some (JObj [(''auth'', JObj
        [(''client_token'', JStr ''tok''), (''accessor'', JStr ''acc''), (''token_type'', JStr ''service''),
         (''lease_duration'', JNum ''600'')])]))),
      (''/v1/auth/token/revoke-self'', RawOK None)]"

lemma sample_answers:
  "answer sample_site ctx tok ''kv/metadata/ci/acme/widgets/tag'' l =
     classify_get ''kv/metadata/ci/acme/widgets/tag'' (key_list [''npm'', ''.x'', ''API-key''])"
  "answer sample_site ctx tok ''kv/metadata/ci/acme/widgets'' l =
     classify_get ''kv/metadata/ci/acme/widgets'' (key_list [''npm'', ''d/''])"
  "answer sample_site ctx tok ''kv/data/ci/acme/widgets/tag/npm'' l =
     classify_get ''kv/data/ci/acme/widgets/tag/npm'' (kv_entry [(''value'', JStr ''n1'')] [])"
  "answer sample_site ctx tok ''kv/data/ci/acme/widgets/tag/API-key'' l =
     classify_get ''kv/data/ci/acme/widgets/tag/API-key'' (kv_entry [(''id'', JStr ''7''), (''n'', JNum ''1'')] [])"
  "answer sample_site ctx tok ''kv/data/ci/acme/widgets/npm'' l =
     classify_get ''kv/data/ci/acme/widgets/npm'' (kv_entry [(''$ref'', JStr ''db/creds'')] [])"
  "answer sample_site ctx tok ''db/creds'' l = classify_get ''db/creds''
     (RawOK (Some (JObj [(''lease_id'', JStr ''l''), (''data'', JObj [(''pw'', JStr ''x'')])])))"
  by (simp_all add: answer_def sample_site_def site_def)

lemma classify_key_list [simp]: "classify_get p (key_list ks) = Inr (Some (Some (JObj [(''data'', JObj [(''keys'', JArr (map JStr ks))])])))"
  by (simp add: classify_get_def key_list_def)

lemma classify_RawOK [simp]: "classify_get p (RawOK b) = Inr (Some b)"
  by (simp add: classify_get_def)

lemma classify_kv_entry [simp]: "classify_get p (kv_entry d m) = Inr (Some (Some (JObj [(''data'', JObj
     [(''data'', JObj d), (''metadata'', JObj [(''custom_metadata'', JObj m)])])])))"
  by (simp add: classify_get_def kv_entry_def)

text \<open>What the three entries of the sample site offer.\<close>

lemma dec_kv_entry:
  "dec_entry (JObj [(''data'', JObj
     [(''data'', JObj d), (''metadata'', JObj [(''custom_metadata'', JObj [])])])]) \<lparr>er_Data = [], er_CustomMetadata = []\<rparr> =
   Some \<lparr>er_Data = fold (\<lambda>(k, v). AList.update k v) d [], er_CustomMetadata = []\<rparr>"
  by (simp add: dec_entry_def find_field_def dec_field_def dec_entries_raw)

lemma sample_keys:
  "spec_keys sample_site sample_vx ctx tok ''ci/acme/widgets/tag'' = Inr [''API-key'', ''npm'']"
  "spec_keys sample_site sample_vx ctx tok ''ci/acme/widgets'' = Inr [''npm'']"
  by (simp_all add: spec_keys_def sample_vx_def sample_answers dec_key_list [of "[_, _, _]", simplified]
        dec_key_list [of "[_, _]", simplified]
      plain_key_def has_suffix_def has_prefix_def less_char_def less_eq_char_def Let_def)

lemma sample_norm:
  "normalizeName ascii_table ''npm'' = ''npm''" "normalizeName ascii_table ''API-key'' = ''api_key''"
  "normalizeName ascii_table ''id'' = ''id''" "normalizeName ascii_table ''pw'' = ''pw''"
  by (simp_all add: normalizeName_def to_lower_def is_ascii_def lower_byte_def replace_byte_def char_of_eq_iff)

lemma sample_entries:
  "spec_entry sample_site ascii_table sample_vx ctx tok ''ci/acme/widgets/tag'' ''npm'' =
     Inr ([\<lparr>Name = ''npm'', Value = ''n1'', Images = [], Events = []\<rparr>], False)"
  "spec_entry sample_site ascii_table sample_vx ctx tok ''ci/acme/widgets/tag'' ''API-key'' =
     Inr ([\<lparr>Name = ''api_key_id'', Value = ''7'', Images = [], Events = []\<rparr>], False)"
  "spec_entry sample_site ascii_table sample_vx ctx tok ''ci/acme/widgets'' ''npm'' =
     Inr ([\<lparr>Name = ''npm_pw'', Value = ''x'', Images = [], Events = []\<rparr>], True)"
  by (simp_all add: spec_entry_def spec_deref_def sample_vx_def sample_answers dec_kv_entry entry_kind_def
      entryPins_def stringField_def field_offers_def sortedFieldNames_def List.map_filter_simps sample_norm
      DecodeJSON_def dec_deref_def find_field_def dec_field_def dec_raw_elem_def deref_offers_def isKV2Shaped_def Let_def)

definition sample_swept :: sweepResult where
  "sample_swept =
     \<lparr>Secrets = [\<lparr>Name = ''api_key_id'', Value = ''7'', Images = [], Events = []\<rparr>,
                 \<lparr>Name = ''npm'', Value = ''n1'', Images = [], Events = []\<rparr>,
                 \<lparr>Name = ''npm_pw'', Value = ''x'', Images = [], Events = []\<rparr>],
      LeasesCreated = True\<rparr>"

lemma sample_tiers:
  "sweep_tiers sample_vx (sample_identity ''tag'' []) b = [''ci/acme/widgets/tag'', ''ci/acme/widgets'']"
  by (simp add: sweep_tiers_def Base_def sample_vx_def sample_identity_def)

lemma sample_spec:
  "spec_sweep sample_site ascii_table sample_vx ctx tok (sample_identity ''tag'' []) b = Inr sample_swept"
  by (simp add: spec_sweep_def sample_tiers spec_tier_def sample_keys sample_entries merge_offers_def Let_def
      validName_def valid_name_char_def sample_swept_def)

lemma sample_run:
  "\<exists>c'. run_state (Sweep (frozen sample_site) sample_vx ctx tok (sample_identity ''tag'' []) b) c = (Inr sample_swept, c')"
  using Sweep_spec [OF static_frozen, of sample_site sample_vx ctx tok "sample_identity ''tag'' []" b c]
  by (simp add: sample_spec prod_eq_iff)

section \<open>More lemmas\<close>








section \<open>Properties\<close>

text \<open>C9. A sweep implements its abstract specification: when nobody writes in between, it returns
  what \<open>spec_sweep\<close> computes without an accumulator: for every valid name that the
  entries of the tiers offer, the first offer in order of the tiers, the keys and the fields; and
  otherwise the first read that fails.\<close>

theorem Sweep_refines:
  assumes "static lib srv"
  shows "fst (run_state (Sweep lib cfg ctx tok ident branchful) c) =
     spec_sweep srv (lib_lower lib) cfg ctx tok ident branchful"
  by (rule Sweep_spec [OF assms])

theorem Sweep_refines_witness:
  "fst (run_state (Sweep (frozen sample_site) sample_vx RequestCtx ''t'' (sample_identity ''tag'' []) False) (New False ())) =
     Inr sample_swept"
  using Sweep_refines [OF static_frozen, of sample_site sample_vx RequestCtx "''t''" "sample_identity ''tag'' []" False "New False ()"]
  by (simp add: sample_spec)



text \<open>C18. Whatever the server answers, the secrets of a sweep have distinct names, each a non-empty
  word over lower-case ASCII letters, digits and the underscore.\<close>

theorem Sweep_names:
  assumes "run_state (Sweep lib cfg ctx tok ident branchful) c = (Inr res, c')"
  shows "distinct (map Name (Secrets res)) \<and>
     (\<forall>s \<in> set (Secrets res). Name s \<noteq> [] \<and> set (Name s) \<subseteq> {CHR ''a''..CHR ''z''} \<union> {CHR ''0''..CHR ''9''} \<union> {CHR ''_''})"
proof -
  have "set s \<subseteq> {CHR ''a''..CHR ''z''} \<union> {CHR ''0''..CHR ''9''} \<union> {CHR ''_''}" if "list_all valid_name_char s" for s
    using that by (auto simp: list_all_iff valid_name_char_def less_eq_char_def)
  with run_Sweep_ok [OF assms] show ?thesis by (auto simp: validName_def)
qed

theorem Sweep_names_witness: "distinct (map Name (Secrets sample_swept))"
proof -
  obtain c' where "run_state (Sweep (frozen sample_site) sample_vx RequestCtx ''t'' (sample_identity ''tag'' []) False)
      (New False ()) = (Inr sample_swept, c')"
    using sample_run by blast
  from Sweep_names [OF this] show ?thesis by blast
qed

text \<open>Two replies that are equal but for the order of the keys of a LIST response.\<close>

definition relisted :: "raw_reply \<Rightarrow> raw_reply \<Rightarrow> bool" where
  "relisted r r' \<longleftrightarrow> r = r' \<or> (\<exists>ks ks'. mset ks = mset ks' \<and> r = key_list ks \<and> r' = key_list ks')"

lemma spec_keys_relisted:
  assumes "\<And>rq. rq_list rq \<Longrightarrow> relisted (srv rq) (srv' rq)"
  shows "spec_keys srv cfg ctx tok t = spec_keys srv' cfg ctx tok t"
proof -
  define path where "path = cfg_KVMount cfg @ ''/metadata/'' @ t"
  define rq where "rq = \<lparr>rq_method = ''GET'', rq_path = ''/v1/'' @ path,
      rq_list = True, rq_token = tok, rq_body = NoBody, rq_ctx = ctx\<rparr>"
  have "relisted (srv rq) (srv' rq)" using assms by (simp add: rq_def)
  then show ?thesis
    unfolding spec_keys_def Let_def path_def [symmetric] answer_def rq_def [symmetric] relisted_def
  proof (elim disjE exE conjE)
    fix ks ks' assume "mset ks = mset ks'" "srv rq = key_list ks" "srv' rq = key_list ks'"
    moreover from this(1) have "sort ks = sort ks'" by (metis properties_for_sort mset_sort sorted_sort)
    ultimately show "(case classify_get path (srv rq) of Inl e \<Rightarrow> Inl e | Inr None \<Rightarrow> Inr []
        | Inr (Some body) \<Rightarrow> (case DecodeJSON dec_keys nil_slice body of None \<Rightarrow> Inl (ListDecode path)
            | Some ks \<Rightarrow> Inr (filter plain_key (sort (elems ks))))) =
      (case classify_get path (srv' rq) of Inl e \<Rightarrow> Inl e | Inr None \<Rightarrow> Inr []
        | Inr (Some body) \<Rightarrow> (case DecodeJSON dec_keys nil_slice body of None \<Rightarrow> Inl (ListDecode path)
            | Some ks \<Rightarrow> Inr (filter plain_key (sort (elems ks)))))"
      by (simp add: dec_key_list)
  qed simp
qed

text \<open>C19. The order in which the server lists keys does not matter: two servers that differ only
  in the order of the keys of their LIST responses (bare ones, with nothing but \<open>data.keys\<close>) give the same result.\<close>

theorem Sweep_list_order:
  assumes "static lib srv" and "static lib' srv'" and "lib_lower lib = lib_lower lib'"
    and lists: "\<And>rq. rq_list rq \<Longrightarrow> relisted (srv rq) (srv' rq)"
    and reads: "\<And>rq. \<not> rq_list rq \<Longrightarrow> srv rq = srv' rq"
  shows "fst (run_state (Sweep lib cfg ctx tok ident branchful) c) =
     fst (run_state (Sweep lib' cfg ctx tok ident branchful) c')"
proof -
  have ans: "answer srv ctx tok p False = answer srv' ctx tok p False" for p
    by (simp add: answer_def reads)
  have keys: "spec_keys srv cfg ctx tok t = spec_keys srv' cfg ctx tok t" for t
    by (rule spec_keys_relisted) (rule lists)
  have "spec_deref srv = spec_deref srv'" by (intro ext) (simp add: spec_deref_def answer_def reads)
  then have "spec_entry srv ul cfg ctx tok t = spec_entry srv' ul cfg ctx tok t" for ul t
    unfolding spec_entry_def [abs_def] ans by (simp only:)
  then have "spec_tier srv ul cfg ctx tok = spec_tier srv' ul cfg ctx tok" for ul
    unfolding spec_tier_def [abs_def] keys by (simp only:)
  then have "spec_sweep srv ul cfg ctx tok ident branchful = spec_sweep srv' ul cfg ctx tok ident branchful" for ul
    by (simp add: spec_sweep_def)
  then show ?thesis using Sweep_spec assms(1,2,3) by metis
qed

definition sample_site2 :: "raw_request \<Rightarrow> raw_reply" where
  "sample_site2 rq =
     (if rq_list rq \<and> rq_path rq = ''/v1/kv/metadata/ci/acme/widgets/tag'' then key_list [''API-key'', ''npm'', ''.x'']
      else sample_site rq)"

theorem Sweep_list_order_witness:
  "fst (run_state (Sweep (frozen sample_site2) sample_vx RequestCtx ''t'' (sample_identity ''tag'' []) False) (New True ()))
     = Inr sample_swept"
proof -
  have "sample_site rq = key_list [''npm'', ''.x'', ''API-key'']"
    if "rq_path rq = ''/v1/kv/metadata/ci/acme/widgets/tag''" for rq
    by (simp add: sample_site_def site_def that)
  moreover have "mset [''npm'', ''.x'', ''API-key''] = mset [''API-key'', ''npm'', ''.x'']" by simp
  ultimately have "relisted (sample_site rq) (sample_site2 rq)" for rq
    unfolding relisted_def sample_site2_def by (metis (full_types))
  moreover have "sample_site rq = sample_site2 rq" if "\<not> rq_list rq" for rq
    using that by (simp add: sample_site2_def)
  ultimately have "fst (run_state (Sweep (frozen sample_site) sample_vx RequestCtx ''t'' (sample_identity ''tag'' []) False) (New True ()))
     = fst (run_state (Sweep (frozen sample_site2) sample_vx RequestCtx ''t'' (sample_identity ''tag'' []) False) (New True ()))"
    by (intro Sweep_list_order [OF static_frozen static_frozen]) simp_all
  then show ?thesis
    using Sweep_spec [OF static_frozen]
    by (simp add: sample_spec)
qed

text \<open>C17. References are not followed in chains: reading an entry makes one GET, and at most one more, only for the path in an
  entry whose only field is \<open>$ref\<close> with a string (or null); what that path holds is never followed.\<close>

theorem sweepEntry_no_chain:
  "let data = get_call ctx tok (cfg_KVMount cfg @ ''/data/'' @ tier @ ''/'' @ key) False;
       c' = snd (run_state (sweepEntry lib cfg ctx tok tier key sw) c) in
   calls c' = calls c @ [data] \<or>
   (\<exists>rq body parsed ref. data = Raw rq \<and> fst (lib_raw lib rq (world c)) = RawOK body \<and>
      DecodeJSON dec_entry \<lparr>er_Data = [], er_CustomMetadata = []\<rparr> body = Some parsed \<and>
      map fst (er_Data parsed) = [''$ref''] \<and> stringField (map_of (er_Data parsed) ''$ref'') = Some ref \<and>
      calls c' = calls c @ [data, get_call ctx tok ref False])"
proof -
  obtain r d where run: "run_state (sweepEntry lib cfg ctx tok tier key sw) c = (r, d)" by fastforce
  then have d: "snd (run_state (sweepEntry lib cfg ctx tok tier key sw) c) = d" by simp
  show ?thesis unfolding Let_def d using run_sweepEntry [OF run, THEN conjunct2, THEN conjunct2]
    by (elim disj_forward ex_forward) simp_all
qed

end
