(* ===== verification/Directives.thy ===== *)
theory Directives
  imports Sweep
begin

text \<open>
  What the two directive reads of \<open>internal/vaultx/sweep.go\<close>, \<open>ReadIdentity\<close> and \<open>ReadConfig\<close>, return for
  each reply of the server: absence and denial are "not set", and an entry that exists but
  has the wrong shape is a malformed directive, never "not set".
\<close>

definition identity_path :: "vx_config \<Rightarrow> string \<Rightarrow> string" where
  "identity_path cfg base = cfg_KVMount cfg @ ''/data/'' @ base @ ''/.identity''"

definition config_path :: "vx_config \<Rightarrow> string \<Rightarrow> string" where
  "config_path cfg base = cfg_KVMount cfg @ ''/data/'' @ base @ ''/.config''"

text \<open>The results as functions of the reply.\<close>

definition identity_of_reply :: "string \<Rightarrow> raw_reply \<Rightarrow> vx_error + string option" where
  "identity_of_reply path r =
     (case classify_get path r of
        Inl e \<Rightarrow> Inl e
      | Inr None \<Rightarrow> Inr None
      | Inr (Some body) \<Rightarrow>
          (case DecodeJSON dec_identity None body of
             Some (Some (JStr i)) \<Rightarrow>
               (if i = [] then Inl (MalformedDirective ''.identity: forge_remote_id missing, non-string, or empty'')
                else Inr (Some i))
           | Some _ \<Rightarrow> Inl (MalformedDirective ''.identity: forge_remote_id missing, non-string, or empty'')
           | None \<Rightarrow> Inl (MalformedDirective ''.identity: decode response'')))"

definition config_of_reply :: "string \<Rightarrow> raw_reply \<Rightarrow> vx_error + (string \<times> string) list option" where
  "config_of_reply path r =
     (case classify_get path r of
        Inl e \<Rightarrow> Inl e
      | Inr None \<Rightarrow> Inr None
      | Inr (Some body) \<Rightarrow>
          (case DecodeJSON dec_config [] body of
             None \<Rightarrow> Inl (MalformedDirective ''.config: decode response'')
           | Some d \<Rightarrow> map_sum id Some (config_fields d)))"

lemma stringField_cases:
  "stringField (Some j) = (case j of JStr s \<Rightarrow> Some s | JNull \<Rightarrow> Some [] | _ \<Rightarrow> None)"
  "stringField None = None"
  by (simp_all add: stringField_def split: json.split)

lemma run_ReadIdentity:
  "run_state (ReadIdentity lib cfg ctx tok base) c =
     (identity_of_reply (identity_path cfg base) (fst (lib_raw lib (get_request ctx tok (identity_path cfg base)) (world c))),
      c\<lparr>world := snd (lib_raw lib (get_request ctx tok (identity_path cfg base)) (world c)),
        calls := calls c @ [get_call ctx tok (identity_path cfg base) False]\<rparr>)"
  unfolding ReadIdentity_def identity_path_def [symmetric]
  by (auto simp: run_vaultGet Let_def split_beta identity_of_reply_def stringField_cases
      split: sum.split option.split json.split)

lemma run_ReadConfig:
  "run_state (ReadConfig lib cfg ctx tok base) c =
     (config_of_reply (config_path cfg base) (fst (lib_raw lib (get_request ctx tok (config_path cfg base)) (world c))),
      c\<lparr>world := snd (lib_raw lib (get_request ctx tok (config_path cfg base)) (world c)),
        calls := calls c @ [get_call ctx tok (config_path cfg base) False]\<rparr>)"
  unfolding ReadConfig_def config_path_def [symmetric]
  by (auto simp: run_vaultGet Let_def split_beta config_of_reply_def split: sum.split option.split)

lemma config_fields_ok:
  "config_fields d = Inr m \<longleftrightarrow> list_all (\<lambda>(k, j). j = JNull \<or> (\<exists>s. j = JStr s)) d \<and>
     m = map (\<lambda>(k, j). (k, case j of JStr s \<Rightarrow> s | _ \<Rightarrow> [])) d"
proof (induction d arbitrary: m)
  case Nil
  then show ?case by auto
next
  case (Cons kj d)
  obtain k j where kj: "kj = (k, j)" by fastforce
  show ?case
  proof (cases "config_fields d")
    case (Inl e)
    with Cons.IH [of "map (\<lambda>(k, j). (k, case j of JStr s \<Rightarrow> s | _ \<Rightarrow> [])) d"]
    have "\<not> list_all (\<lambda>(k, j). j = JNull \<or> (\<exists>s. j = JStr s)) d" by simp
    with Inl show ?thesis by (auto simp: kj stringField_cases split: json.split)
  next
    case (Inr x)
    with Cons.IH [of x] show ?thesis by (auto simp: kj stringField_cases split: json.split)
  qed
qed

lemma config_fields_malformed: "config_fields d = Inl e \<Longrightarrow> is_malformed e"
  by (induction d) (auto simp: stringField_cases split: option.splits sum.splits)

lemma classify_get_cases:
  "classify_get path r = Inr None \<longleftrightarrow> r = RawStatus 403 \<or> r = RawStatus 404"
  "classify_get path r = Inr (Some b) \<longleftrightarrow> r = RawOK b"
  "classify_get path r = Inl e \<longleftrightarrow> e = GetFailed path \<and> (\<forall>b. r \<noteq> RawOK b) \<and> r \<noteq> RawStatus 403 \<and> r \<noteq> RawStatus 404"
  by (auto simp: classify_get_def split: raw_reply.splits)

lemma identity_of_reply_cases:
  "identity_of_reply path r = Inr None \<longleftrightarrow> r = RawStatus 403 \<or> r = RawStatus 404"
  "identity_of_reply path r = Inr (Some i) \<longleftrightarrow>
     i \<noteq> [] \<and> (\<exists>body. r = RawOK (Some body) \<and> dec_identity body None = Some (Some (JStr i)))"
  "(\<exists>e. identity_of_reply path r = Inl e \<and> is_malformed e) \<longleftrightarrow>
     (\<exists>body. r = RawOK body) \<and> \<not> (\<exists>i. identity_of_reply path r = Inr (Some i))"
proof -
  show "identity_of_reply path r = Inr None \<longleftrightarrow> r = RawStatus 403 \<or> r = RawStatus 404"
    by (auto simp: identity_of_reply_def classify_get_cases split: sum.splits option.splits json.splits)
  show "identity_of_reply path r = Inr (Some i) \<longleftrightarrow>
     i \<noteq> [] \<and> (\<exists>body. r = RawOK (Some body) \<and> dec_identity body None = Some (Some (JStr i)))"
    by (auto simp: identity_of_reply_def classify_get_cases DecodeJSON_def bind_eq_Some_conv
        split: sum.splits option.splits json.splits)
  show "(\<exists>e. identity_of_reply path r = Inl e \<and> is_malformed e) \<longleftrightarrow>
     (\<exists>body. r = RawOK body) \<and> \<not> (\<exists>i. identity_of_reply path r = Inr (Some i))"
    by (auto simp: identity_of_reply_def classify_get_cases split: sum.splits option.splits json.splits)
qed

lemma config_of_reply_cases:
  "config_of_reply path r = Inr None \<longleftrightarrow> r = RawStatus 403 \<or> r = RawStatus 404"
  "config_of_reply path r = Inr (Some m) \<longleftrightarrow>
     (\<exists>body d. r = RawOK (Some body) \<and> dec_config body [] = Some d \<and>
        list_all (\<lambda>(k, j). j = JNull \<or> (\<exists>s. j = JStr s)) d \<and>
        m = map (\<lambda>(k, j). (k, case j of JStr s \<Rightarrow> s | _ \<Rightarrow> [])) d)"
  "(\<exists>e. config_of_reply path r = Inl e \<and> is_malformed e) \<longleftrightarrow>
     (\<exists>body. r = RawOK body) \<and> \<not> (\<exists>m. config_of_reply path r = Inr (Some m))"
proof -
  show "config_of_reply path r = Inr None \<longleftrightarrow> r = RawStatus 403 \<or> r = RawStatus 404"
    by (cases "classify_get path r")
       (auto simp: config_of_reply_def classify_get_cases map_sum_def split: sum.splits option.splits)
  show "config_of_reply path r = Inr (Some m) \<longleftrightarrow>
     (\<exists>body d. r = RawOK (Some body) \<and> dec_config body [] = Some d \<and>
        list_all (\<lambda>(k, j). j = JNull \<or> (\<exists>s. j = JStr s)) d \<and>
        m = map (\<lambda>(k, j). (k, case j of JStr s \<Rightarrow> s | _ \<Rightarrow> [])) d)"
    unfolding config_fields_ok [symmetric]
    by (auto simp: config_of_reply_def classify_get_cases DecodeJSON_def bind_eq_Some_conv map_sum_def
        split: sum.splits option.splits)
  show "(\<exists>e. config_of_reply path r = Inl e \<and> is_malformed e) \<longleftrightarrow>
     (\<exists>body. r = RawOK body) \<and> \<not> (\<exists>m. config_of_reply path r = Inr (Some m))"
    by (auto simp: config_of_reply_def classify_get_cases map_sum_def
        split: sum.splits option.splits dest: config_fields_malformed)
qed

section \<open>Properties\<close>

text \<open>C20. The identity binding fails closed. Reading \<open>.identity\<close> yields "not enforced" only for a 403 or 404, an
  identifier only for a response whose \<open>forge_remote_id\<close> is that non-empty string, and for
  every other response that carries a body a malformed-directive error; that error
  arises in no other way.\<close>

theorem ReadIdentity_fails_closed:
  "let res = fst (run_state (ReadIdentity lib cfg ctx tok base) c);
       r = fst (lib_raw lib (get_request ctx tok (cfg_KVMount cfg @ ''/data/'' @ base @ ''/.identity'')) (world c)) in
   (res = Inr None \<longleftrightarrow> r = RawStatus 403 \<or> r = RawStatus 404) \<and>
   (\<forall>i. res = Inr (Some i) \<longleftrightarrow>
      i \<noteq> [] \<and> (\<exists>body. r = RawOK (Some body) \<and> dec_identity body None = Some (Some (JStr i)))) \<and>
   ((\<exists>e. res = Inl e \<and> is_malformed e) \<longleftrightarrow> (\<exists>body. r = RawOK body) \<and> \<not> (\<exists>i. res = Inr (Some i)))"
  unfolding Let_def run_ReadIdentity fst_conv identity_path_def [symmetric]
  by (intro conjI allI identity_of_reply_cases)

text \<open>C21. The configuration fails closed. Reading \<open>.config\<close> yields "not set" only for a 403 or 404, a
  configuration only for a response whose data are all strings (a null counts as
  the empty string), and then exactly these, and for every other response that carries a body
  a malformed-directive error.\<close>

theorem ReadConfig_fails_closed:
  "let res = fst (run_state (ReadConfig lib cfg ctx tok base) c);
       r = fst (lib_raw lib (get_request ctx tok (cfg_KVMount cfg @ ''/data/'' @ base @ ''/.config'')) (world c)) in
   (res = Inr None \<longleftrightarrow> r = RawStatus 403 \<or> r = RawStatus 404) \<and>
   (\<forall>m. res = Inr (Some m) \<longleftrightarrow>
      (\<exists>body d. r = RawOK (Some body) \<and> dec_config body [] = Some d \<and>
         list_all (\<lambda>(k, j). j = JNull \<or> (\<exists>s. j = JStr s)) d \<and>
         m = map (\<lambda>(k, j). (k, case j of JStr s \<Rightarrow> s | _ \<Rightarrow> [])) d)) \<and>
   ((\<exists>e. res = Inl e \<and> is_malformed e) \<longleftrightarrow> (\<exists>body. r = RawOK body) \<and> \<not> (\<exists>m. res = Inr (Some m)))"
  unfolding Let_def run_ReadConfig fst_conv config_path_def [symmetric]
  by (intro conjI allI config_of_reply_cases)

text \<open>A JSON \<open>null\<close> passes as the empty string wherever the code asks for a string field: the
  entry \<open>{"value": null}\<close> is served as a secret with an empty value.\<close>

theorem null_field_served:
  "stringField (Some JNull) = Some [] \<and>
   fst (run_state (sweepEntry (frozen (\<lambda>_. kv_entry [(''value'', JNull)] [])) sample_vx RequestCtx ''t'' ''x'' ''npm'' empty_acc)
     (New False ())) =
   Inr \<lparr>seen = {''npm''}, secrets = [\<lparr>Name = ''npm'', Value = [], Images = [], Events = []\<rparr>], leasesCreated = False\<rparr>"
  by (simp add: stringField_def sweepEntry_spec [OF static_frozen] spec_entry_def sample_vx_def answer_def
      DecodeJSON_def dec_kv_entry dec_raw_elem_def entry_kind_def entryPins_def sample_norm
      add_def validName_def valid_name_char_def empty_acc_def)

end
