(* ===== verification/Canary.thy ===== *)
theory Canary
  imports Mint
begin

text \<open>
  \<open>internal/vaultx/canary.go\<close>: the start-up canary, which mints a token under a policy that does not
  exist, checks the token's properties and revokes it. The lemmas say when it passes and that it
  leaves no token behind.
\<close>

definition canaryAssertMintProperties :: "mint \<Rightarrow> vx_error option" where
  "canaryAssertMintProperties m =
     (if TokenType m \<noteq> ''service'' then Some (CanaryTokenType (TokenType m))
      else if Renewable m then Some CanaryRenewable
      else if Orphan m = Some False then Some CanaryOrphan
      else None)"

definition runCanary ::
  "'w lib \<Rightarrow> vx_config \<Rightarrow> ctx \<Rightarrow> string \<Rightarrow> ('w client, vx_error option) state" where
  "runCanary lib cfg ctx policyPrefix = do {
     let policy = policyPrefix @ ''/ironbark-selftest'';
     r \<leftarrow> MintToken lib cfg ctx [policy] None ''ironbark-canary'';
     case r of
       Inl e \<Rightarrow> State_Monad.return (Some (CanaryMint e))
     | Inr m \<Rightarrow>
         (case canaryAssertMintProperties m of
            Some assertErr \<Rightarrow> do {
              rv \<leftarrow> RevokeSelf lib ctx (Token m);
              (case rv of
                 Some _ \<Rightarrow> logger LevelWarn ''canary: revoke of failed-assertion token failed''
               | None \<Rightarrow> State_Monad.return ());
              State_Monad.return (Some assertErr)
            }
          | None \<Rightarrow> do {
              rv \<leftarrow> RevokeSelf lib ctx (Token m);
              case rv of
                Some e \<Rightarrow> State_Monad.return (Some (CanaryRevoke e))
              | None \<Rightarrow> do { setCanaryOK True; State_Monad.return None }
            })
   }"

text \<open>\<open>RunCanary\<close>, the exported form.\<close>

definition RunCanary ::
  "'w lib \<Rightarrow> vx_config \<Rightarrow> ctx \<Rightarrow> string \<Rightarrow> ('w client, vx_error option) state" where
  "RunCanary lib cfg ctx policyPrefix = runCanary lib cfg ctx policyPrefix"

section \<open>Lemmas\<close>

abbreviation canary_mint :: "vx_config \<Rightarrow> ctx \<Rightarrow> string \<Rightarrow> string \<Rightarrow> api_call" where
  "canary_mint cfg ctx own pfx \<equiv>
     mint_call cfg ctx own [pfx @ ''/ironbark-selftest''] None ''ironbark-canary''"

lemma canary_trusts_iff:
  "canaryAssertMintProperties m = None \<longleftrightarrow>
     TokenType m = ''service'' \<and> \<not> Renewable m \<and> Orphan m \<noteq> Some False"
  by (simp add: canaryAssertMintProperties_def)

text \<open>The run of the canary from the results of its two calls.\<close>

lemma run_runCanary:
  assumes mint: "run_state (MintToken lib cfg ctx [pfx @ ''/ironbark-selftest''] None ''ironbark-canary'') c = (r, c1)"
  shows "run_state (runCanary lib cfg ctx pfx) c =
     (case r of
        Inl e \<Rightarrow> (Some (CanaryMint e), c1)
      | Inr m \<Rightarrow>
          (let (rv, c2) = run_state (RevokeSelf lib ctx (Token m)) c1 in
           case canaryAssertMintProperties m of
             Some ae \<Rightarrow>
               (Some ae, if rv = None then c2 else c2\<lparr>log_lines := log_lines c2 @
                  [(LevelWarn, ''canary: revoke of failed-assertion token failed'')]\<rparr>)
           | None \<Rightarrow> (case rv of Some e \<Rightarrow> (Some (CanaryRevoke e), c2) | None \<Rightarrow> (None, c2\<lparr>canaryOK := True\<rparr>))))"
  by (simp add: runCanary_def mint Let_def logger_def setCanaryOK_def split: sum.split option.split prod.split)

lemma runCanary_effect:
  assumes "run_state (runCanary lib cfg ctx pfx) c = (res, c')"
  obtains r c1 w ls where
    "run_state (MintToken lib cfg ctx [pfx @ ''/ironbark-selftest''] None ''ironbark-canary'') c = (r, c1)"
    "calls c' = calls c @ canary_mint cfg ctx (api_token c) pfx #
       (case r of Inl _ \<Rightarrow> [] | Inr m \<Rightarrow> [revoke_call ctx (Token m)])"
    "c' = c\<lparr>world := w, calls := calls c', log_lines := ls, canaryOK := canaryOK c \<or> res = None\<rparr>"
proof -
  obtain r c1 where m: "run_state (MintToken lib cfg ctx [pfx @ ''/ironbark-selftest''] None ''ironbark-canary'') c = (r, c1)"
    by fastforce
  obtain w where c1: "c1 = c\<lparr>world := w, calls := calls c @ [canary_mint cfg ctx (api_token c) pfx]\<rparr>"
    using run_MintToken [OF m] by blast
  note run = assms [unfolded run_runCanary [OF m]]
  have calls: "calls c' = calls c @ canary_mint cfg ctx (api_token c) pfx #
       (case r of Inl _ \<Rightarrow> [] | Inr m \<Rightarrow> [revoke_call ctx (Token m)])"
    using run run_RevokeSelf
    by (force simp: c1 Let_def split: sum.splits option.splits prod.splits if_splits)
  have "\<exists>w cs ls. c' = c\<lparr>world := w, calls := cs, log_lines := ls, canaryOK := canaryOK c \<or> res = None\<rparr>"
  proof (cases r)
    case (Inl e)
    with run c1 show ?thesis by (intro exI [of _ w] exI) (auto intro: client.equality)
  next
    case (Inr k)
    obtain rv c2 where rv: "run_state (RevokeSelf lib ctx (Token k)) c1 = (rv, c2)" by fastforce
    obtain w' where c2: "c2 = c1\<lparr>world := w', calls := calls c1 @ [revoke_call ctx (Token k)]\<rparr>"
      using run_RevokeSelf [OF rv] by blast
    note run' = run [unfolded Inr, simplified, unfolded rv, simplified]
    show ?thesis
    proof (cases "canaryAssertMintProperties k")
      case None
      with run' c1 c2 show ?thesis
        by (cases rv; intro exI [of _ w'] exI; auto intro!: client.equality)
    next
      case (Some a)
      with run' have "res = Some a" by simp
      with run' Some c1 c2 show ?thesis
        by (cases rv; intro exI [of _ w'] exI; auto intro!: client.equality)
    qed
  qed
  then obtain w cs ls where c': "c' = c\<lparr>world := w, calls := cs, log_lines := ls, canaryOK := canaryOK c \<or> res = None\<rparr>"
    by blast
  show thesis by (rule that [OF m calls]) (use c' in simp)
qed

section \<open>Properties\<close>

text \<open>C23. The canary passes exactly when the mint succeeds, the token is a service token, is not
  renewable and is not exposed as a non-orphan, and the revocation of the token as itself
  succeeds; only then, and always then, it sets the canary flag (which it never clears).\<close>

theorem runCanary_passes_iff:
  "(fst (run_state (runCanary lib cfg ctx pfx) c) = None \<longleftrightarrow>
     (\<exists>m c1. run_state (MintToken lib cfg ctx [pfx @ ''/ironbark-selftest''] None ''ironbark-canary'') c = (Inr m, c1)
        \<and> TokenType m = ''service'' \<and> \<not> Renewable m \<and> Orphan m \<noteq> Some False
        \<and> fst (run_state (RevokeSelf lib ctx (Token m)) c1) = None)) \<and>
   (canaryOK (snd (run_state (runCanary lib cfg ctx pfx) c)) \<longleftrightarrow>
     canaryOK c \<or> fst (run_state (runCanary lib cfg ctx pfx) c) = None)"
  (is "?pass \<and> ?flag")
proof
  obtain r c1 where m: "run_state (MintToken lib cfg ctx [pfx @ ''/ironbark-selftest''] None ''ironbark-canary'') c = (r, c1)"
    by fastforce
  show ?pass unfolding run_runCanary [OF m] m
    by (auto simp: Let_def split_beta canary_trusts_iff [symmetric] split: sum.split option.split)
  obtain res c' where run: "run_state (runCanary lib cfg ctx pfx) c = (res, c')" by fastforce
  from run show ?flag
  proof (rule runCanary_effect, goal_cases)
    case 1
    have "canaryOK c' = (canaryOK c \<or> res = None)" by (subst 1(3)) simp
    with run show ?case by simp
  qed
qed

text \<open>C24. The canary always tries to leave no token behind: whatever it finds, it makes one mint request under
  the non-existent policy of the prefix and, if a token came back, exactly one revocation attempt, as that
  token (whose failure fails the canary); it changes nothing of the client's session but the canary flag.\<close>

theorem runCanary_revokes:
  fixes c :: "'w client"
  shows "\<exists>r c1. run_state (MintToken lib cfg ctx [pfx @ ''/ironbark-selftest''] None ''ironbark-canary'') c = (r, c1)
     \<and> (let c' = snd (run_state (runCanary lib cfg ctx pfx) c) in
        calls c' = calls c @ canary_mint cfg ctx (api_token c) pfx #
          (case r of Inl _ \<Rightarrow> [] | Inr m \<Rightarrow> [revoke_call ctx (Token m)])
        \<and> session_of (c'\<lparr>canaryOK := canaryOK c\<rparr>) = session_of c)"
proof -
  obtain res c' where run: "run_state (runCanary lib cfg ctx pfx) c = (res, c')" by fastforce
  from run show ?thesis
  proof (rule runCanary_effect, goal_cases)
    case (1 r c1 w ls)
    have "session_of (c'\<lparr>canaryOK := canaryOK c\<rparr>) = session_of c"
      by (subst 1(3)) (simp add: session_of_def)
    with 1(1,2) run show ?case by auto
  qed
qed

end
