(* ===== verification/Broker.thy ===== *)
theory Broker
  imports Directives Canary
begin

text \<open>
  Package \<open>internal/broker\<close>: its interface \<open>Vault\<close> as a record of state transformers, and \<open>Handle\<close>, the
  whole decision from a verified identity to a response, with the deferred revocation. The
  locale \<open>vault_contract\<close> states what the broker relies on of a \<open>Vault\<close>; theory BrokerProps
  instantiates it with the client.
\<close>

section \<open>Data\<close>

record 's vault =
  v_CanaryOK :: "('s, bool) state"
  v_Base :: "identity \<Rightarrow> string"
  v_MintToken :: "ctx \<Rightarrow> string list \<Rightarrow> (string \<times> string) list option \<Rightarrow> string \<Rightarrow> ('s, vx_error + mint) state"
  v_RevokeSelf :: "ctx \<Rightarrow> string \<Rightarrow> ('s, vx_error option) state"
  v_ReadIdentity :: "ctx \<Rightarrow> string \<Rightarrow> string \<Rightarrow> ('s, vx_error + string option) state"
  v_ReadConfig :: "ctx \<Rightarrow> string \<Rightarrow> string \<Rightarrow> ('s, vx_error + (string \<times> string) list option) state"
  v_Sweep :: "ctx \<Rightarrow> string \<Rightarrow> identity \<Rightarrow> bool \<Rightarrow> ('s, vx_error + sweepResult) state"

record secret =
  sec_Name :: string
  sec_Value :: string
  sec_Events :: "string list"
  sec_Images :: "string list"

datatype outcome = OutcomeOK | OutcomeUnonboarded | OutcomeIdentityMismatch | OutcomeError

record auditFields =
  PoliciesRequested :: "string list"
  PolicyWarnings :: "string list"
  SecretNames :: "string list"
  TokenAccessor :: string
  TokenTTL :: duration

record result =
  r_Status :: nat
  r_Secrets :: "secret list"
  r_Outcome :: outcome
  r_RevokeFailed :: bool
  r_Audit :: auditFields

record 's broker =
  b_vault :: "'s vault"
  b_policyPrefix :: string
  b_advertiseVaultAddr :: string

text \<open>\<open>broker.New\<close>.\<close>

definition New_broker :: "'s vault \<Rightarrow> string \<Rightarrow> string \<Rightarrow> 's broker" where
  "New_broker v policyPrefix advertiseVaultAddr =
     \<lparr>b_vault = v, b_policyPrefix = policyPrefix, b_advertiseVaultAddr = advertiseVaultAddr\<rparr>"

lemma New_broker_simps [simp]:
  "b_vault (New_broker v pfx addr) = v" "b_policyPrefix (New_broker v pfx addr) = pfx"
  "b_advertiseVaultAddr (New_broker v pfx addr) = addr"
  by (simp_all add: New_broker_def)

section \<open>Warnings of the mint\<close>

text \<open>
  The matcher of \<open>warningPolicyRe\<close>, \<open>(?i)^policy\s+"([^"]*)"\s+does not exist$\<close>. Under case folding
  an \<open>s\<close> also matches the two bytes of U+017F; the class between the quotes stops at the
  first quote, so matching is deterministic.
\<close>

fun match_fold :: "string \<Rightarrow> string \<Rightarrow> string option" where
  "match_fold [] s = Some s"
| "match_fold (p # ps) [] = None"
| "match_fold (p # ps) (c # s) =
     (if lower_byte c = p then match_fold ps s
      else if p = CHR ''s'' \<and> byte_val c = 197 then
        (case s of c2 # s2 \<Rightarrow> if byte_val c2 = 191 then match_fold ps s2 else None | [] \<Rightarrow> None)
      else None)"

definition re_space :: "char \<Rightarrow> bool" where
  "re_space c \<longleftrightarrow> byte_val c \<in> {9, 10, 12, 13, 32}"

definition match_spaces :: "string \<Rightarrow> string option" where
  "match_spaces s = (if s \<noteq> [] \<and> re_space (hd s) then Some (dropWhile re_space s) else None)"

definition match_quote :: "string \<Rightarrow> string option" where
  "match_quote s = (if s \<noteq> [] \<and> hd s = CHR 34 then Some (tl s) else None)"

definition warningPolicyRe :: "string \<Rightarrow> string option" where
  "warningPolicyRe w =
     Option.bind (match_fold ''policy'' w) (\<lambda>s.
     Option.bind (match_spaces s) (\<lambda>s.
     Option.bind (match_quote s) (\<lambda>s.
       let name = takeWhile (\<lambda>c. c \<noteq> CHR 34) s in
     Option.bind (match_quote (dropWhile (\<lambda>c. c \<noteq> CHR 34) s)) (\<lambda>s.
     Option.bind (match_spaces s) (\<lambda>s.
     Option.bind (match_fold ''does not exist'' s) (\<lambda>s.
       if s = [] then Some name else None))))))"

definition warnedNonexistentPolicies :: "string list \<Rightarrow> string list" where
  "warnedNonexistentPolicies warnings = List.map_filter warningPolicyRe warnings"

definition allWarned :: "string list \<Rightarrow> string list \<Rightarrow> bool" where
  "allWarned policies warned = list_all (\<lambda>p. p \<in> set warned) policies"

text \<open>The broker's own \<open>splitTrimCommaList\<close>, which maps the empty string to nil.\<close>

definition splitTrimCommaList_broker :: "string \<Rightarrow> string list" where
  "splitTrimCommaList_broker v = (if v = [] then [] else map trim_space (split_on (CHR '','') v))"

definition secretNames :: "secret list \<Rightarrow> string list" where
  "secretNames ss = map sec_Name ss"

section \<open>Handle\<close>

text \<open>A lookup in a possibly nil map of strings.\<close>

definition config_get :: "(string \<times> string) list option \<Rightarrow> string \<Rightarrow> string" where
  "config_get config k =
     (case config of None \<Rightarrow> [] | Some m \<Rightarrow> (case map_of m k of Some v \<Rightarrow> v | None \<Rightarrow> []))"

text \<open>The closure \<open>finish\<close>.\<close>

definition finish :: "auditFields \<Rightarrow> nat \<Rightarrow> outcome \<Rightarrow> secret list \<Rightarrow> result" where
  "finish audit status out ss =
     \<lparr>r_Status = status, r_Secrets = ss, r_Outcome = out, r_RevokeFailed = False,
      r_Audit = audit\<lparr>SecretNames := secretNames ss\<rparr>\<rparr>"

text \<open>Step 9, the response of a sweep.\<close>

definition build_response ::
  "'s broker \<Rightarrow> identity \<Rightarrow> mint \<Rightarrow> auditFields \<Rightarrow> (string \<times> string) list option \<Rightarrow> sweepResult \<Rightarrow> result" where
  "build_response b ident m audit config sweep =
     (let ss = map (\<lambda>s. \<lparr>sec_Name = Name s, sec_Value = Value s,
                  sec_Events = (if Events s = [] then [Event ident] else Events s), sec_Images = Images s\<rparr>)
                (Secrets sweep);
          suppressed = (config_get config ''vault_token'' = ''false'');
          ss = (if \<not> suppressed
                then ss @ [\<lparr>sec_Name = ''vault_token'', sec_Value = Token m, sec_Events = [Event ident],
                            sec_Images = splitTrimCommaList_broker (config_get config ''vault_token_images'')\<rparr>]
                else ss) in
      if Secrets sweep = [] \<and> suppressed then finish audit 204 OutcomeUnonboarded []
      else
        (let ss = (if b_advertiseVaultAddr b \<noteq> []
                   then ss @ [\<lparr>sec_Name = ''vault_addr'', sec_Value = b_advertiseVaultAddr b,
                               sec_Events = [Event ident], sec_Images = []\<rparr>]
                   else ss) in
         finish audit 200 OutcomeOK ss))"

text \<open>The statements of \<open>Handle\<close> after the mint, which run under the deferred revocation.\<close>

definition handle_minted ::
  "'s broker \<Rightarrow> ctx \<Rightarrow> identity \<Rightarrow> string list \<Rightarrow> auditFields \<Rightarrow> mint \<Rightarrow> ('s, result) state" where
  "handle_minted b ctx ident policies audit m = (
     if TokenType m \<noteq> ''service'' then State_Monad.return (finish audit 502 OutcomeError [])
     else
       let audit = audit\<lparr>PolicyWarnings := warnedNonexistentPolicies (Warnings m)\<rparr> in
       if allWarned policies (PolicyWarnings audit) then
         State_Monad.return (finish audit 204 OutcomeUnonboarded [])
       else do {
         let base = v_Base (b_vault b) ident;
         forgeID \<leftarrow> v_ReadIdentity (b_vault b) ctx (Token m) base;
         case forgeID of
           Inl e \<Rightarrow>
             State_Monad.return
               (if is_malformed e then finish audit 204 OutcomeIdentityMismatch []
                else finish audit 502 OutcomeError [])
         | Inr fid \<Rightarrow>
             if fid \<noteq> None \<and> fid \<noteq> Some (ForgeRemoteID ident) then
               State_Monad.return (finish audit 204 OutcomeIdentityMismatch [])
             else do {
               config \<leftarrow> v_ReadConfig (b_vault b) ctx (Token m) base;
               case config of
                 Inl e \<Rightarrow> State_Monad.return (finish audit 502 OutcomeError [])
               | Inr config \<Rightarrow> do {
                   sweep \<leftarrow> v_Sweep (b_vault b) ctx (Token m) ident (Branchful (Event ident));
                   case sweep of
                     Inl e \<Rightarrow> State_Monad.return (finish audit 502 OutcomeError [])
                   | Inr sweep \<Rightarrow> State_Monad.return (build_response b ident m audit config sweep)
                 }
             }
       })"

text \<open>The deferred function: the only place that revokes, under a context detached from the
  request's.\<close>

definition deferred_revoke :: "'s broker \<Rightarrow> mint \<Rightarrow> result \<Rightarrow> ('s, result) state" where
  "deferred_revoke b m res =
     (if r_Status res \<noteq> 200 then do {
        err \<leftarrow> v_RevokeSelf (b_vault b) CleanupCtx (Token m);
        State_Monad.return (if err \<noteq> None then res\<lparr>r_RevokeFailed := True\<rparr> else res)
      } else State_Monad.return res)"

definition mint_meta :: "identity \<Rightarrow> (string \<times> string) list" where
  "mint_meta ident =
     [(''org'', Org ident), (''repo'', Repo ident), (''event'', Event ident), (''branch'', Branch ident),
      (''pipeline_number'', format_int (PipelineNumber ident)), (''commit'', Commit ident)]"

definition display_name :: "identity \<Rightarrow> string" where
  "display_name ident = ''ironbark-'' @ Org ident @ ''-'' @ Repo ident"

definition early_result :: "auditFields \<Rightarrow> result" where
  "early_result audit =
     \<lparr>r_Status = 502, r_Secrets = [], r_Outcome = OutcomeError, r_RevokeFailed = False, r_Audit = audit\<rparr>"

definition Handle :: "'s broker \<Rightarrow> ctx \<Rightarrow> identity \<Rightarrow> ('s, result) state" where
  "Handle b ctx ident = do {
     let policies = Derive ident (b_policyPrefix b);
     let audit = \<lparr>PoliciesRequested = policies, PolicyWarnings = [], SecretNames = [],
                  TokenAccessor = [], TokenTTL = 0\<rparr>;
     ok \<leftarrow> v_CanaryOK (b_vault b);
     if \<not> ok then State_Monad.return (early_result audit)
     else do {
       r \<leftarrow> v_MintToken (b_vault b) ctx policies (Some (mint_meta ident)) (display_name ident);
       case r of
         Inl e \<Rightarrow> State_Monad.return (early_result audit)
       | Inr m \<Rightarrow> do {
           let audit = audit\<lparr>TokenAccessor := Accessor m, TokenTTL := TTL m\<rparr>;
           res \<leftarrow> handle_minted b ctx ident policies audit m;
           deferred_revoke b m res
         }
     }
   }"

section \<open>The contract of a Vault\<close>

text \<open>
  \<open>reads_by trace frame P\<close>: from the first state to the second the frame is kept, and the trace
  grows by events that satisfy \<open>P\<close>.
\<close>

definition reads_by :: "('s \<Rightarrow> 'e list) \<Rightarrow> ('s \<Rightarrow> 'f) \<Rightarrow> ('e \<Rightarrow> bool) \<Rightarrow> 's \<Rightarrow> 's \<Rightarrow> bool" where
  "reads_by trace frame P s t \<longleftrightarrow> frame t = frame s \<and> (\<exists>new. trace t = trace s @ new \<and> list_all P new)"

text \<open>
  What the broker relies on: asking for the canary is no event and answers what \<open>up\<close> says; a mint and a
  revocation are one event each; the reads are events as the token they are given; and all keep the
  frame, whatever the Vault can promise to keep.
\<close>

locale vault_contract =
  fixes v :: "'s vault"
    and trace :: "'s \<Rightarrow> 'e list" and frame :: "'s \<Rightarrow> 'f" and up :: "'s \<Rightarrow> bool"
    and mint_ev :: "'s \<Rightarrow> ctx \<Rightarrow> string list \<Rightarrow> (string \<times> string) list option \<Rightarrow> string \<Rightarrow> 'e"
    and revoke_ev :: "ctx \<Rightarrow> string \<Rightarrow> 'e"
    and read_ev :: "ctx \<Rightarrow> string \<Rightarrow> 'e \<Rightarrow> bool"
  assumes canary_law: "run_state (v_CanaryOK v) s = (ok, s') \<Longrightarrow>
      ok = up s \<and> frame s' = frame s \<and> trace s' = trace s"
    and mint_law: "run_state (v_MintToken v ctx ps meta dn) s = (r, s') \<Longrightarrow>
      frame s' = frame s \<and> trace s' = trace s @ [mint_ev s ctx ps meta dn]"
    and revoke_law: "run_state (v_RevokeSelf v ctx tok) s = (e, s') \<Longrightarrow>
      frame s' = frame s \<and> trace s' = trace s @ [revoke_ev ctx tok]"
    and identity_law: "state_io_rel (reads_by trace frame (read_ev ctx tok)) (v_ReadIdentity v ctx tok base)"
    and config_law: "state_io_rel (reads_by trace frame (read_ev ctx tok)) (v_ReadConfig v ctx tok base)"
    and sweep_law: "state_io_rel (reads_by trace frame (read_ev ctx tok)) (v_Sweep v ctx tok ident branchful)"

sublocale vault_contract \<subseteq> reads: io_order "reads_by trace frame (read_ev ctx tok)" for ctx tok
proof
  show "reads_by trace frame (read_ev ctx tok) s s" for s by (simp add: reads_by_def)
  show "reads_by trace frame (read_ev ctx tok) s u"
    if "reads_by trace frame (read_ev ctx tok) s t" "reads_by trace frame (read_ev ctx tok) t u" for s t u
    using that by (auto simp: reads_by_def)
qed

context vault_contract begin

lemma minted_reads:
  assumes "b_vault b = v"
  shows "state_io_rel (reads_by trace frame (read_ev ctx (Token m))) (handle_minted b ctx ident ps audit m)"
  unfolding handle_minted_def assms Let_def
  by (auto split: sum.split simp del: state_io_rel_def
      intro!: reads.io_bind reads.io_return identity_law config_law sweep_law)

text \<open>The events of a request, by its outcome; the mint is made in the state after the question for the canary.\<close>

lemma Handle_trace:
  assumes b: "b_vault b = v" and run: "run_state (Handle b ctx ident) s = (res, s')"
  defines "asked \<equiv> snd (run_state (v_CanaryOK v) s)"
  defines "mint \<equiv> v_MintToken v ctx (Derive ident (b_policyPrefix b)) (Some (mint_meta ident)) (display_name ident)"
  defines "ev \<equiv> mint_ev asked ctx (Derive ident (b_policyPrefix b)) (Some (mint_meta ident)) (display_name ident)"
  shows "frame s' = frame s \<and>
    (if \<not> up s then s' = asked \<and> trace s' = trace s \<and> r_Status res = 502
     else case fst (run_state mint asked) of
       Inl e \<Rightarrow> trace s' = trace s @ [ev] \<and> r_Status res = 502
     | Inr m \<Rightarrow> \<exists>reads. list_all (read_ev ctx (Token m)) reads \<and>
         trace s' = trace s @ ev # reads @ (if r_Status res = 200 then [] else [revoke_ev CleanupCtx (Token m)]))"
proof -
  obtain ok s0 where ask: "run_state (v_CanaryOK v) s = (ok, s0)" by fastforce
  have s0: "ok = up s" "frame s0 = frame s" "trace s0 = trace s" using canary_law [OF ask] by auto
  have asked: "asked = s0" by (simp add: asked_def ask)
  show ?thesis
  proof (cases "up s")
    case False
    with run s0 show ?thesis by (auto simp: Handle_def b ask asked Let_def early_result_def)
  next
    case up: True
    obtain r t where mint: "run_state mint s0 = (r, t)" by fastforce
    have t: "frame t = frame s" "trace t = trace s @ [ev]"
      using mint_law [OF mint [unfolded mint_def]] s0 by (simp_all add: ev_def asked)
    show ?thesis
    proof (cases r)
      case (Inl e)
      with run up mint t show ?thesis
        by (auto simp: Handle_def b ask asked s0 mint_def Let_def early_result_def)
    next
      case (Inr m)
      obtain res0 u where body: "run_state (handle_minted b ctx ident (Derive ident (b_policyPrefix b))
          \<lparr>PoliciesRequested = Derive ident (b_policyPrefix b), PolicyWarnings = [], SecretNames = [],
           TokenAccessor = Accessor m, TokenTTL = TTL m\<rparr> m) t = (res0, u)" by fastforce
      have "reads_by trace frame (read_ev ctx (Token m)) t u"
        using state_io_rel_run [OF minted_reads [OF b] body] .
      then obtain reads where u: "frame u = frame t" "trace u = trace t @ reads" "list_all (read_ev ctx (Token m)) reads"
        by (auto simp: reads_by_def)
      have fin: "run_state (deferred_revoke b m res0) u = (res, s')"
        using run up mint Inr body by (simp add: Handle_def b ask s0 mint_def Let_def)
      have "frame s' = frame u \<and> trace s' = trace u @ (if r_Status res = 200 then [] else [revoke_ev CleanupCtx (Token m)])"
      proof (cases "r_Status res0 = 200")
        case True
        with fin show ?thesis by (auto simp: deferred_revoke_def)
      next
        case False
        obtain err w where rv: "run_state (v_RevokeSelf v CleanupCtx (Token m)) u = (err, w)" by fastforce
        from fin False rv revoke_law [OF rv] show ?thesis by (auto simp: deferred_revoke_def b split: if_splits)
      qed
      with up mint Inr t u show ?thesis by (auto simp: asked intro!: exI [of _ reads])
    qed
  qed
qed

text \<open>A response with secrets comes after a canary that was seen passing.\<close>

lemma Handle_up:
  assumes b: "b_vault b = v" and run: "run_state (Handle b ctx ident) s = (res, s')" and "r_Status res \<noteq> 502"
  shows "up s"
  using Handle_trace [OF b run] assms(3) by (auto split: if_splits)

end

section \<open>What the operations keep, the broker keeps\<close>

text \<open>For one identity: the reads are those of its repository.\<close>

locale vault_keeps = io_order R for R :: "'s \<Rightarrow> 's \<Rightarrow> bool" +
  fixes v :: "'s vault" and ident :: identity
  assumes keeps_canary: "state_io_rel R (v_CanaryOK v)"
    and keeps_mint: "state_io_rel R (v_MintToken v ctx ps meta dn)"
    and keeps_revoke: "state_io_rel R (v_RevokeSelf v ctx tok)"
    and keeps_identity: "state_io_rel R (v_ReadIdentity v ctx tok (v_Base v ident))"
    and keeps_config: "state_io_rel R (v_ReadConfig v ctx tok (v_Base v ident))"
    and keeps_sweep: "state_io_rel R (v_Sweep v ctx tok ident (Branchful (Event ident)))"
begin

lemma Handle_keeps:
  assumes "b_vault b = v"
  shows "state_io_rel R (Handle b ctx ident)"
  unfolding Handle_def handle_minted_def deferred_revoke_def assms Let_def
  by (auto split: sum.split simp del: state_io_rel_def
      intro!: io_intros keeps_canary keeps_mint keeps_revoke keeps_identity keeps_config keeps_sweep)

end

section \<open>Two Vaults in step\<close>

text \<open>Two Vaults whose operations run in step, under brokers with the same settings.\<close>

locale vault_simulation =
  fixes R :: "'s \<Rightarrow> 't \<Rightarrow> bool" and v :: "'s vault" and w :: "'t vault"
  assumes sim_base: "v_Base v = v_Base w"
    and sim_canary: "in_step R (v_CanaryOK v) (v_CanaryOK w)"
    and sim_mint: "in_step R (v_MintToken v ctx ps meta dn) (v_MintToken w ctx ps meta dn)"
    and sim_revoke: "in_step R (v_RevokeSelf v ctx tok) (v_RevokeSelf w ctx tok)"
    and sim_identity: "in_step R (v_ReadIdentity v ctx tok base) (v_ReadIdentity w ctx tok base)"
    and sim_config: "in_step R (v_ReadConfig v ctx tok base) (v_ReadConfig w ctx tok base)"
    and sim_sweep: "in_step R (v_Sweep v ctx tok ident branchful) (v_Sweep w ctx tok ident branchful)"
begin

lemma minted_in_step:
  "in_step R (handle_minted (New_broker v pfx addr) ctx ident ps audit m)
     (handle_minted (New_broker w pfx addr) ctx ident ps audit m)"
proof -
  have "build_response (New_broker v pfx addr) = build_response (New_broker w pfx addr)"
    by (intro ext) (simp add: build_response_def Let_def)
  then show ?thesis
    unfolding handle_minted_def Let_def
    by (auto simp: sim_base split: sum.split intro!: in_step_intros sim_identity sim_config sim_sweep)
qed

lemma Handle_in_step:
  "in_step R (Handle (New_broker v pfx addr) ctx ident) (Handle (New_broker w pfx addr) ctx ident)"
proof -
  have "in_step R (deferred_revoke (New_broker v pfx addr) m res) (deferred_revoke (New_broker w pfx addr) m res)" for m res
    by (auto simp: deferred_revoke_def intro!: in_step_intros sim_revoke)
  then show ?thesis
    unfolding Handle_def Let_def
    by (auto split: sum.split intro!: in_step_intros sim_canary sim_mint minted_in_step)
qed

end

end
