(* ===== verification/BrokerProps.thy ===== *)
theory BrokerProps
  imports Broker
begin

text \<open>
  The broker on the client of \<open>internal/vaultx\<close>: the client fulfils the contract of a \<open>Vault\<close>, so
  the calls of a request follow from the contract; then what a request may release, what the
  audit record holds, and how un-onboarded repositories are recognised.
\<close>

text \<open>\<open>*vaultx.Client\<close> as a \<open>Vault\<close> (the assertion \<open>var _ Vault = (*vaultx.Client)(nil)\<close>).\<close>

definition client_vault :: "'w lib \<Rightarrow> vx_config \<Rightarrow> 'w client vault" where
  "client_vault lib cfg =
     \<lparr>v_CanaryOK = do { c \<leftarrow> State_Monad.get; State_Monad.return (CanaryOK c) },
      v_Base = Base cfg, v_MintToken = MintToken lib cfg, v_RevokeSelf = RevokeSelf lib,
      v_ReadIdentity = ReadIdentity lib cfg, v_ReadConfig = ReadConfig lib cfg, v_Sweep = Sweep lib cfg\<rparr>"

definition is_get :: "ctx \<Rightarrow> string \<Rightarrow> api_call \<Rightarrow> bool" where
  "is_get ctx tok x \<longleftrightarrow> (\<exists>path list. x = get_call ctx tok path list)"

lemma grouped_reads: "grouped lib (sweep_group lib cfg ctx tok ts) c d \<Longrightarrow> reads_by calls session_of (is_get ctx tok) c d"
  unfolding grouped_def
proof (induction rule: rtranclp_induct)
  case base
  show ?case by (simp add: reads_by_def)
next
  case (step d e)
  have "list_all (is_get ctx tok) g" if "sweep_group lib cfg ctx tok ts w g" for w g
    using that unfolding sweep_group_def Let_def
    by (elim bexE disjE exE conjE) (auto simp: is_get_def simp del: append_Cons append_Nil)
  then obtain g where "calls e = calls d @ g" "session_of e = session_of d" "list_all (is_get ctx tok) g"
    using step.hyps(2) unfolding group_step_def by blast
  with step.IH show ?case by (auto simp: reads_by_def)
qed

interpretation client: vault_contract "client_vault lib cfg" calls session_of canaryOK
    "\<lambda>c ctx. mint_call cfg ctx (api_token c)" revoke_call is_get for lib cfg
proof
  fix s s' :: "'a client" and ctx ps meta dn r tok e ok
  show "ok = canaryOK s \<and> session_of s' = session_of s \<and> calls s' = calls s"
    if "run_state (v_CanaryOK (client_vault lib cfg)) s = (ok, s')"
    using that by (auto simp: client_vault_def CanaryOK_def)
  show "session_of s' = session_of s \<and> calls s' = calls s @ [mint_call cfg ctx (api_token s) ps meta dn]"
    if "run_state (v_MintToken (client_vault lib cfg) ctx ps meta dn) s = (r, s')"
    using that by (auto simp: client_vault_def session_of_def dest!: run_MintToken)
  show "session_of s' = session_of s \<and> calls s' = calls s @ [revoke_call ctx tok]"
    if "run_state (v_RevokeSelf (client_vault lib cfg) ctx tok) s = (e, s')"
    using that by (auto simp: client_vault_def session_of_def dest!: run_RevokeSelf)
next
  fix ctx tok base
  show "state_io_rel (reads_by calls session_of (is_get ctx tok)) (v_ReadIdentity (client_vault lib cfg) ctx tok base)"
    by (rule state_io_relI')
       (auto simp: client_vault_def run_ReadIdentity reads_by_def session_of_def is_get_def simp del: append_Cons append_Nil)
  show "state_io_rel (reads_by calls session_of (is_get ctx tok)) (v_ReadConfig (client_vault lib cfg) ctx tok base)"
    by (rule state_io_relI')
       (auto simp: client_vault_def run_ReadConfig reads_by_def session_of_def is_get_def simp del: append_Cons append_Nil)
next
  fix ctx tok ident branchful
  show "state_io_rel (reads_by calls session_of (is_get ctx tok)) (v_Sweep (client_vault lib cfg) ctx tok ident branchful)"
    using grouped_Sweep [of lib cfg ctx tok ident branchful]
    by (auto simp: client_vault_def intro: state_io_rel_mono grouped_reads [of lib cfg])
qed

section \<open>The decision\<close>

text \<open>The broker of a configured program.\<close>

definition client_broker :: "'w lib \<Rightarrow> vx_config \<Rightarrow> string \<Rightarrow> string \<Rightarrow> 'w client broker" where
  "client_broker lib cfg policyPrefix addr = New_broker (client_vault lib cfg) policyPrefix addr"

abbreviation request_mint :: "'w lib \<Rightarrow> vx_config \<Rightarrow> ctx \<Rightarrow> string \<Rightarrow> identity \<Rightarrow> ('w client, vx_error + mint) state" where
  "request_mint lib cfg ctx pfx ident \<equiv>
     MintToken lib cfg ctx (Derive ident pfx) (Some (mint_meta ident)) (display_name ident)"

lemma client_broker_simps [simp]:
  "b_vault (client_broker lib cfg pfx addr) = client_vault lib cfg"
  "b_policyPrefix (client_broker lib cfg pfx addr) = pfx"
  "b_advertiseVaultAddr (client_broker lib cfg pfx addr) = addr"
  "v_CanaryOK (client_vault lib cfg) = do { c \<leftarrow> State_Monad.get; State_Monad.return (CanaryOK c) }"
  "v_Base (client_vault lib cfg) = Base cfg"
  "v_MintToken (client_vault lib cfg) = MintToken lib cfg"
  "v_RevokeSelf (client_vault lib cfg) = RevokeSelf lib"
  "v_ReadIdentity (client_vault lib cfg) = ReadIdentity lib cfg"
  "v_ReadConfig (client_vault lib cfg) = ReadConfig lib cfg"
  "v_Sweep (client_vault lib cfg) = Sweep lib cfg"
  by (simp_all add: client_broker_def New_broker_def client_vault_def)

lemma finish_simps [simp]:
  "r_Status (finish audit st out ss) = st" "r_Outcome (finish audit st out ss) = out"
  "r_Secrets (finish audit st out ss) = ss" "r_RevokeFailed (finish audit st out ss) = False"
  "r_Audit (finish audit st out ss) = audit\<lparr>SecretNames := secretNames ss\<rparr>"
  by (simp_all add: finish_def)

lemma build_response_simps:
  "r_Status (build_response b ident m audit config sw) =
     (if Secrets sw = [] \<and> config_get config ''vault_token'' = ''false'' then 204 else 200)"
  "r_Outcome (build_response b ident m audit config sw) =
     (if Secrets sw = [] \<and> config_get config ''vault_token'' = ''false'' then OutcomeUnonboarded else OutcomeOK)"
  "r_RevokeFailed (build_response b ident m audit config sw) = False"
  "r_Audit (build_response b ident m audit config sw) =
     audit\<lparr>SecretNames := secretNames (r_Secrets (build_response b ident m audit config sw))\<rparr>"
  by (simp_all add: build_response_def Let_def)

lemma build_response_secrets:
  "r_Secrets (build_response b ident m audit config sw) =
     (if Secrets sw = [] \<and> config_get config ''vault_token'' = ''false'' then []
      else map (\<lambda>s. \<lparr>sec_Name = Name s, sec_Value = Value s,
                  sec_Events = (if Events s = [] then [Event ident] else Events s), sec_Images = Images s\<rparr>) (Secrets sw)
        @ (if config_get config ''vault_token'' = ''false'' then []
           else [\<lparr>sec_Name = ''vault_token'', sec_Value = Token m, sec_Events = [Event ident],
                  sec_Images = splitTrimCommaList_broker (config_get config ''vault_token_images'')\<rparr>])
        @ (if b_advertiseVaultAddr b = [] then []
           else [\<lparr>sec_Name = ''vault_addr'', sec_Value = b_advertiseVaultAddr b, sec_Events = [Event ident], sec_Images = []\<rparr>]))"
  by (auto simp: build_response_def Let_def)

text \<open>\<open>ok_result\<close>: the results \<open>Handle\<close> can return.\<close>

definition ok_result :: "result \<Rightarrow> bool" where
  "ok_result res \<longleftrightarrow>
     (r_Status res, r_Outcome res) \<in>
       {(200, OutcomeOK), (204, OutcomeUnonboarded), (204, OutcomeIdentityMismatch), (502, OutcomeError)} \<and>
     (r_Secrets res = [] \<longleftrightarrow> r_Status res \<noteq> 200) \<and>
     SecretNames (r_Audit res) = map sec_Name (r_Secrets res) \<and>
     list_all (\<lambda>s. sec_Events s \<noteq> []) (r_Secrets res)"

lemma ok_result_finish: "(st, out) \<in> {(204, OutcomeUnonboarded), (204, OutcomeIdentityMismatch), (502, OutcomeError)} \<Longrightarrow>
    ok_result (finish audit st out [])"
  by (auto simp: ok_result_def secretNames_def)

lemma ok_result_build: "ok_result (build_response b ident m audit config sw)"
  unfolding ok_result_def build_response_simps
  by (auto simp: build_response_secrets secretNames_def list_all_iff)

lemma ok_handle_minted: "ok_result (fst (run_state (handle_minted b ctx ident ps audit m) s))"
  by (auto simp: handle_minted_def Let_def split_beta ok_result_finish ok_result_build split: sum.split)

text \<open>What is decided after the mint, from the results of the reads.\<close>

lemma handle_minted_200:
  "r_Status (fst (run_state (handle_minted b ctx ident ps audit m) s)) = 200 \<longleftrightarrow>
    (\<exists>fid s1 config s2 sw s3. TokenType m = ''service'' \<and>
      \<not> set ps \<subseteq> set (warnedNonexistentPolicies (Warnings m)) \<and>
      run_state (v_ReadIdentity (b_vault b) ctx (Token m) (v_Base (b_vault b) ident)) s = (Inr fid, s1) \<and>
      fid \<in> {None, Some (ForgeRemoteID ident)} \<and>
      run_state (v_ReadConfig (b_vault b) ctx (Token m) (v_Base (b_vault b) ident)) s1 = (Inr config, s2) \<and>
      run_state (v_Sweep (b_vault b) ctx (Token m) ident (Branchful (Event ident))) s2 = (Inr sw, s3) \<and>
      \<not> (Secrets sw = [] \<and> config_get config ''vault_token'' = ''false''))"
proof -
  have "allWarned ps ws \<longleftrightarrow> set ps \<subseteq> set ws" for ws by (auto simp: allWarned_def list_all_iff)
  then show ?thesis
    by (auto simp: handle_minted_def Let_def build_response_simps split: sum.splits prod.splits if_splits)
qed

lemma handle_minted_result:
  assumes "run_state (handle_minted b ctx ident ps audit m) s = (res, s')" and "r_Status res = 200"
  shows "\<exists>fid s1 config s2 sw.
      run_state (v_ReadIdentity (b_vault b) ctx (Token m) (v_Base (b_vault b) ident)) s = (Inr fid, s1) \<and>
      run_state (v_ReadConfig (b_vault b) ctx (Token m) (v_Base (b_vault b) ident)) s1 = (Inr config, s2) \<and>
      run_state (v_Sweep (b_vault b) ctx (Token m) ident (Branchful (Event ident))) s2 = (Inr sw, s') \<and>
      res = build_response b ident m (audit\<lparr>PolicyWarnings := warnedNonexistentPolicies (Warnings m)\<rparr>) config sw"
  using assms by (auto simp: handle_minted_def Let_def split: sum.splits prod.splits if_splits)

lemma run_Handle_minted:
  fixes c :: "'w client"
  assumes "canaryOK c" and "run_state (request_mint lib cfg ctx pfx ident) c = (Inr m, c1)"
  shows "run_state (Handle (client_broker lib cfg pfx addr) ctx ident) c =
    (let (res, c2) = run_state (handle_minted (client_broker lib cfg pfx addr) ctx ident (Derive ident pfx)
        \<lparr>PoliciesRequested = Derive ident pfx, PolicyWarnings = [], SecretNames = [],
         TokenAccessor = Accessor m, TokenTTL = TTL m\<rparr> m) c1
     in run_state (deferred_revoke (client_broker lib cfg pfx addr) m res) c2)"
  using assms by (simp add: Handle_def Let_def CanaryOK_def split_beta)

lemma run_Handle_early:
  "\<not> canaryOK c \<Longrightarrow> run_state (Handle (client_broker lib cfg pfx addr) ctx ident) c =
     (early_result \<lparr>PoliciesRequested = Derive ident pfx, PolicyWarnings = [], SecretNames = [], TokenAccessor = [], TokenTTL = 0\<rparr>, c)"
  "canaryOK c \<Longrightarrow> run_state (request_mint lib cfg ctx pfx ident) c = (Inl e, c1) \<Longrightarrow>
     run_state (Handle (client_broker lib cfg pfx addr) ctx ident) c =
     (early_result \<lparr>PoliciesRequested = Derive ident pfx, PolicyWarnings = [], SecretNames = [], TokenAccessor = [], TokenTTL = 0\<rparr>, c1)"
  by (simp_all add: Handle_def Let_def CanaryOK_def)

lemma deferred_keeps:
  assumes "run_state (deferred_revoke b m res0) s = (res, s')"
  shows "r_Status res = r_Status res0 \<and> (r_Status res0 = 200 \<longrightarrow> res = res0 \<and> s' = s)"
  using assms by (auto simp: deferred_revoke_def split: prod.splits if_splits)

lemma match_fold_self: "list_all (\<lambda>c. lower_byte c = c) ps \<Longrightarrow> match_fold ps (ps @ s) = Some s"
  by (induction ps) simp_all

text \<open>The warning of a Vault for a policy that does not exist.\<close>

definition vault_warning :: "string \<Rightarrow> string" where
  "vault_warning p = ''Policy '' @ CHR 34 # p @ CHR 34 # '' does not exist''"

lemma warningPolicyRe_vault:
  assumes "CHR 34 \<notin> set p"
  shows "warningPolicyRe (vault_warning p) = Some p"
proof -
  have m1: "match_fold ''policy'' (CHR ''P'' # CHR ''o'' # CHR ''l'' # CHR ''i'' # CHR ''c'' # CHR ''y'' # s) = Some s" for s
    by (simp add: lower_byte_def char_of_eq_iff)
  have m2: "match_fold ''does not exist'' ''does not exist'' = Some []"
    using match_fold_self [of "''does not exist''" "[]"] by (simp add: lower_byte_def)
  have q: "takeWhile (\<lambda>c. c \<noteq> CHR 34) (p @ CHR 34 # s) = p" "dropWhile (\<lambda>c. c \<noteq> CHR 34) (p @ CHR 34 # s) = CHR 34 # s" for s
    using assms by (induction p) auto
  show ?thesis
    unfolding warningPolicyRe_def vault_warning_def
    by (simp add: m1 q match_spaces_def match_quote_def re_space_def Let_def m2 del: match_fold.simps)
qed

lemma warned_vault:
  assumes "list_all (\<lambda>p. CHR 34 \<notin> set p) ps" and "set (map vault_warning ps) \<subseteq> set ws"
  shows "allWarned ps (warnedNonexistentPolicies ws)"
  unfolding allWarned_def list_all_iff
proof
  fix p assume p: "p \<in> set ps"
  then have "vault_warning p \<in> set ws" using assms(2) by auto
  moreover have "warningPolicyRe (vault_warning p) = Some p"
    using assms(1) p by (intro warningPolicyRe_vault) (simp add: list_all_iff)
  ultimately show "p \<in> set (warnedNonexistentPolicies ws)"
    by (auto simp: warnedNonexistentPolicies_def List.map_filter_def intro!: rev_image_eqI [of "vault_warning p"])
qed

lemma deferred_ok:
  assumes "run_state (deferred_revoke b m res0) s = (res, s')" and "ok_result res0"
  shows "ok_result res \<and> r_Audit res = r_Audit res0"
  using assms by (auto simp: deferred_revoke_def ok_result_def split: prod.splits if_splits)

text \<open>Whatever the Vault does, a request ends in one of these results, and its audit record has the derived policies.\<close>

lemma handle_minted_policies:
  "PoliciesRequested (r_Audit (fst (run_state (handle_minted b ctx ident ps audit m) s))) = PoliciesRequested audit"
  by (auto simp: handle_minted_def Let_def split_beta build_response_simps split: sum.split)

lemma fst_run_bind: "(\<And>a t. Q (fst (run_state (f a) t))) \<Longrightarrow> Q (fst (run_state (State_Monad.bind m f) s))"
  by (simp add: split_beta)

lemma Handle_ok:
  fixes b :: "'a broker"
  shows "ok_result (fst (run_state (Handle b ctx ident) s)) \<and>
   PoliciesRequested (r_Audit (fst (run_state (Handle b ctx ident) s))) = Derive ident (b_policyPrefix b)"
proof -
  let ?ps = "Derive ident (b_policyPrefix b)"
  let ?audit = "\<lparr>PoliciesRequested = ?ps, PolicyWarnings = [], SecretNames = [], TokenAccessor = [], TokenTTL = 0\<rparr>"
  let ?Q = "\<lambda>res. ok_result res \<and> PoliciesRequested (r_Audit res) = ?ps"
  have early: "?Q (early_result ?audit)" by (simp add: early_result_def ok_result_def)
  have late: "?Q (fst (run_state (State_Monad.bind (handle_minted b ctx ident ?ps a m) (deferred_revoke b m)) t))"
    if "PoliciesRequested a = ?ps" for a m t
  proof -
    obtain res0 u where body: "run_state (handle_minted b ctx ident ?ps a m) t = (res0, u)" by fastforce
    obtain res v where fin: "run_state (deferred_revoke b m res0) u = (res, v)" by fastforce
    have "?Q res0"
      using ok_handle_minted [of b ctx ident ?ps a m t] handle_minted_policies [of b ctx ident ?ps a m t] that by (simp add: body)
    then show ?thesis using deferred_ok [OF fin] by (simp add: body fin)
  qed
  have "?Q (fst (run_state (Handle b ctx ident) s))"
    unfolding Handle_def Let_def
  proof (rule fst_run_bind [where Q = ?Q])
    fix ok t
    show "?Q (fst (run_state (if \<not> ok then State_Monad.return (early_result ?audit)
        else do {
          r \<leftarrow> v_MintToken (b_vault b) ctx ?ps (Some (mint_meta ident)) (display_name ident);
          case r of Inl e \<Rightarrow> State_Monad.return (early_result ?audit)
          | Inr m \<Rightarrow> State_Monad.bind (handle_minted b ctx ident ?ps (?audit\<lparr>TokenAccessor := Accessor m, TokenTTL := TTL m\<rparr>) m)
              (deferred_revoke b m) }) t))"
    proof (cases ok)
      case False
      then show ?thesis using early by simp
    next
      case True
      then have otherwise: "(if \<not> ok then x else y) = y" for x y :: "('a, result) state" by simp
      show ?thesis
        unfolding otherwise
      proof (rule fst_run_bind [where Q = ?Q])
        fix r u
        show "?Q (fst (run_state (case r of Inl e \<Rightarrow> State_Monad.return (early_result ?audit)
            | Inr m \<Rightarrow> State_Monad.bind (handle_minted b ctx ident ?ps (?audit\<lparr>TokenAccessor := Accessor m, TokenTTL := TTL m\<rparr>) m)
                (deferred_revoke b m)) u))"
          using early late by (cases r) (simp_all del: run_state_bind)
      qed
    qed
  qed
  then show ?thesis .
qed

section \<open>Sample requests\<close>

definition sample_client :: "'w \<Rightarrow> 'w client" where
  "sample_client w = (New False w)\<lparr>canaryOK := True\<rparr>"

lemma sample_client_simps [simp]:
  "canaryOK (sample_client w)" "world (sample_client w) = w" "calls (sample_client w) = []"
  "api_token (sample_client w) = []" "metrics_set (sample_client w) = False"
  by (simp_all add: sample_client_def New_def)

definition mint_reply :: "string list \<Rightarrow> raw_reply" where
  "mint_reply ws = RawOK (Some (JObj [(''warnings'', JArr (map JStr ws)), (''auth'', JObj
     [(''client_token'', JStr ''tok''), (''accessor'', JStr ''acc''), (''token_type'', JStr ''service''),
      (''lease_duration'', JNum ''600'')])]))"

definition sample_mint :: "string list \<Rightarrow> mint" where
  "sample_mint ws = \<lparr>Token = ''tok'', Accessor = ''acc'', TokenType = ''service'', TTL = lease_ttl 600,
     Renewable = False, Orphan = None, Warnings = ws\<rparr>"

lemma mint_of_reply: "mint_reply ws = RawOK b \<Longrightarrow> mint_of_body b = Inr (sample_mint ws)"
  by (auto simp: mint_reply_def mint_of_body_def dec_mint_response_def dec_mint_auth_def decode_eval
      zero_mint_response_def zero_mint_auth_def sample_mint_def dec_slice_strings simp del: dec_slice.simps)

lemma run_mint_scripted:
  "run_state (MintToken scripted cfg ctx ps meta dn) (sample_client (mint_reply ws # rs)) =
     (Inr (sample_mint ws), (sample_client rs)\<lparr>calls := [mint_call cfg ctx [] ps meta dn]\<rparr>)"
proof -
  obtain b where b: "mint_reply ws = RawOK b" by (simp add: mint_reply_def)
  show ?thesis
    by (simp add: MintToken_def run_rawRequest b mint_of_reply [OF b] mint_call_def sample_client_def New_def)
qed

text \<open>A request for the sample repository: four secrets are served.\<close>

lemma run_mint_sample:
  "\<exists>c'. run_state (MintToken (frozen sample_site) sample_vx ctx ps meta dn) c = (Inr (sample_mint []), c')"
proof -
  have "sample_site rq = mint_reply [] \<or> sample_site rq = RawOK (Some (JObj [(''auth'', JObj
        [(''client_token'', JStr ''tok''), (''accessor'', JStr ''acc''), (''token_type'', JStr ''service''),
         (''lease_duration'', JNum ''600'')])]))"
    if "rq_path rq = ''/v1/auth/token/create/ci''" for rq
    by (simp add: sample_site_def site_def that)
  moreover have "mint_of_body (Some (JObj [(''auth'', JObj
        [(''client_token'', JStr ''tok''), (''accessor'', JStr ''acc''), (''token_type'', JStr ''service''),
         (''lease_duration'', JNum ''600'')])])) = Inr (sample_mint [])"
    by (simp add: mint_of_body_def dec_mint_response_def dec_mint_auth_def decode_eval
        zero_mint_response_def zero_mint_auth_def sample_mint_def)
  ultimately show ?thesis
    by (auto simp: MintToken_def run_rawRequest sample_vx_def sample_site_def site_def)
qed

lemma sample_absent:
  "\<exists>c'. run_state (ReadIdentity (frozen sample_site) sample_vx ctx tok ''ci/acme/widgets'') c = (Inr None, c')"
  "\<exists>c'. run_state (ReadConfig (frozen sample_site) sample_vx ctx tok ''ci/acme/widgets'') c = (Inr None, c')"
  by (simp_all add: run_ReadIdentity run_ReadConfig identity_path_def config_path_def sample_vx_def
      sample_site_def site_def identity_of_reply_def config_of_reply_def classify_get_def)

definition sample_secrets :: "secret list" where
  "sample_secrets =
     [\<lparr>sec_Name = ''api_key_id'', sec_Value = ''7'', sec_Events = [''tag''], sec_Images = []\<rparr>,
      \<lparr>sec_Name = ''npm'', sec_Value = ''n1'', sec_Events = [''tag''], sec_Images = []\<rparr>,
      \<lparr>sec_Name = ''npm_pw'', sec_Value = ''x'', sec_Events = [''tag''], sec_Images = []\<rparr>,
      \<lparr>sec_Name = ''vault_token'', sec_Value = ''tok'', sec_Events = [''tag''], sec_Images = []\<rparr>]"

lemma sample_Handle:
  "\<exists>res c'. run_state (Handle (client_broker (frozen sample_site) sample_vx ''ci'' []) RequestCtx (sample_identity ''tag'' []))
      (sample_client ()) = (res, c') \<and> r_Status res = 200 \<and> r_Secrets res = sample_secrets"
proof -
  let ?id = "sample_identity ''tag'' []"
  obtain c1 where m: "run_state (request_mint (frozen sample_site) sample_vx RequestCtx ''ci'' ?id) (sample_client ())
      = (Inr (sample_mint []), c1)" using run_mint_sample by blast
  obtain c2 where i: "run_state (ReadIdentity (frozen sample_site) sample_vx RequestCtx ''tok'' ''ci/acme/widgets'') c1 = (Inr None, c2)"
    using sample_absent(1) by blast
  obtain c3 where k: "run_state (ReadConfig (frozen sample_site) sample_vx RequestCtx ''tok'' ''ci/acme/widgets'') c2 = (Inr None, c3)"
    using sample_absent(2) by blast
  obtain c4 where w: "run_state (Sweep (frozen sample_site) sample_vx RequestCtx ''tok'' ?id False) c3 = (Inr sample_swept, c4)"
    using sample_run by blast
  have b: "Base sample_vx ?id = ''ci/acme/widgets''" "Branchful ''tag'' = False" "Event ?id = ''tag''"
    by (simp_all add: Base_def sample_vx_def sample_identity_def Branchful_iff)
  have wn: "allWarned (Derive ?id ''ci'') (warnedNonexistentPolicies []) = False"
    by (simp add: Derive_def Let_def allWarned_def warnedNonexistentPolicies_def)
  show ?thesis
    unfolding run_Handle_minted [OF sample_client_simps(1) m]
    by (simp add: handle_minted_def sample_mint_def wn b i k w deferred_revoke_def build_response_simps
        build_response_secrets config_get_def splitTrimCommaList_broker_def sample_swept_def sample_secrets_def Let_def split_beta)
qed

section \<open>Properties\<close>

text \<open>Revocation by outcome. A request makes no call while the canary has not passed. Otherwise it
  makes one mint, as ironbark; if a token came back, every further call is a read as that
  token under the request's context, and then, exactly when the status is not 200, one last call
  revokes the token as itself under the detached clean-up context. The session and the canary state are as before.\<close>

theorem Handle_revokes:
  "let (res, c') = run_state (Handle (client_broker lib cfg pfx addr) ctx ident) c;
       mint = mint_call cfg ctx (api_token c) (Derive ident pfx) (Some (mint_meta ident)) (display_name ident) in
   session_of c' = session_of c \<and>
   (if \<not> canaryOK c then c' = c \<and> r_Status res = 502
    else case fst (run_state (request_mint lib cfg ctx pfx ident) c) of
      Inl e \<Rightarrow> calls c' = calls c @ [mint] \<and> r_Status res = 502
    | Inr m \<Rightarrow> \<exists>gets. list_all (\<lambda>x. \<exists>path list. x = get_call ctx (Token m) path list) gets \<and>
        calls c' = calls c @ mint # gets @ (if r_Status res = 200 then [] else [revoke_call CleanupCtx (Token m)]))"
proof -
  obtain res c' where run: "run_state (Handle (client_broker lib cfg pfx addr) ctx ident) c = (res, c')" by fastforce
  have is_get: "(\<lambda>x. \<exists>path list. x = get_call ctx tok path list) = is_get ctx tok" for tok
    by (rule ext) (simp add: is_get_def)
  show ?thesis
    using client.Handle_trace [OF _ run, of lib cfg, simplified client_broker_simps]
    unfolding run Let_def split is_get by (auto split: sum.splits if_splits)
qed

text \<open>The responses: the status is 200, 204 or 502 and agrees with the outcome of the audit record;
  a response carries secrets exactly when its status is 200 (so a response with only
  a Vault address, or an empty 200, does not occur); and the audit record names exactly
  the secrets of the response.\<close>

theorem Handle_result:
  fixes c :: "'w client"
  shows "let res = fst (run_state (Handle (client_broker lib cfg pfx addr) ctx ident) c) in
   (r_Status res, r_Outcome res) \<in>
     {(200, OutcomeOK), (204, OutcomeUnonboarded), (204, OutcomeIdentityMismatch), (502, OutcomeError)} \<and>
   (r_Secrets res = [] \<longleftrightarrow> r_Status res \<noteq> 200) \<and>
   SecretNames (r_Audit res) = map sec_Name (r_Secrets res) \<and>
   PoliciesRequested (r_Audit res) = Derive ident pfx"
  using Handle_ok [of "client_broker lib cfg pfx addr" ctx ident c] by (simp add: ok_result_def Let_def)

text \<open>C3. Secrets are released (status 200) exactly when the canary has passed, the mint gave a service token, some
  requested policy exists, the identity binding is absent or names the forge identity of the
  payload, the configuration and the sweep could be read, and there is something to
  serve.\<close>

theorem Handle_releases_iff:
  fixes c :: "'w client"
  shows "r_Status (fst (run_state (Handle (client_broker lib cfg pfx addr) ctx ident) c)) = 200 \<longleftrightarrow>
    canaryOK c \<and>
    (\<exists>m c1 fid c2 config c3 sw c4.
       run_state (request_mint lib cfg ctx pfx ident) c = (Inr m, c1) \<and> TokenType m = ''service'' \<and>
       \<not> set (Derive ident pfx) \<subseteq> set (warnedNonexistentPolicies (Warnings m)) \<and>
       run_state (ReadIdentity lib cfg ctx (Token m) (Base cfg ident)) c1 = (Inr fid, c2) \<and>
       fid \<in> {None, Some (ForgeRemoteID ident)} \<and>
       run_state (ReadConfig lib cfg ctx (Token m) (Base cfg ident)) c2 = (Inr config, c3) \<and>
       run_state (Sweep lib cfg ctx (Token m) ident (Branchful (Event ident))) c3 = (Inr sw, c4) \<and>
       \<not> (Secrets sw = [] \<and> config_get config ''vault_token'' = ''false''))"
  (is "?lhs \<longleftrightarrow> canaryOK c \<and> ?stages")
proof (cases "canaryOK c")
  case False
  then show ?thesis by (simp add: run_Handle_early early_result_def)
next
  case up: True
  obtain r c1 where mint: "run_state (request_mint lib cfg ctx pfx ident) c = (r, c1)" by fastforce
  show ?thesis
  proof (cases r)
    case (Inl e)
    with up mint run_Handle_early(2) [OF up mint [unfolded Inl]] show ?thesis by (simp add: early_result_def)
  next
    case (Inr m)
    let ?audit = "\<lparr>PoliciesRequested = Derive ident pfx, PolicyWarnings = [], SecretNames = [],
         TokenAccessor = Accessor m, TokenTTL = TTL m\<rparr>"
    obtain res0 d where body: "run_state (handle_minted (client_broker lib cfg pfx addr) ctx ident
        (Derive ident pfx) ?audit m) c1 = (res0, d)" by fastforce
    obtain res c' where fin: "run_state (deferred_revoke (client_broker lib cfg pfx addr) m res0) d = (res, c')"
      by fastforce
    have "?lhs \<longleftrightarrow> r_Status res0 = 200"
      using run_Handle_minted [OF up mint [unfolded Inr], of addr] deferred_keeps [OF fin] by (simp add: body fin)
    also have "\<dots> \<longleftrightarrow> ?stages"
      using handle_minted_200 [of "client_broker lib cfg pfx addr" ctx ident "Derive ident pfx" ?audit m c1]
      unfolding body fst_conv client_broker_simps mint Inr by simp
    finally show ?thesis using up by simp
  qed
qed

text \<open>C6. What a 200 carries: every secret of the sweep, in order, with its pins (the event of
  the request when it has no event pin); then the minted token as \<open>vault_token\<close>, unless the configuration suppresses
  it, with the images the configuration pins it to; then \<open>vault_addr\<close>, when an address is configured; and nothing else.\<close>

theorem Handle_response:
  fixes c :: "'w client"
  assumes run: "run_state (Handle (client_broker lib cfg pfx addr) ctx ident) c = (res, c')"
    and ok: "r_Status res = 200"
  shows "\<exists>m c1 fid c2 config c3 sw.
     run_state (request_mint lib cfg ctx pfx ident) c = (Inr m, c1) \<and>
     run_state (ReadIdentity lib cfg ctx (Token m) (Base cfg ident)) c1 = (Inr fid, c2) \<and>
     run_state (ReadConfig lib cfg ctx (Token m) (Base cfg ident)) c2 = (Inr config, c3) \<and>
     run_state (Sweep lib cfg ctx (Token m) ident (Branchful (Event ident))) c3 = (Inr sw, c') \<and>
     r_Secrets res =
       map (\<lambda>s. \<lparr>sec_Name = Name s, sec_Value = Value s,
                 sec_Events = (if Events s = [] then [Event ident] else Events s), sec_Images = Images s\<rparr>) (Secrets sw)
       @ (if config_get config ''vault_token'' = ''false'' then []
          else [\<lparr>sec_Name = ''vault_token'', sec_Value = Token m, sec_Events = [Event ident],
                 sec_Images = splitTrimCommaList_broker (config_get config ''vault_token_images'')\<rparr>])
       @ (if addr = [] then []
          else [\<lparr>sec_Name = ''vault_addr'', sec_Value = addr, sec_Events = [Event ident], sec_Images = []\<rparr>])"
proof -
  have up: "canaryOK c"
    using run ok run_Handle_early(1) [of c lib cfg pfx addr ctx ident] by (cases "canaryOK c") (auto simp: early_result_def)
  obtain r c1 where mint: "run_state (request_mint lib cfg ctx pfx ident) c = (r, c1)" by fastforce
  obtain m where r: "r = Inr m"
    using run ok mint run_Handle_early(2) [OF up, of lib cfg ctx ident pfx _ c1 addr]
    by (cases r) (auto simp: early_result_def)
  let ?audit = "\<lparr>PoliciesRequested = Derive ident pfx, PolicyWarnings = [], SecretNames = [],
       TokenAccessor = Accessor m, TokenTTL = TTL m\<rparr>"
  obtain res0 d where body: "run_state (handle_minted (client_broker lib cfg pfx addr) ctx ident
      (Derive ident pfx) ?audit m) c1 = (res0, d)" by fastforce
  have fin: "run_state (deferred_revoke (client_broker lib cfg pfx addr) m res0) d = (res, c')"
    using run run_Handle_minted [OF up mint [unfolded r], of addr] by (simp add: body)
  then have "res = res0" "c' = d" "r_Status res0 = 200" using deferred_keeps [OF fin] ok by simp_all
  from handle_minted_result [OF body this(3)] this(1,2) obtain fid c2 config c3 sw where stages:
    "run_state (ReadIdentity lib cfg ctx (Token m) (Base cfg ident)) c1 = (Inr fid, c2)"
    "run_state (ReadConfig lib cfg ctx (Token m) (Base cfg ident)) c2 = (Inr config, c3)"
    "run_state (Sweep lib cfg ctx (Token m) ident (Branchful (Event ident))) c3 = (Inr sw, c')"
    and res: "res = build_response (client_broker lib cfg pfx addr) ident m
        (?audit\<lparr>PolicyWarnings := warnedNonexistentPolicies (Warnings m)\<rparr>) config sw"
    unfolding client_broker_simps by blast
  have "\<not> (Secrets sw = [] \<and> config_get config ''vault_token'' = ''false'')"
    using ok unfolding res build_response_simps by (simp split: if_splits)
  then have "r_Secrets res =
       map (\<lambda>s. \<lparr>sec_Name = Name s, sec_Value = Value s,
                 sec_Events = (if Events s = [] then [Event ident] else Events s), sec_Images = Images s\<rparr>) (Secrets sw)
       @ (if config_get config ''vault_token'' = ''false'' then []
          else [\<lparr>sec_Name = ''vault_token'', sec_Value = Token m, sec_Events = [Event ident],
                 sec_Images = splitTrimCommaList_broker (config_get config ''vault_token_images'')\<rparr>])
       @ (if addr = [] then []
          else [\<lparr>sec_Name = ''vault_addr'', sec_Value = addr, sec_Events = [Event ident], sec_Images = []\<rparr>])"
    unfolding res build_response_secrets client_broker_simps by (simp only: if_False)
  with mint r stages show ?thesis by blast
qed

theorem Handle_response_witness:
  "\<exists>m c1. run_state (request_mint (frozen sample_site) sample_vx RequestCtx ''ci'' (sample_identity ''tag'' [])) (sample_client ())
       = (Inr m, c1) \<and>
     \<lparr>sec_Name = ''vault_token'', sec_Value = Token m, sec_Events = [''tag''], sec_Images = []\<rparr> \<in> set sample_secrets"
proof -
  obtain res c' where run: "run_state (Handle (client_broker (frozen sample_site) sample_vx ''ci'' []) RequestCtx (sample_identity ''tag'' []))
      (sample_client ()) = (res, c')" "r_Status res = 200" "r_Secrets res = sample_secrets"
    using sample_Handle by blast
  have e: "Event (sample_identity ''tag'' []) = ''tag''" "Base sample_vx (sample_identity ''tag'' []) = ''ci/acme/widgets''"
    by (simp_all add: sample_identity_def Base_def sample_vx_def)
  from Handle_response [OF run(1,2)] show ?thesis
    unfolding run(3) e
  proof (elim exE conjE, goal_cases)
    case (1 m c1 fid c2 config c3 sw)
    obtain c3' where "run_state (ReadConfig (frozen sample_site) sample_vx RequestCtx (Token m) ''ci/acme/widgets'') c2 = (Inr None, c3')"
      using sample_absent(2) by blast
    with 1(3) have none: "config = None" by simp
    have "\<lparr>sec_Name = ''vault_token'', sec_Value = Token m, sec_Events = [''tag''], sec_Images = []\<rparr> \<in> set sample_secrets"
      by (subst 1(5)) (simp add: none config_get_def splitTrimCommaList_broker_def)
    with 1(1) show ?case by blast
  qed
qed

text \<open>C8. An un-onboarded repository gets nothing and is not read: when the server warns, in its own words, for every
  requested policy (none with a double quote in its name) that it does not exist, the response is a 204, and the
  only calls are the mint and the revocation of its token.\<close>

theorem Handle_unonboarded:
  fixes c :: "'w client"
  assumes up: "canaryOK c"
    and mint: "run_state (request_mint lib cfg ctx pfx ident) c = (Inr m, c1)"
    and service: "TokenType m = ''service''"
    and quotes: "list_all (\<lambda>p. CHR 34 \<notin> set p) (Derive ident pfx)"
    and warned: "set (map vault_warning (Derive ident pfx)) \<subseteq> set (Warnings m)"
    and run: "run_state (Handle (client_broker lib cfg pfx addr) ctx ident) c = (res, c')"
  shows "r_Status res = 204 \<and> r_Outcome res = OutcomeUnonboarded \<and> r_Secrets res = [] \<and>
     calls c' = calls c @ [mint_call cfg ctx (api_token c) (Derive ident pfx) (Some (mint_meta ident)) (display_name ident),
                           revoke_call CleanupCtx (Token m)]"
proof -
  have "calls c1 = calls c @ [mint_call cfg ctx (api_token c) (Derive ident pfx) (Some (mint_meta ident)) (display_name ident)]"
    using run_MintToken [OF mint] by auto
  moreover obtain rv d where rv: "run_state (RevokeSelf lib CleanupCtx (Token m)) c1 = (rv, d)" by fastforce
  moreover have "calls d = calls c1 @ [revoke_call CleanupCtx (Token m)]" using run_RevokeSelf [OF rv] by auto
  ultimately show ?thesis
    using run run_Handle_minted [OF up mint, of addr] warned_vault [OF quotes warned] service
    by (auto simp: handle_minted_def deferred_revoke_def Let_def rv split: if_splits)
qed

theorem Handle_unonboarded_witness:
  "r_Status (fst (run_state (Handle (client_broker scripted sample_vx ''ci'' []) RequestCtx (sample_identity ''tag'' []))
     (sample_client [mint_reply [vault_warning ''ci/acme/widgets/tag''], RawOK None]))) = 204"
proof -
  let ?c = "sample_client [mint_reply [vault_warning ''ci/acme/widgets/tag''], RawOK None]"
  let ?id = "sample_identity ''tag'' []"
  have D: "Derive ?id ''ci'' = [''ci/acme/widgets/tag'']"
    by (simp add: Derive_def Let_def sample_identity_def Branchful_iff)
  obtain res c' where run: "run_state (Handle (client_broker scripted sample_vx ''ci'' []) RequestCtx ?id) ?c = (res, c')"
    by fastforce
  from Handle_unonboarded [OF sample_client_simps(1) run_mint_scripted _ _ _ run]
  show ?thesis by (simp add: run sample_mint_def D)
qed

text \<open>C7. The identity binding is checked before anything else is read: when \<open>.identity\<close> does not name the forge
  identity of the payload (it names another, is malformed, or cannot be read for a reason other than 403 and 404), the
  token is revoked after that one read, and the response is a 204, or a 502 for the read error.\<close>

theorem Handle_binding:
  fixes c :: "'w client"
  assumes up: "canaryOK c"
    and mint: "run_state (request_mint lib cfg ctx pfx ident) c = (Inr m, c1)"
    and service: "TokenType m = ''service''"
    and onboarded: "\<not> set (Derive ident pfx) \<subseteq> set (warnedNonexistentPolicies (Warnings m))"
    and bound: "run_state (ReadIdentity lib cfg ctx (Token m) (Base cfg ident)) c1 = (fid, c2)"
    and mismatch: "fid \<notin> {Inr None, Inr (Some (ForgeRemoteID ident))}"
    and run: "run_state (Handle (client_broker lib cfg pfx addr) ctx ident) c = (res, c')"
  shows "r_Status res = (case fid of Inr _ \<Rightarrow> 204 | Inl e \<Rightarrow> if is_malformed e then 204 else 502) \<and>
     r_Secrets res = [] \<and>
     calls c' = calls c @ [mint_call cfg ctx (api_token c) (Derive ident pfx) (Some (mint_meta ident)) (display_name ident),
                           get_call ctx (Token m) (cfg_KVMount cfg @ ''/data/'' @ Base cfg ident @ ''/.identity'') False,
                           revoke_call CleanupCtx (Token m)]"
proof -
  have "calls c1 = calls c @ [mint_call cfg ctx (api_token c) (Derive ident pfx) (Some (mint_meta ident)) (display_name ident)]"
    using run_MintToken [OF mint] by auto
  moreover have "calls c2 = calls c1 @ [get_call ctx (Token m) (identity_path cfg (Base cfg ident)) False]"
    using bound by (auto simp: run_ReadIdentity)
  moreover obtain rv d where rv: "run_state (RevokeSelf lib CleanupCtx (Token m)) c2 = (rv, d)" by fastforce
  moreover have "calls d = calls c2 @ [revoke_call CleanupCtx (Token m)]" using run_RevokeSelf [OF rv] by auto
  moreover have "\<not> allWarned (Derive ident pfx) (warnedNonexistentPolicies (Warnings m))"
    using onboarded by (auto simp: allWarned_def list_all_iff)
  ultimately show ?thesis
    using run run_Handle_minted [OF up mint, of addr] service mismatch
    unfolding identity_path_def [symmetric]
    by (cases fid) (auto simp: handle_minted_def deferred_revoke_def Let_def bound rv split: if_splits)
qed

theorem Handle_binding_witness:
  "r_Status (fst (run_state (Handle (client_broker scripted sample_vx ''ci'' []) RequestCtx (sample_identity ''tag'' []))
     (sample_client [mint_reply [],
        RawOK (Some (JObj [(''data'', JObj [(''data'', JObj [(''forge_remote_id'', JStr ''8'')])])])), RawOK None]))) = 204"
proof -
  let ?r = "RawOK (Some (JObj [(''data'', JObj [(''data'', JObj [(''forge_remote_id'', JStr ''8'')])])]))"
  let ?id = "sample_identity ''tag'' []"
  have D: "Derive ?id ''ci'' = [''ci/acme/widgets/tag'']"
    by (simp add: Derive_def Let_def sample_identity_def Branchful_iff)
  have i: "identity_of_reply p ?r = Inr (Some ''8'')" for p
    by (simp add: identity_of_reply_def classify_get_def DecodeJSON_def dec_identity_def find_field_def dec_raw_def)
  obtain res c' where run: "run_state (Handle (client_broker scripted sample_vx ''ci'' []) RequestCtx ?id)
      (sample_client [mint_reply [], ?r, RawOK None]) = (res, c')" by fastforce
  from Handle_binding [OF sample_client_simps(1) run_mint_scripted _ _ run_ReadIdentity _ run]
  have "r_Status res = 204"
    by (simp add: sample_mint_def D warnedNonexistentPolicies_def i) (simp add: sample_identity_def)
  with run show ?thesis by simp
qed

text \<open>Collisions: the names of a response's secrets are distinct unless the sweep itself yields
  \<open>vault_token\<close> or \<open>vault_addr\<close>. Those two names are not reserved: an entry of the repository called \<open>vault_token\<close> is
  served beside the minted token under the same name.\<close>

theorem reserved_names:
  assumes "distinct (map Name (Secrets sw))" and "Secrets sw \<noteq> []"
  shows "distinct (map sec_Name (r_Secrets (build_response b ident m audit config sw))) \<longleftrightarrow>
     \<not> (config_get config ''vault_token'' \<noteq> ''false'' \<and> ''vault_token'' \<in> Name ` set (Secrets sw)) \<and>
     \<not> (b_advertiseVaultAddr b \<noteq> [] \<and> ''vault_addr'' \<in> Name ` set (Secrets sw))"
  using assms by (auto simp: build_response_secrets comp_def)

theorem reserved_names_witness:
  "\<not> distinct (map sec_Name (r_Secrets (build_response (client_broker scripted sample_vx ''ci'' []) (sample_identity ''tag'' [])
     (sample_mint []) \<lparr>PoliciesRequested = [], PolicyWarnings = [], SecretNames = [], TokenAccessor = [], TokenTTL = 0\<rparr> None
     \<lparr>Secrets = [\<lparr>Name = ''vault_token'', Value = ''x'', Images = [], Events = []\<rparr>], LeasesCreated = False\<rparr>)))"
  by (subst reserved_names) (simp_all add: config_get_def)

end
