(* ===== verification/Wpsign.thy ===== *)
theory Wpsign
  imports GoTime
begin

text \<open>
  Package \<open>internal/wpsign\<close>: the verification of the signature on a request. The signature library
  (\<open>github.com/yaronf/httpsign\<close>) is not part of the repository: it is the record \<open>sig_lib\<close>, one
  function per call the code makes of it, with error texts as strings. The checks the code
  makes itself, their order, the classification of the library's errors and the freshness window
  on 64-bit durations are the model.
\<close>

section \<open>Data\<close>

text \<open>What the code reads of an incoming request. Headers have canonical names, as the server of
  \<open>net/http\<close> stores them; the body stands apart, as the bytes the caller has read.\<close>

record http_request =
  hr_Method :: string
  hr_Path :: string          \<comment> \<open>the escaped path of the URL\<close>
  hr_Header :: "(string \<times> string list) list"
  hr_RemoteAddr :: string

text \<open>\<open>Header.Values\<close> and \<open>Header.Get\<close> (for a name in canonical form).\<close>

definition header_Values :: "http_request \<Rightarrow> string \<Rightarrow> string list" where
  "header_Values r name = (case map_of (hr_Header r) name of Some vs \<Rightarrow> vs | None \<Rightarrow> [])"

definition header_Get :: "http_request \<Rightarrow> string \<Rightarrow> string" where
  "header_Get r name = (case header_Values r name of v # _ \<Rightarrow> v | [] \<Rightarrow> [])"

text \<open>The calls of the signature library: a verifier for a key, a flag for the library's own check of
  the creation time, and the components to be covered; the verification of a request under a signature name; the
  check of digest headers against a body; and the creation time among a signature's details.\<close>

record 'v sig_lib =
  sl_newVerifier :: "string \<Rightarrow> bool \<Rightarrow> string list \<Rightarrow> string + 'v"
  sl_verifyRequest :: "string \<Rightarrow> 'v \<Rightarrow> http_request \<Rightarrow> string option"
  sl_validateDigest :: "string list \<Rightarrow> string \<Rightarrow> string list \<Rightarrow> string option"
  sl_details :: "string \<Rightarrow> http_request \<Rightarrow> string + instant option"

datatype reason =
    ReasonMissingSignature | ReasonUnparseable | ReasonWrongKey | ReasonDigestMismatch
  | ReasonUncoveredComponent | ReasonMissingCreated | ReasonStaleCreated

fun reason_text :: "reason \<Rightarrow> string" where
  "reason_text ReasonMissingSignature = ''missing_signature''"
| "reason_text ReasonUnparseable = ''unparseable''"
| "reason_text ReasonWrongKey = ''wrong_key''"
| "reason_text ReasonDigestMismatch = ''digest_mismatch''"
| "reason_text ReasonUncoveredComponent = ''uncovered_component''"
| "reason_text ReasonMissingCreated = ''missing_created''"
| "reason_text ReasonStaleCreated = ''stale_created''"

record verify_error =
  ve_Reason :: reason
  ve_Err :: "string option"

definition verify_error_text :: "verify_error \<Rightarrow> string" where
  "verify_error_text e =
     (case ve_Err e of
        Some err \<Rightarrow> ''wpsign: '' @ reason_text (ve_Reason e) @ '': '' @ err
      | None \<Rightarrow> ''wpsign: '' @ reason_text (ve_Reason e))"

section \<open>Operations\<close>

definition signatureName :: string where
  "signatureName = ''woodpecker-ci-extensions''"

definition requiredComponents :: "string list" where
  "requiredComponents = [''@request-target'', ''content-digest'']"

definition classifyVerifyError :: "string \<Rightarrow> reason" where
  "classifyVerifyError msg =
     (if str_contains msg ''does not cover all required fields'' then ReasonUncoveredComponent
      else if str_contains msg ''signature verification failed'' then ReasonWrongKey
      else if str_contains msg ''content-digest'' then ReasonDigestMismatch
      else ReasonUnparseable)"

text \<open>The comparison of the drift, signed and on 64 bits: \<open>-window\<close> wraps for the least duration.\<close>

definition stale :: "duration \<Rightarrow> duration \<Rightarrow> bool" where
  "stale window drift \<longleftrightarrow> window <s drift \<or> drift <s - window"

definition Verify :: "'v sig_lib \<Rightarrow> http_request \<Rightarrow> string \<Rightarrow> string \<Rightarrow> duration \<Rightarrow> instant \<Rightarrow> verify_error option" where
  "Verify sl r body pub window now =
     (if header_Get r ''Signature'' = [] \<or> header_Get r ''Signature-Input'' = [] then
        Some \<lparr>ve_Reason = ReasonMissingSignature, ve_Err = None\<rparr>
      else
        (case sl_newVerifier sl pub False requiredComponents of
           Inl err \<Rightarrow> Some \<lparr>ve_Reason = ReasonUnparseable, ve_Err = Some err\<rparr>
         | Inr verifier \<Rightarrow>
             (case sl_verifyRequest sl signatureName verifier r of
                Some err \<Rightarrow> Some \<lparr>ve_Reason = classifyVerifyError err, ve_Err = Some err\<rparr>
              | None \<Rightarrow>
                  (case sl_validateDigest sl (header_Values r ''Content-Digest'') body [''sha-256''] of
                     Some err \<Rightarrow> Some \<lparr>ve_Reason = ReasonDigestMismatch, ve_Err = Some err\<rparr>
                   | None \<Rightarrow>
                       (case sl_details sl signatureName r of
                          Inl err \<Rightarrow> Some \<lparr>ve_Reason = ReasonUnparseable, ve_Err = Some err\<rparr>
                        | Inr None \<Rightarrow> Some \<lparr>ve_Reason = ReasonMissingCreated, ve_Err = None\<rparr>
                        | Inr (Some created) \<Rightarrow>
                            (if stale window (time_Sub now created)
                             then Some \<lparr>ve_Reason = ReasonStaleCreated, ve_Err = None\<rparr>
                             else None))))))"

section \<open>Lemmas\<close>

text \<open>What the library vouches for: the headers are there, it verifies the request under the key with the
  required components, the digest matches the body, and the signature has this creation time.\<close>

definition vouched :: "'v sig_lib \<Rightarrow> http_request \<Rightarrow> string \<Rightarrow> string \<Rightarrow> instant \<Rightarrow> bool" where
  "vouched sl r body pub created \<longleftrightarrow>
     header_Get r ''Signature'' \<noteq> [] \<and> header_Get r ''Signature-Input'' \<noteq> [] \<and>
     (case sl_newVerifier sl pub False requiredComponents of Inl _ \<Rightarrow> False
      | Inr verifier \<Rightarrow> sl_verifyRequest sl signatureName verifier r = None) \<and>
     sl_validateDigest sl (header_Values r ''Content-Digest'') body [''sha-256''] = None \<and>
     sl_details sl signatureName r = Inr (Some created)"

lemma Verify_None_iff:
  "Verify sl r body pub window now = None \<longleftrightarrow>
     (\<exists>created. vouched sl r body pub created \<and> \<not> stale window (time_Sub now created))"
  by (auto simp: Verify_def vouched_def split: sum.splits option.splits)

lemma sint_minus: "w \<noteq> word_of_int (- (2 ^ 63)) \<Longrightarrow> sint (- w :: duration) = - sint w"
proof -
  assume "w \<noteq> word_of_int (- (2 ^ 63))"
  moreover have "w = word_of_int (- (2 ^ 63))" if "sint w = - (2 ^ 63)"
    unfolding that [symmetric] by simp
  ultimately have "sint w \<noteq> - (2 ^ 63)" by blast
  with sint_range64 [of w] have "sint (word_of_int (- sint w) :: duration) = - sint w"
    by (intro sint_of_int64) auto
  then show ?thesis by simp
qed

lemma stale_iff:
  assumes "w \<noteq> word_of_int (- (2 ^ 63))"
  shows "stale w d \<longleftrightarrow> sint w < \<bar>sint d\<bar>"
  using assms by (auto simp: stale_def word_sless_alt sint_minus)

text \<open>On windows that leave room for the drift to saturate, the check is the one on instants.\<close>

lemma stale_time_Sub:
  assumes "- (2 ^ 63) < sint w" "sint w < 2 ^ 63 - 1"
  shows "stale w (time_Sub now created) \<longleftrightarrow> sint w < \<bar>now - created\<bar>"
proof -
  have "w \<noteq> word_of_int (- (2 ^ 63))" using assms(1) sint_of_int64 [of "- (2 ^ 63)"] by auto
  then show ?thesis using assms(2) by (auto simp: stale_iff sint_time_Sub)
qed

lemma Verify_stale_iff:
  "map_option ve_Reason (Verify sl r body pub window now) = Some ReasonStaleCreated \<longleftrightarrow>
     (\<exists>created. vouched sl r body pub created \<and> stale window (time_Sub now created))"
  by (auto simp: Verify_def vouched_def classifyVerifyError_def split: sum.splits option.splits)

text \<open>A library that vouches for every request, with a fixed creation time, and a request with the headers.\<close>

definition sample_sig :: "instant \<Rightarrow> unit sig_lib" where
  "sample_sig created =
     \<lparr>sl_newVerifier = (\<lambda>_ _ _. Inr ()), sl_verifyRequest = (\<lambda>_ _ _. None),
      sl_validateDigest = (\<lambda>_ _ _. None), sl_details = (\<lambda>_ _. Inr (Some created))\<rparr>"

definition sample_request :: "string \<Rightarrow> string \<Rightarrow> http_request" where
  "sample_request method path =
     \<lparr>hr_Method = method, hr_Path = path,
      hr_Header = [(''Signature'', [''s'']), (''Signature-Input'', [''i'']), (''Content-Digest'', [''d''])],
      hr_RemoteAddr = ''10.0.0.1:4711''\<rparr>"

lemma sample_vouched: "vouched (sample_sig created) (sample_request m p) body pub t \<longleftrightarrow> t = created"
  by (auto simp: vouched_def sample_sig_def sample_request_def header_Get_def header_Values_def)

section \<open>Properties\<close>

text \<open>C16. Who is let in. For every window strictly between the extreme durations, \<open>Verify\<close> accepts a request exactly when both
  signature headers are present, the library verifies the request under the configured key with the request target and
  the digest covered, the digest matches the body the caller has read, the signature has a creation time, and
  that time is at most the window away from now, in the past or in the future; and a request is
  called stale exactly when all but the last hold. So a negative window lets nobody in.\<close>

theorem Verify_accepts_iff:
  assumes "- (2 ^ 63) < sint window" and "sint window < 2 ^ 63 - 1"
  shows "(Verify sl r body pub window now = None \<longleftrightarrow>
       (\<exists>created. vouched sl r body pub created \<and> \<bar>now - created\<bar> \<le> sint window)) \<and>
     (map_option ve_Reason (Verify sl r body pub window now) = Some ReasonStaleCreated \<longleftrightarrow>
       (\<exists>created. vouched sl r body pub created \<and> sint window < \<bar>now - created\<bar>))"
  unfolding Verify_stale_iff by (simp add: Verify_None_iff stale_time_Sub [OF assms] not_less)

theorem Verify_accepts_iff_witness:
  "Verify (sample_sig 0) (sample_request ''POST'' ''/'') [] [] 10000000000 9000000000 = None \<and>
   Verify (sample_sig 20000000000) (sample_request ''POST'' ''/'') [] [] 10000000000 9000000000 \<noteq> None"
  using Verify_accepts_iff [of 10000000000 "sample_sig 0" "sample_request ''POST'' ''/''" "[]" "[]" 9000000000]
    Verify_accepts_iff [of 10000000000 "sample_sig 20000000000" "sample_request ''POST'' ''/''" "[]" "[]" 9000000000]
  by (simp add: sample_vouched)

end
