(* ===== verification/GoEncode.thy ===== *)
theory GoEncode
  imports GoJson
begin

text \<open>
  The other direction of \<open>encoding/json\<close>: the text an \<open>Encoder\<close> writes for a value, with its escapes
  (quotes, control characters, the HTML characters, invalid UTF-8 and the two line
  separators). Read back, the text gives the value with every invalid byte of its strings
  replaced by U+FFFD; a string that was itself decoded from JSON has none.
\<close>

section \<open>Encoding\<close>

definition hex_of :: "nat \<Rightarrow> char" where
  "hex_of n = (if n < 10 then char_of (48 + n) else char_of (87 + n))"

definition short_escape :: "char \<Rightarrow> char option" where
  "short_escape c =
     (if c = CHR 0x5C \<or> c = CHR 0x22 then Some c
      else if c = CHR 0x08 then Some (CHR ''b'')
      else if c = CHR 0x0C then Some (CHR ''f'')
      else if c = CHR 0x0A then Some (CHR ''n'')
      else if c = CHR 0x0D then Some (CHR ''r'')
      else if c = CHR 0x09 then Some (CHR ''t'')
      else None)"

definition enc_byte :: "char \<Rightarrow> string" where
  "enc_byte c =
     (case short_escape c of
        Some e \<Rightarrow> [CHR 0x5C, e]
      | None \<Rightarrow>
          (if byte_val c < 32 \<or> c = CHR ''<'' \<or> c = CHR ''>'' \<or> c = CHR ''&'' then
             [CHR 0x5C, CHR ''u'', CHR ''0'', CHR ''0'', hex_of (byte_val c div 16), hex_of (byte_val c mod 16)]
           else [c]))"

fun enc_chunk :: "nat \<times> string \<Rightarrow> string" where
  "enc_chunk (r, bs) =
     (if r < 128 then enc_byte (hd bs)
      else if r = rune_error \<and> length bs = 1 then [CHR 0x5C, CHR ''u'', CHR ''f'', CHR ''f'', CHR ''f'', CHR ''d'']
      else if r = 8232 \<or> r = 8233 then [CHR 0x5C, CHR ''u'', CHR ''2'', CHR ''0'', CHR ''2'', hex_of (r mod 16)]
      else bs)"

definition enc_chars :: "string \<Rightarrow> string" where
  "enc_chars s = concat (map enc_chunk (chunks s))"

definition enc_str :: "string \<Rightarrow> string" where
  "enc_str s = CHR 0x22 # enc_chars s @ [CHR 0x22]"

fun enc_json :: "json \<Rightarrow> string" where
  "enc_json JNull = ''null''"
| "enc_json (JBool b) = (if b then ''true'' else ''false'')"
| "enc_json (JNum lit) = lit"
| "enc_json (JStr s) = enc_str s"
| "enc_json (JArr js) = CHR ''['' # join_with (CHR '','') (map enc_json js) @ [CHR '']'']"
| "enc_json (JObj kvs) =
     CHR ''{'' # join_with (CHR '','') (map (\<lambda>(k, v). enc_str k @ CHR '':'' # enc_json v) kvs) @ [CHR ''}'']"

text \<open>\<open>Encoder.Encode\<close> ends the value with a newline.\<close>

definition Encode :: "json \<Rightarrow> string" where
  "Encode v = enc_json v @ [CHR 0x0A]"

text \<open>A string with its invalid bytes replaced.\<close>

definition to_valid :: "string \<Rightarrow> string" where
  "to_valid s = concat (map (encode_rune \<circ> fst) (chunks s))"

fun clean :: "json \<Rightarrow> json" where
  "clean (JStr s) = JStr (to_valid s)"
| "clean (JArr js) = JArr (map clean js)"
| "clean (JObj kvs) = JObj (map (\<lambda>(k, v). (to_valid k, clean v)) kvs)"
| "clean v = v"

section \<open>Strings\<close>

lemma char_eqI: "byte_val c = n \<Longrightarrow> n < 256 \<Longrightarrow> c = char_of n"
  by auto

lemma hex_val_of: "list_all (\<lambda>n. hex_val (hex_of n) = Some n) [0..<16]"
  by (simp add: upt_rec hex_of_def hex_val_def is_digit_def digit_val_def less_eq_char_def)

lemma hex_val_hex_of: "n < 16 \<Longrightarrow> hex_val (hex_of n) = Some n"
  using hex_val_of by (simp add: list_all_iff)

lemma str_lit_u:
  assumes "hex4 (a # b # c # d # t) = Some (v, t)" "\<not> (55296 \<le> v \<and> v \<le> 56319)"
  shows "str_lit (CHR 0x5C # CHR ''u'' # a # b # c # d # t) = emit (encode_rune v) (str_lit t)"
  using assms by (auto simp: str_lit.simps(2) unicode_escape_def simp del: hex4.simps)

lemma str_lit_simple: "simple_escape e = Some d \<Longrightarrow> e \<noteq> CHR ''u'' \<Longrightarrow>
    str_lit (CHR 0x5C # e # t) = emit [d] (str_lit t)"
  by (simp add: str_lit.simps(2))

lemma short_escape_simple: "short_escape c = Some e \<Longrightarrow> simple_escape e = Some c \<and> e \<noteq> CHR ''u''"
  by (auto simp: short_escape_def simple_escape_def split: if_splits)

lemma str_lit_enc_byte:
  assumes "byte_val c < 128"
  shows "str_lit (enc_byte c @ t) = emit [c] (str_lit t)"
proof -
  have "c \<noteq> CHR 0x22 \<and> c \<noteq> CHR 0x5C" if "short_escape c = None"
    using that by (auto simp: short_escape_def)
  then consider (simple) e where "enc_byte c = [CHR 0x5C, e]" "short_escape c = Some e"
    | (u) "enc_byte c = [CHR 0x5C, CHR ''u'', CHR ''0'', CHR ''0'', hex_of (byte_val c div 16), hex_of (byte_val c mod 16)]"
    | (plain) "enc_byte c = [c]" "c \<noteq> CHR 0x22" "c \<noteq> CHR 0x5C" "32 \<le> byte_val c"
    by (cases "short_escape c"; cases "byte_val c < 32 \<or> c = CHR ''<'' \<or> c = CHR ''>'' \<or> c = CHR ''&''")
       (auto simp: enc_byte_def simp del: disj_not1)
  then show ?thesis
  proof cases
    case simple
    then show ?thesis using short_escape_simple [OF simple(2)] by (simp add: str_lit_simple)
  next
    case u
    have "byte_val c div 16 * 16 + byte_val c mod 16 = byte_val c" by simp
    then have "hex4 (CHR ''0'' # CHR ''0'' # hex_of (byte_val c div 16) # hex_of (byte_val c mod 16) # t) = Some (byte_val c, t)"
      using assms hex_val_hex_of [of "byte_val c div 16"] hex_val_hex_of [of "byte_val c mod 16"]
      by (simp add: hex_val_def [of "CHR ''0''"] is_digit_def digit_val_def)
    then show ?thesis using assms by (simp add: u str_lit_u encode_rune_def del: hex4.simps)
  next
    case plain
    then show ?thesis using assms by (simp add: str_lit_plain)
  qed
qed

text \<open>The width and the code point of a valid sequence depend on its own bytes only.\<close>

lemma rune_width_len: "s \<noteq> [] \<Longrightarrow> rune_width s \<le> length s"
  by (cases s) (auto simp: rune_width_def byte_in_def Let_def Suc_le_eq)

lemma rune_take:
  assumes "rune_width s = w" "w \<noteq> 1" "s \<noteq> []"
  shows "rune_width (take w s @ t) = w \<and> rune_of (take w s @ t) = rune_of s"
proof -
  have len: "w \<le> length s" using rune_width_len [OF assms(3)] assms(1) by simp
  have w: "w \<in> {2, 3, 4}" using rune_width_lead [of s] assms by auto
  have hd: "hd (take w s @ t) = hd s" using assms(3) w by (cases s) auto
  have n: "(take w s @ t) ! i = s ! i" if "i < w" for i
    using that len by (simp add: nth_append)
  then have b: "byte_in lo hi (take w s @ t) i = byte_in lo hi s i" if "i < w" for lo hi i
    using that len by (auto simp: byte_in_def)
  have "rune_width (take w s @ t) = w"
    using w assms(1) b unfolding rune_width_def Let_def hd by (auto split: if_splits)
  then show ?thesis using w assms(1) n unfolding rune_of_def Let_def hd by auto
qed

text \<open>A chunk read back is the encoding of its code point.\<close>

lemma str_lit_chunk:
  assumes "s \<noteq> []"
  shows "str_lit (enc_chunk (rune_of s, take (rune_width s) s) @ t) = emit (encode_rune (rune_of s)) (str_lit t)"
proof -
  obtain c cs where s: "s = c # cs" using assms by (cases s) auto
  consider (ascii) "byte_val c < 128"
    | (bad) "128 \<le> byte_val c" "rune_width s = 1"
    | (sep) "rune_width s \<noteq> 1" "rune_of s = 8232 \<or> rune_of s = 8233"
    | (multi) "rune_width s \<noteq> 1" "rune_of s \<noteq> 8232" "rune_of s \<noteq> 8233"
    by (metis not_less)
  then show ?thesis
  proof cases
    case ascii
    then show ?thesis
      by (simp add: s rune_width_ascii rune_of_def Let_def str_lit_enc_byte encode_rune_def del: hex4.simps)
  next
    case bad
    then have "rune_of s = rune_error" by (simp add: s rune_of_def Let_def)
    moreover have "str_lit (CHR 0x5C # CHR ''u'' # CHR ''f'' # CHR ''f'' # CHR ''f'' # CHR ''d'' # t) =
        emit (encode_rune rune_error) (str_lit t)"
      by (rule str_lit_u) (simp_all add: hex_val_def is_digit_def digit_val_def rune_error_def less_eq_char_def)
    ultimately show ?thesis by (simp add: s bad(2) [unfolded s] rune_error_def)
  next
    case sep
    have "str_lit (CHR 0x5C # CHR ''u'' # CHR ''2'' # CHR ''0'' # CHR ''2'' # hex_of (rune_of s mod 16) # t) =
        emit (encode_rune (rune_of s)) (str_lit t)"
      using sep(2) hex_val_hex_of [of "rune_of s mod 16"]
      by (intro str_lit_u) (auto simp: hex_val_def [of "CHR ''0''"] hex_val_def [of "CHR ''2''"] is_digit_def digit_val_def)
    then show ?thesis using sep by (auto simp: rune_error_def)
  next
    case multi
    have r: "128 \<le> rune_of s" using multi(1) by (rule rune_of_multi)
    have lead: "194 \<le> byte_val c" using rune_width_lead [of s] multi(1) by (auto simp: s)
    then have c: "c \<noteq> CHR 0x22" "c \<noteq> CHR 0x5C" "\<not> byte_val c < 32" by auto
    obtain w where w: "rune_width s = Suc w" using rune_width_pos [of s] by (cases "rune_width s") auto
    have tk: "take (rune_width s) s @ t = c # (take w cs @ t)" unfolding w by (simp add: s)
    have "length cs \<ge> w" using rune_width_len [OF assms] w s by simp
    moreover have "rune_width (c # (take w cs @ t)) = Suc w \<and> rune_of (c # (take w cs @ t)) = rune_of s"
      using rune_take [OF w _ assms, of t] w multi(1) by (simp add: s)
    ultimately have "str_lit (take (rune_width s) s @ t) = emit (encode_rune (rune_of s)) (str_lit t)"
      unfolding tk using c by (simp add: str_lit.simps(2))
    moreover have "w \<noteq> 0" using multi(1) w by simp
    then have "length (take (rune_width s) s) \<noteq> 1" unfolding w using \<open>w \<le> length cs\<close> by (simp add: s)
    ultimately show ?thesis using multi r by simp
  qed
qed

lemma emit_emit: "emit a (emit b x) = emit (a @ b) x"
  by (cases x) (auto simp: emit_def)

lemma str_lit_enc: "str_lit (enc_chars s @ CHR 0x22 # t) = Some (to_valid s, t)"
proof (induction s rule: chunks.induct)
  case 1
  show ?case by (simp add: enc_chars_def to_valid_def str_lit_quote)
next
  case (2 c cs)
  then show ?case
    using str_lit_chunk [of "c # cs"]
    by (simp add: enc_chars_def to_valid_def chunks.simps(2) emit_simps del: enc_chunk.simps)
qed

section \<open>Values\<close>

text \<open>The fuel of the parser in the form the round trip needs: from some amount on, the result is this one.\<close>

definition reads :: "nat \<Rightarrow> json \<Rightarrow> bool" where
  "reads d v \<longleftrightarrow> (\<forall>t. \<exists>k. \<forall>n \<ge> k. jval n d (enc_json v @ t) = Some (clean v, t))"

fun json_depth :: "json \<Rightarrow> nat" where
  "json_depth (JArr js) = Suc (fold max (map json_depth js) 0)"
| "json_depth (JObj kvs) = Suc (fold max (map (\<lambda>(k, v). json_depth v) kvs) 0)"
| "json_depth _ = 0"

fun num_free :: "json \<Rightarrow> bool" where
  "num_free (JNum _) = False"
| "num_free (JArr js) = list_all num_free js"
| "num_free (JObj kvs) = list_all (\<lambda>(k, v). num_free v) kvs"
| "num_free _ = True"

lemma enc_json_hd:
  assumes "num_free v"
  shows "\<exists>c r. enc_json v = c # r \<and> \<not> is_ws c \<and> c \<noteq> CHR '']'' \<and> c \<noteq> CHR ''}''"
  using assms by (cases v) (auto simp: enc_str_def is_ws_def)

lemma skip_ws_cons: "\<not> is_ws c \<Longrightarrow> skip_ws (c # s) = c # s"
  by (simp add: skip_ws_def)

lemma fold_max_le: "x \<in> set xs \<Longrightarrow> x \<le> fold max xs (a::nat)"
proof (induction xs arbitrary: a)
  case (Cons y ys)
  have "b \<le> fold max ys b" for b by (induction ys arbitrary: b) (auto intro: le_trans [OF max.cobounded2])
  with Cons show ?case by (auto intro: le_trans [OF max.cobounded1])
qed simp

lemma jelems_reads:
  assumes "js \<noteq> []" "\<forall>v \<in> set js. reads d v"
  shows "\<exists>k. \<forall>n \<ge> k. jelems n d (join_with (CHR '','') (map enc_json js) @ CHR '']'' # t) = Some (map clean js, t)"
  using assms
proof (induction js)
  case (Cons v js)
  show ?case
  proof (cases "js = []")
    case True
    obtain k where k: "\<forall>n \<ge> k. jval n d (enc_json v @ CHR '']'' # t) = Some (clean v, CHR '']'' # t)"
      using Cons.prems(2) unfolding reads_def by fastforce
    have "jelems n d (enc_json v @ CHR '']'' # t) = Some ([clean v], t)" if n: "Suc k \<le> n" for n
    proof -
      obtain m where m: "n = Suc m" "k \<le> m" using n by (cases n) auto
      show ?thesis unfolding m(1) jelems.simps(2) using k m(2) by (simp add: skip_ws_cons is_ws_def)
    qed
    with True show ?thesis by auto
  next
    case False
    let ?rest = "join_with (CHR '','') (map enc_json js) @ CHR '']'' # t"
    obtain k where k: "\<forall>n \<ge> k. jval n d (enc_json v @ CHR '','' # ?rest) = Some (clean v, CHR '','' # ?rest)"
      using Cons.prems(2) unfolding reads_def by fastforce
    obtain l where l: "\<forall>n \<ge> l. jelems n d ?rest = Some (map clean js, t)"
      using Cons False by auto
    have "jelems n d (enc_json v @ CHR '','' # ?rest) = Some (clean v # map clean js, t)" if n: "Suc (max k l) \<le> n" for n
    proof -
      obtain m where m: "n = Suc m" "k \<le> m" "l \<le> m" using n by (cases n) auto
      show ?thesis unfolding m(1) jelems.simps(2) using k l m(2,3) by (simp add: skip_ws_cons is_ws_def)
    qed
    moreover have "join_with (CHR '','') (map enc_json (v # js)) @ CHR '']'' # t = enc_json v @ CHR '','' # ?rest"
      using False by (simp add: join_with_Cons)
    ultimately show ?thesis by (auto simp del: join_with.simps)
  qed
qed simp

lemma jmembers_step:
  assumes "jval n d (enc_json v @ e # t) = Some (clean v, e # t)" and "\<not> is_ws e" "e = CHR '','' \<or> e = CHR ''}''"
  shows "jmembers (Suc n) d (enc_str k @ CHR '':'' # enc_json v @ e # t) =
    (if e = CHR '','' then map_option (map_prod (Cons (to_valid k, clean v)) id) (jmembers n d t)
     else Some ([(to_valid k, clean v)], t))"
proof -
  have "str_lit (enc_chars k @ CHR 0x22 # CHR '':'' # enc_json v @ e # t) = Some (to_valid k, CHR '':'' # enc_json v @ e # t)"
    by (rule str_lit_enc)
  moreover have "\<not> is_ws (CHR 0x22)" "\<not> is_ws (CHR '':'')" by (simp_all add: is_ws_def)
  ultimately show ?thesis
    unfolding jmembers.simps(2) using assms by (auto simp: enc_str_def skip_ws_cons)
qed

definition enc_member :: "string \<times> json \<Rightarrow> string" where
  "enc_member m = (case m of (k, v) \<Rightarrow> enc_str k @ CHR '':'' # enc_json v)"

definition clean_member :: "string \<times> json \<Rightarrow> string \<times> json" where
  "clean_member m = (case m of (k, v) \<Rightarrow> (to_valid k, clean v))"

lemma jmembers_reads:
  assumes "kvs \<noteq> []" "\<forall>m \<in> set kvs. reads d (snd m)"
  shows "\<exists>k. \<forall>n \<ge> k. jmembers n d (join_with (CHR '','') (map enc_member kvs) @ CHR ''}'' # t) =
    Some (map clean_member kvs, t)"
  using assms
proof (induction kvs)
  case (Cons m kvs)
  obtain k v where m: "m = (k, v)" by fastforce
  show ?case
  proof (cases "kvs = []")
    case True
    obtain l where l: "\<forall>n \<ge> l. jval n d (enc_json v @ CHR ''}'' # t) = Some (clean v, CHR ''}'' # t)"
      using Cons.prems(2) m unfolding reads_def by fastforce
    have "jmembers n d (enc_str k @ CHR '':'' # enc_json v @ CHR ''}'' # t) = Some ([(to_valid k, clean v)], t)" if n: "Suc l \<le> n" for n
    proof -
      obtain i where i: "n = Suc i" "l \<le> i" using n by (cases n) auto
      show ?thesis unfolding i(1) using l i(2) by (subst jmembers_step) (auto simp: is_ws_def)
    qed
    with True show ?thesis by (auto simp: m enc_member_def clean_member_def)
  next
    case False
    let ?rest = "join_with (CHR '','') (map enc_member kvs) @ CHR ''}'' # t"
    obtain l where l: "\<forall>n \<ge> l. jval n d (enc_json v @ CHR '','' # ?rest) = Some (clean v, CHR '','' # ?rest)"
      using Cons.prems(2) m unfolding reads_def by fastforce
    obtain l' where l': "\<forall>n \<ge> l'. jmembers n d ?rest = Some (map clean_member kvs, t)"
      using Cons False by auto
    have "jmembers n d (enc_str k @ CHR '':'' # enc_json v @ CHR '','' # ?rest) = Some ((to_valid k, clean v) # map clean_member kvs, t)"
      if n: "Suc (max l l') \<le> n" for n
    proof -
      obtain i where i: "n = Suc i" "l \<le> i" "l' \<le> i" using n by (cases n) auto
      show ?thesis unfolding i(1) using l l' i(2,3) by (subst jmembers_step) (auto simp: is_ws_def)
    qed
    moreover have "join_with (CHR '','') (map enc_member (m # kvs)) @ CHR ''}'' # t =
        enc_str k @ CHR '':'' # enc_json v @ CHR '','' # ?rest"
      using False by (simp add: join_with_Cons m enc_member_def)
    moreover have "clean_member m = (to_valid k, clean v)" by (simp add: m clean_member_def)
    ultimately show ?thesis by (auto simp del: join_with.simps)
  qed
qed simp

lemma join_with_hd: "\<exists>r. join_with sep ((a # s) # xs) = a # r"
  by (cases xs) auto

lemma ex_fuel: "(\<And>n. k \<le> n \<Longrightarrow> P (Suc n)) \<Longrightarrow> \<exists>k. \<forall>n \<ge> k. P n" for k :: nat
  by (rule exI [of _ "Suc k"]) (metis Suc_le_D Suc_le_mono)

lemma reads_json: "num_free v \<Longrightarrow> d + json_depth v \<le> max_depth \<Longrightarrow> reads d v"
proof (induction v arbitrary: d rule: enc_json.induct)
  case 1
  show ?case by (auto simp: reads_def jval.simps(2) skip_ws_cons is_ws_def strip_lit_def has_prefix_def intro!: ex_fuel)
next
  case (2 b)
  show ?case
    by (cases b) (auto simp: reads_def jval.simps(2) skip_ws_cons is_ws_def strip_lit_def has_prefix_def intro!: ex_fuel)
next
  case (3 l)
  then show ?case by simp
next
  case (4 s)
  show ?case by (auto simp: reads_def jval.simps(2) skip_ws_cons is_ws_def enc_str_def str_lit_enc intro!: ex_fuel)
next
  case (5 js)
  have d: "\<not> max_depth \<le> d" using 5(3) by simp
  have "reads (Suc d) w" if w: "w \<in> set js" for w
    using "5.IH" [OF w, of "Suc d"] "5.prems" w fold_max_le [of "json_depth w" "map json_depth js" 0]
    by (auto simp: list_all_iff)
  then have el: "js \<noteq> [] \<Longrightarrow> \<exists>k. \<forall>n \<ge> k. jelems n (Suc d) (join_with (CHR '','') (map enc_json js) @ CHR '']'' # t) =
      Some (map clean js, t)" for t
    using jelems_reads [of js "Suc d" t] by blast
  have "\<exists>k. \<forall>n \<ge> k. jval n d (enc_json (JArr js) @ t) = Some (clean (JArr js), t)" for t
  proof (cases js)
    case Nil
    then show ?thesis using d by (auto simp: jval.simps(2) skip_ws_cons is_ws_def intro!: ex_fuel)
  next
    case (Cons v js')
    with el [of t] obtain k where
      k: "\<forall>n \<ge> k. jelems n (Suc d) (join_with (CHR '','') (map enc_json js) @ CHR '']'' # t) = Some (map clean js, t)" by auto
    obtain c r where c: "join_with (CHR '','') (map enc_json js) = c # r" "\<not> is_ws c" "c \<noteq> CHR '']''"
      using enc_json_hd [of v] "5.prems"(1) Cons join_with_hd [of "CHR '',''"] by fastforce
    show ?thesis
    proof (rule ex_fuel)
      fix n assume "k \<le> n"
      then show "jval (Suc n) d (enc_json (JArr js) @ t) = Some (clean (JArr js), t)"
        unfolding jval.simps(2) using k c d by (simp add: skip_ws_cons is_ws_def [of "CHR ''[''"])
    qed
  qed
  then show ?case by (simp add: reads_def)
next
  case (6 kvs)
  have d: "\<not> max_depth \<le> d" using 6(3) by simp
  have eq: "enc_json (JObj kvs) = CHR ''{'' # join_with (CHR '','') (map enc_member kvs) @ [CHR ''}'']"
    "clean (JObj kvs) = JObj (map clean_member kvs)"
    by (simp_all add: enc_member_def [abs_def] clean_member_def [abs_def])
  have "reads (Suc d) (snd m)" if m: "m \<in> set kvs" for m
    using "6.IH" [OF m prod.collapse, of "Suc d"] "6.prems" m
      fold_max_le [of "json_depth (snd m)" "map (\<lambda>(k, v). json_depth v) kvs" 0]
    by (fastforce simp: list_all_iff split_beta)
  then have el: "kvs \<noteq> [] \<Longrightarrow> \<exists>k. \<forall>n \<ge> k. jmembers n (Suc d) (join_with (CHR '','') (map enc_member kvs) @ CHR ''}'' # t) =
      Some (map clean_member kvs, t)" for t
    using jmembers_reads [of kvs "Suc d" t] by blast
  have "\<exists>k. \<forall>n \<ge> k. jval n d (enc_json (JObj kvs) @ t) = Some (clean (JObj kvs), t)" for t
    unfolding eq
  proof (cases kvs)
    case Nil
    then show "\<exists>k. \<forall>n \<ge> k. jval n d ((CHR ''{'' # join_with (CHR '','') (map enc_member kvs) @ [CHR ''}'']) @ t) =
        Some (JObj (map clean_member kvs), t)"
      using d by (auto simp: jval.simps(2) skip_ws_cons is_ws_def intro!: ex_fuel)
  next
    case (Cons m kvs')
    with el [of t] obtain k where
      k: "\<forall>n \<ge> k. jmembers n (Suc d) (join_with (CHR '','') (map enc_member kvs) @ CHR ''}'' # t) = Some (map clean_member kvs, t)" by auto
    obtain r where c: "join_with (CHR '','') (map enc_member kvs) = CHR 0x22 # r"
      using Cons join_with_hd [of "CHR '',''" "CHR 0x22"] by (fastforce simp: enc_member_def enc_str_def split: prod.splits)
    show "\<exists>k. \<forall>n \<ge> k. jval n d ((CHR ''{'' # join_with (CHR '','') (map enc_member kvs) @ [CHR ''}'']) @ t) =
        Some (JObj (map clean_member kvs), t)"
    proof (rule ex_fuel)
      fix n assume "k \<le> n"
      then show "jval (Suc n) d ((CHR ''{'' # join_with (CHR '','') (map enc_member kvs) @ [CHR ''}'']) @ t) =
          Some (JObj (map clean_member kvs), t)"
        unfolding jval.simps(2) using k c d by (simp add: skip_ws_cons is_ws_def)
    qed
  qed
  then show ?case by (simp add: reads_def)
qed

text \<open>The round trip.\<close>

lemma parse_Encode:
  assumes "num_free v" "json_depth v \<le> max_depth"
  shows "parse_json (Encode v) = Some (clean v)"
proof -
  obtain k where k: "\<forall>n \<ge> k. jval n 0 (enc_json v @ [CHR 0x0A]) = Some (clean v, [CHR 0x0A])"
    using reads_json [of v 0] assms by (auto simp: reads_def)
  show ?thesis
    unfolding Encode_def
    using parse_json_fuel [of "enc_json v @ [CHR 0x0A]" "max k (2 * length (enc_json v @ [CHR 0x0A]) + 2)"] k
    by (simp add: skip_ws_def is_ws_def)
qed

section \<open>UTF-8, encoded and read back\<close>

lemma cont_bits: "y < 64 \<Longrightarrow> (128 + y) mod 64 = (y::nat)"
  by (simp add: mod_in_block [of 2 64 "128 + y"])

lemma rune_encode_2:
  assumes "128 \<le> r" "r < 2048"
  shows "rune_width (encode_rune r @ t) = 2 \<and> rune_of (encode_rune r @ t) = r"
proof -
  have q: "2 \<le> r div 64" "r div 64 < 32" using assms by (auto simp: div_less_iff_less_mult)
  have w: "rune_width (encode_rune r @ t) = 2"
    using assms q by (simp add: encode_rune_def rune_width_def Let_def byte_in_def)
  have "(192 + r div 64) mod 32 = r div 64" using q mod_in_block [of 6 32 "192 + r div 64"] by simp
  then show ?thesis using assms q w unfolding rune_of_def Let_def w by (simp add: encode_rune_def cont_bits)
qed

lemma rune_encode_3:
  assumes "2048 \<le> r" "r < 65536" "\<not> (55296 \<le> r \<and> r \<le> 57343)"
  shows "rune_width (encode_rune r @ t) = 3 \<and> rune_of (encode_rune r @ t) = r"
proof -
  define a b c where abc: "a = r div 4096" "b = r div 64 mod 64" "c = r mod 64"
  have r: "r = a * 4096 + b * 64 + c" "b < 64" "c < 64"
    using div_mult_mod_eq [of r 64] div_mult_mod_eq [of "r div 64" 64] unfolding abc div_mult2_eq [of r 64 64, simplified] by (linarith, simp_all)
  have a: "a < 16" using assms(2) unfolding abc by (auto simp: div_less_iff_less_mult)
  have e: "encode_rune r = [char_of (224 + a), char_of (128 + b), char_of (128 + c)]"
    using assms by (auto simp: encode_rune_def abc)
  have ab: "a = 0 \<Longrightarrow> 32 \<le> b" "a = 13 \<Longrightarrow> b < 32" using assms r by auto
  have w: "rune_width (encode_rune r @ t) = 3"
    unfolding e using a r(2,3) ab by (auto simp: rune_width_def Let_def byte_in_def)
  have "(224 + a) mod 16 = a" using a mod_in_block [of 14 16 "224 + a"] by simp
  then have "rune_of (encode_rune r @ t) = a * 4096 + b * 64 + c"
    using r(2,3) unfolding rune_of_def Let_def w unfolding e by (simp add: cont_bits)
  with w r(1) show ?thesis by simp
qed

lemma rune_encode_4:
  assumes "65536 \<le> r" "r \<le> 1114111"
  shows "rune_width (encode_rune r @ t) = 4 \<and> rune_of (encode_rune r @ t) = r"
proof -
  define a b c d where abc: "a = r div 262144" "b = r div 4096 mod 64" "c = r div 64 mod 64" "d = r mod 64"
  have r: "r = a * 262144 + b * 4096 + c * 64 + d" "b < 64" "c < 64" "d < 64"
    using div_mult_mod_eq [of r 64] div_mult_mod_eq [of "r div 64" 64] div_mult_mod_eq [of "r div 64 div 64" 64]
    unfolding abc div_mult2_eq [of r 64 64, simplified] div_mult2_eq [of r 4096 64, simplified] by (linarith, simp_all)
  have a: "a < 5" using assms(2) unfolding abc by (auto simp: div_less_iff_less_mult)
  have e: "encode_rune r = [char_of (240 + a), char_of (128 + b), char_of (128 + c), char_of (128 + d)]"
    using assms by (simp add: encode_rune_def abc)
  have ab: "a = 0 \<Longrightarrow> 16 \<le> b" "a = 4 \<Longrightarrow> b < 16" using assms r by auto
  have w: "rune_width (encode_rune r @ t) = 4"
    unfolding e using a r(2,3,4) ab by (auto simp: rune_width_def Let_def byte_in_def)
  have "(240 + a) mod 8 = a" using a mod_in_block [of 30 8 "240 + a"] by simp
  then have "rune_of (encode_rune r @ t) = a * 262144 + b * 4096 + c * 64 + d"
    using r(2,3,4) unfolding rune_of_def Let_def w unfolding e by (simp add: cont_bits)
  with w r(1) show ?thesis by simp
qed
lemma rune_encode_1: "r < 128 \<Longrightarrow> rune_width (encode_rune r @ t) = 1 \<and> rune_of (encode_rune r @ t) = r"
  by (simp add: encode_rune_def rune_width_ascii rune_of_def Let_def)

definition norm_rune :: "nat \<Rightarrow> nat" where
  "norm_rune r = (if 1114111 < r \<or> (55296 \<le> r \<and> r \<le> 57343) then rune_error else r)"

lemma encode_norm: "encode_rune (norm_rune r) = encode_rune r"
  by (simp add: norm_rune_def encode_rune_def rune_error_def)

lemma rune_encode:
  "rune_width (encode_rune r @ t) = length (encode_rune r) \<and> rune_of (encode_rune r @ t) = norm_rune r"
proof -
  let ?r = "norm_rune r"
  have "rune_width (encode_rune ?r @ t) = length (encode_rune ?r) \<and> rune_of (encode_rune ?r @ t) = ?r"
  proof -
    have n: "?r \<le> 1114111" "\<not> (55296 \<le> ?r \<and> ?r \<le> 57343)" by (auto simp: norm_rune_def rune_error_def)
    consider "?r < 128" | "128 \<le> ?r" "?r < 2048" | "2048 \<le> ?r" "?r < 65536" | "65536 \<le> ?r" by linarith
    then show ?thesis
    proof cases
      case 1
      then show ?thesis using rune_encode_1 [of ?r t] by (simp add: encode_rune_def)
    next
      case 2
      then show ?thesis using rune_encode_2 [of ?r t] by (simp add: encode_rune_def)
    next
      case 3
      then show ?thesis using rune_encode_3 [OF 3 n(2), of t] n by (auto simp: encode_rune_def)
    next
      case 4
      then show ?thesis using rune_encode_4 [OF 4 n(1), of t] n by (auto simp: encode_rune_def)
    qed
  qed
  then show ?thesis by (simp add: encode_norm)
qed

lemma chunks_encode: "chunks (encode_rune r @ t) = (norm_rune r, encode_rune r) # chunks t"
proof -
  obtain c cs where e: "encode_rune r @ t = c # cs" by (cases "encode_rune r @ t") (auto simp: encode_rune_def split: if_splits)
  note r = rune_encode [of r t, unfolded e]
  have "take (length (encode_rune r)) (c # cs) = encode_rune r" unfolding e [symmetric] by simp
  moreover have "drop (length (encode_rune r) - 1) cs = t"
  proof -
    have "drop (length (encode_rune r)) (c # cs) = t" unfolding e [symmetric] by simp
    moreover have "length (encode_rune r) \<noteq> 0" by (simp add: encode_rune_def)
    ultimately show ?thesis by (cases "length (encode_rune r)") auto
  qed
  ultimately show ?thesis unfolding e chunks.simps(2) using r by simp
qed

text \<open>Strings without an invalid byte: the ones made of encoded code points.\<close>

definition valid_str :: "string \<Rightarrow> bool" where
  "valid_str s \<longleftrightarrow> to_valid s = s"

lemma to_valid_encode [simp]: "to_valid (encode_rune r @ t) = encode_rune r @ to_valid t"
  by (simp add: to_valid_def chunks_encode encode_norm)

lemma valid_Nil [simp]: "valid_str []"
  by (simp add: valid_str_def to_valid_def)

lemma valid_encode [simp]: "valid_str (encode_rune r @ t) = valid_str t"
  by (simp add: valid_str_def)

lemma valid_ascii_Cons: "byte_val c < 128 \<Longrightarrow> valid_str (c # t) = valid_str t"
  using valid_encode [of "byte_val c" t] by (simp add: encode_rune_def del: valid_encode)

lemma valid_to_valid: "valid_str (to_valid s)"
proof -
  have "valid_str (concat (map (encode_rune \<circ> fst) ps))" for ps :: "(nat \<times> string) list" by (induction ps) auto
  then show ?thesis by (simp add: to_valid_def)
qed

lemma str_lit_valid: "str_lit s = Some (v, r) \<Longrightarrow> valid_str v"
proof (induction s arbitrary: v r rule: str_lit.induct)
  case 1
  then show ?case by simp
next
  case (2 c cs)
  have E: "\<exists>v'. x = Some (v', r) \<and> v = p @ v'" if "emit p x = Some (v, r)" for p x
    using that by (auto simp: emit_def)
  consider (quote) "c = CHR 0x22" | (esc) "c \<noteq> CHR 0x22" "\<not> byte_val c < 32" "c = CHR 0x5C"
    | (plain) "c \<noteq> CHR 0x22" "\<not> byte_val c < 32" "c \<noteq> CHR 0x5C"
    using "2.prems" by (fastforce simp: str_lit.simps(2))
  then show ?case
  proof cases
    case quote
    with "2.prems" show ?thesis by (simp add: str_lit_quote)
  next
    case plain
    then have "emit (encode_rune (rune_of (c # cs))) (str_lit (drop (rune_width (c # cs) - 1) cs)) = Some (v, r)"
      using "2.prems" by (simp add: str_lit.simps(2))
    from E [OF this] "2.IH"(3) [OF plain] show ?thesis by auto
  next
    case esc
    with "2.prems" obtain e es where cs: "cs = e # es" by (cases cs) (auto simp: str_lit.simps(2))
    show ?thesis
    proof (cases "e = CHR ''u''")
      case True
      with esc cs "2.prems" obtain w q where h: "hex4 es = Some (w, q)"
        by (auto simp: str_lit.simps(2) split: option.splits)
      with True esc cs "2.prems" have "emit (fst (unicode_escape w q)) (str_lit (snd (unicode_escape w q))) = Some (v, r)"
        by (simp add: str_lit.simps(2))
      moreover have "\<exists>k. fst (unicode_escape w q) = encode_rune k"
        by (auto simp: unicode_escape_def split: option.split)
      ultimately show ?thesis using E "2.IH"(1) [OF esc cs True h refl] by fastforce
    next
      case False
      with esc cs "2.prems" obtain d where d: "simple_escape e = Some d"
        by (auto simp: str_lit.simps(2) split: option.splits)
      with False esc cs "2.prems" have "emit [d] (str_lit es) = Some (v, r)" by (simp add: str_lit.simps(2))
      moreover have "byte_val d < 128" using d by (auto simp: simple_escape_def split: if_splits)
      ultimately show ?thesis using E "2.IH"(2) [OF esc cs False d] by (fastforce simp: valid_ascii_Cons)
    qed
  qed
qed

end
