(* ===== verification/Slog.thy ===== *)
theory Slog
  imports VaultApi GoTime
begin

text \<open>
  Structured log records (\<open>log/slog\<close>): the levels with their order, the values the program logs, and
  the threshold of the handler, below which a record is dropped.
\<close>

section \<open>Levels\<close>

text \<open>The numbers of \<open>slog.Level\<close>.\<close>

fun slog_level :: "log_level \<Rightarrow> int" where
  "slog_level LevelDebug = -4"
| "slog_level LevelInfo = 0"
| "slog_level LevelWarn = 4"
| "slog_level LevelError = 8"

lemma slog_level_inject: "slog_level a = slog_level b \<longleftrightarrow> a = b"
  by (cases a; cases b) simp_all

instantiation log_level :: linorder
begin

definition less_eq_log_level :: "log_level \<Rightarrow> log_level \<Rightarrow> bool" where
  "less_eq_log_level a b \<longleftrightarrow> slog_level a \<le> slog_level b"

definition less_log_level :: "log_level \<Rightarrow> log_level \<Rightarrow> bool" where
  "less_log_level a b \<longleftrightarrow> slog_level a < slog_level b"

instance
  by standard (auto simp: less_eq_log_level_def less_log_level_def slog_level_inject)

end

lemmas level_order = less_eq_log_level_def less_log_level_def

section \<open>Records\<close>

datatype log_value = LStr string | LInt int | LStrs "string list" | LDuration duration | LBool bool

record log_record =
  lr_Level :: log_level
  lr_Msg :: string
  lr_Attrs :: "(string \<times> log_value) list"

text \<open>\<open>Logger.Log\<close> through a handler with a threshold.\<close>

definition slog :: "log_level \<Rightarrow> log_level \<Rightarrow> string \<Rightarrow> (string \<times> log_value) list \<Rightarrow> log_record list" where
  "slog threshold level msg attrs =
     (if threshold \<le> level then [\<lparr>lr_Level = level, lr_Msg = msg, lr_Attrs = attrs\<rparr>] else [])"

end
