(* ===== verification/HttpApi.thy ===== *)
theory HttpApi
  imports BrokerProps Wpsign GoEncode Slog
begin

text \<open>
  Package \<open>internal/httpapi\<close>: the routes, the request body limit, the signature check, the call of
  the broker under the request timeout, the rendering of its result, the audit records and the
  counters. The server's state is the state behind the handler, the counters and the
  log. Outside choices of one request are the record \<open>request_env\<close>: the bytes on the
  wire, the clock, which branch of the timeout race is taken, and whether the response
  could be written.
\<close>

section \<open>Metrics\<close>

record metrics =
  requestsTotal :: "string \<Rightarrow> nat"           \<comment> \<open>by outcome\<close>
  signatureFailuresTotal :: "string \<Rightarrow> nat"  \<comment> \<open>by reason\<close>
  mintsTotal :: nat
  mintWarningsTotal :: nat
  sweepReadsTotal :: nat
  derefReadsTotal :: nat

definition newMetrics :: metrics where
  "newMetrics = \<lparr>requestsTotal = (\<lambda>_. 0), signatureFailuresTotal = (\<lambda>_. 0), mintsTotal = 0,
     mintWarningsTotal = 0, sweepReadsTotal = 0, derefReadsTotal = 0\<rparr>"

text \<open>\<open>IncSweepRead\<close> and \<open>IncDerefRead\<close>, the adapter the Vault client is given.\<close>

fun inc_metric :: "metric \<Rightarrow> metrics \<Rightarrow> metrics" where
  "inc_metric IncSweepRead m = m\<lparr>sweepReadsTotal := Suc (sweepReadsTotal m)\<rparr>"
| "inc_metric IncDerefRead m = m\<lparr>derefReadsTotal := Suc (derefReadsTotal m)\<rparr>"

text \<open>\<open>VaultMetrics\<close>: the increments the client made through the adapter so far, applied to the counters.\<close>

definition VaultMetrics :: "metric list \<Rightarrow> metrics \<Rightarrow> metrics" where
  "VaultMetrics incs m = fold inc_metric incs m"

text \<open>What is registered, by name: counters by label, and plain ones (the help texts are left out).\<close>

datatype collector = CounterVec string "string \<Rightarrow> nat" | Counter nat

definition registry :: "metrics \<Rightarrow> (string \<times> collector) list" where
  "registry m =
     [(''ironbark_requests_total'', CounterVec ''outcome'' (requestsTotal m)),
      (''ironbark_signature_failures_total'', CounterVec ''reason'' (signatureFailuresTotal m)),
      (''ironbark_mints_total'', Counter (mintsTotal m)),
      (''ironbark_mint_warnings_total'', Counter (mintWarningsTotal m)),
      (''ironbark_sweep_reads_total'', Counter (sweepReadsTotal m)),
      (''ironbark_deref_reads_total'', Counter (derefReadsTotal m))]"

definition inc_label :: "string \<Rightarrow> (string \<Rightarrow> nat) \<Rightarrow> string \<Rightarrow> nat" where
  "inc_label l f = f(l := Suc (f l))"

section \<open>The server\<close>

record response =
  rs_Status :: nat
  rs_ContentType :: "string option"
  rs_Body :: string

datatype route = RPost | RHealthz | RReadyz | RMetrics | RRedirect string | RNotAllowed | RNotFound

text \<open>
  \<open>Server\<close>. The signature library, the metrics handler of the Prometheus library and the texts
  the router of \<open>net/http\<close> puts into its own replies are parameters.
\<close>

record ('s, 'v) server =
  sv_handler :: "ctx \<Rightarrow> identity \<Rightarrow> ('s, result) state"
  sv_ready :: "('s \<Rightarrow> bool) option"
  sv_pubKey :: string
  sv_freshnessWindow :: duration
  sv_timeout :: duration
  sv_level :: log_level
  sv_sig :: "'v sig_lib"
  sv_lower :: "nat \<Rightarrow> nat"
  sv_increments :: "'s \<Rightarrow> metric list"
  sv_promhttp :: "(string \<times> collector) list \<Rightarrow> response"
  sv_muxText :: "route \<Rightarrow> string option \<times> string"

record 's http_state =
  backend :: 's
  metrics_of :: metrics
  log_records :: "log_record list"

record request_env =
  env_body :: string               \<comment> \<open>the bytes of the body\<close>
  env_bodyError :: bool            \<comment> \<open>the connection breaks after them\<close>
  env_now :: instant
  env_timedOut :: bool             \<comment> \<open>the context is done before the select sees a result\<close>
  env_writeError :: "(nat \<times> string) option" \<comment> \<open>only so many bytes of the response body are written\<close>

text \<open>\<open>httpapi.New\<close>: the server, and the state of a fresh one.\<close>

definition New_server ::
  "(ctx \<Rightarrow> identity \<Rightarrow> ('s, result) state) \<Rightarrow> ('s \<Rightarrow> bool) option \<Rightarrow> string \<Rightarrow> duration \<Rightarrow> duration \<Rightarrow> log_level
   \<Rightarrow> 'v sig_lib \<Rightarrow> (nat \<Rightarrow> nat) \<Rightarrow> ('s \<Rightarrow> metric list) \<Rightarrow> ((string \<times> collector) list \<Rightarrow> response)
   \<Rightarrow> (route \<Rightarrow> string option \<times> string) \<Rightarrow> ('s, 'v) server" where
  "New_server handler ready pubKey freshnessWindow timeout level sl ul increments prom mux =
     \<lparr>sv_handler = handler, sv_ready = ready, sv_pubKey = pubKey, sv_freshnessWindow = freshnessWindow,
      sv_timeout = timeout, sv_level = level, sv_sig = sl, sv_lower = ul, sv_increments = increments,
      sv_promhttp = prom, sv_muxText = mux\<rparr>"

definition New_http :: "'s \<Rightarrow> 's http_state" where
  "New_http s = \<lparr>backend = s, metrics_of = newMetrics, log_records = []\<rparr>"

definition log_to :: "('s, 'v) server \<Rightarrow> log_level \<Rightarrow> string \<Rightarrow> (string \<times> log_value) list \<Rightarrow> ('s http_state, unit) state" where
  "log_to sv level msg attrs =
     State_Monad.update (\<lambda>st. st\<lparr>log_records := log_records st @ slog (sv_level sv) level msg attrs\<rparr>)"

definition count :: "(metrics \<Rightarrow> metrics) \<Rightarrow> ('s http_state, unit) state" where
  "count f = State_Monad.update (\<lambda>st. st\<lparr>metrics_of := f (metrics_of st)\<rparr>)"

definition count_request :: "string \<Rightarrow> ('s http_state, unit) state" where
  "count_request l = count (\<lambda>m. m\<lparr>requestsTotal := inc_label l (requestsTotal m)\<rparr>)"

definition on_backend :: "('s, 'a) state \<Rightarrow> ('s http_state, 'a) state" where
  "on_backend m = State (\<lambda>st. let (a, s) = run_state m (backend st) in (a, st\<lparr>backend := s\<rparr>))"

section \<open>POST /\<close>

definition maxBodyBytes :: nat where
  "maxBodyBytes = 2 ^ 20"

datatype body_read = BodyOK string | BodyTooLarge | BodyFailed

text \<open>\<open>io.ReadAll\<close> of a \<open>MaxBytesReader\<close>.\<close>

definition read_body :: "request_env \<Rightarrow> body_read" where
  "read_body env =
     (if maxBodyBytes < length (env_body env) then BodyTooLarge
      else if env_bodyError env then BodyFailed
      else BodyOK (env_body env))"

definition status_only :: "nat \<Rightarrow> response" where
  "status_only code = \<lparr>rs_Status = code, rs_ContentType = None, rs_Body = []\<rparr>"

text \<open>The race of \<open>callHandler\<close>: the handler runs in its own goroutine to its end in either case; its
  result is dropped when the context was done first.\<close>

definition timeout_result :: result where
  "timeout_result =
     \<lparr>r_Status = 502, r_Secrets = [], r_Outcome = OutcomeError, r_RevokeFailed = False,
      r_Audit = \<lparr>PoliciesRequested = [], PolicyWarnings = [], SecretNames = [], TokenAccessor = [], TokenTTL = 0\<rparr>\<rparr>"

definition callHandler :: "('s, 'v) server \<Rightarrow> bool \<Rightarrow> identity \<Rightarrow> ('s http_state, result) state" where
  "callHandler sv timedOut ident = do {
     result \<leftarrow> on_backend (sv_handler sv RequestCtx ident);
     State_Monad.return (if timedOut then timeout_result else result)
   }"

definition logRefusedSignature :: "('s, 'v) server \<Rightarrow> http_request \<Rightarrow> verify_error \<Rightarrow> ('s http_state, unit) state" where
  "logRefusedSignature sv r e = do {
     let reason = reason_text (ve_Reason e);
     count (\<lambda>m. m\<lparr>signatureFailuresTotal := inc_label reason (signatureFailuresTotal m)\<rparr>);
     count_request ''refused_signature'';
     log_to sv LevelInfo ''signature refused''
       [(''remote_addr'', LStr (hr_RemoteAddr r)), (''reason'', LStr reason), (''outcome'', LStr ''refused_signature'')]
   }"

fun outcome_text :: "outcome \<Rightarrow> string" where
  "outcome_text OutcomeOK = ''ok''"
| "outcome_text OutcomeUnonboarded = ''unonboarded''"
| "outcome_text OutcomeIdentityMismatch = ''identity_mismatch''"
| "outcome_text OutcomeError = ''error''"

text \<open>The attributes of the audit record. (A nil slice and an empty one, which slog writes differently, are both \<open>[]\<close>.)\<close>

definition audit_attrs :: "identity \<Rightarrow> result \<Rightarrow> (string \<times> log_value) list" where
  "audit_attrs ident result =
     [(''org'', LStr (Org ident)), (''repo'', LStr (Repo ident)), (''event'', LStr (Event ident)),
      (''branch'', LStr (Branch ident)), (''pipeline_number'', LInt (PipelineNumber ident)),
      (''policies_requested'', LStrs (PoliciesRequested (r_Audit result))),
      (''policy_warnings'', LStrs (PolicyWarnings (r_Audit result))),
      (''secrets_returned'', LStrs (SecretNames (r_Audit result))),
      (''token_accessor'', LStr (TokenAccessor (r_Audit result))),
      (''token_ttl'', LDuration (TokenTTL (r_Audit result))),
      (''outcome'', LStr (outcome_text (r_Outcome result)))]"

text \<open>The text of the error record; the section sign is two bytes.\<close>

definition revoke_failed_msg :: string where
  "revoke_failed_msg = ''best-effort token revoke failed after a non-200 response (SPEC '' @ [CHR 0xC2, CHR 0xA7]
     @ ''3.4); TTL is the backstop''"

definition auditVerified :: "('s, 'v) server \<Rightarrow> identity \<Rightarrow> result \<Rightarrow> ('s http_state, unit) state" where
  "auditVerified sv ident result = do {
     count_request (outcome_text (r_Outcome result));
     (if TokenAccessor (r_Audit result) \<noteq> [] then count (\<lambda>m. m\<lparr>mintsTotal := Suc (mintsTotal m)\<rparr>)
      else State_Monad.return ());
     count (\<lambda>m. m\<lparr>mintWarningsTotal := mintWarningsTotal m + length (PolicyWarnings (r_Audit result))\<rparr>);
     log_to sv LevelInfo ''request'' (audit_attrs ident result);
     (if r_RevokeFailed result then
        log_to sv LevelError revoke_failed_msg
          [(''org'', LStr (Org ident)), (''repo'', LStr (Repo ident)),
           (''token_accessor'', LStr (TokenAccessor (r_Audit result)))]
      else State_Monad.return ())
   }"

text \<open>The body of a 200: \<open>secretResponse\<close> and \<open>responseBody\<close> as JSON, the images left out when there are none.\<close>

definition secretResponse :: "secret \<Rightarrow> json" where
  "secretResponse s = JObj
     ([(''name'', JStr (sec_Name s)), (''value'', JStr (sec_Value s)), (''events'', JArr (map JStr (sec_Events s)))]
      @ (if sec_Images s = [] then [] else [(''images'', JArr (map JStr (sec_Images s)))]))"

definition responseBody :: "secret list \<Rightarrow> json" where
  "responseBody ss = JObj [(''secrets'', JArr (map secretResponse ss))]"

definition renderResult :: "('s, 'v) server \<Rightarrow> request_env \<Rightarrow> result \<Rightarrow> ('s http_state, response) state" where
  "renderResult sv env result =
     (if r_Status result = 200 then do {
        let body = Encode (responseBody (r_Secrets result));
        (case env_writeError env of
           Some (n, err) \<Rightarrow> log_to sv LevelDebug ''failed to encode response body'' [(''error'', LStr err)]
         | None \<Rightarrow> State_Monad.return ());
        State_Monad.return \<lparr>rs_Status = 200, rs_ContentType = Some ''application/json'',
          rs_Body = (case env_writeError env of Some (n, _) \<Rightarrow> take n body | None \<Rightarrow> body)\<rparr>
      }
      else if r_Status result = 204 then State_Monad.return (status_only 204)
      else State_Monad.return (status_only 502))"

definition handlePost :: "('s, 'v) server \<Rightarrow> http_request \<Rightarrow> request_env \<Rightarrow> ('s http_state, response) state" where
  "handlePost sv r env =
     (case read_body env of
        BodyTooLarge \<Rightarrow> State_Monad.return (status_only 413)
      | BodyFailed \<Rightarrow> State_Monad.return (status_only 400)
      | BodyOK body \<Rightarrow>
          (case Verify (sv_sig sv) r body (sv_pubKey sv) (sv_freshnessWindow sv) (env_now env) of
             Some verr \<Rightarrow> do {
               logRefusedSignature sv r verr;
               State_Monad.return (status_only 401)
             }
           | None \<Rightarrow>
               (case Parse (sv_lower sv) body of
                  Inl _ \<Rightarrow> do {
                    count_request ''error'';
                    log_to sv LevelInfo ''identity parse failed''
                      [(''remote_addr'', LStr (hr_RemoteAddr r)), (''outcome'', LStr ''error'')];
                    State_Monad.return (status_only 400)
                  }
                | Inr ident \<Rightarrow> do {
                    result \<leftarrow> callHandler sv (env_timedOut env) ident;
                    resp \<leftarrow> renderResult sv env result;
                    auditVerified sv ident result;
                    State_Monad.return resp
                  })))"

section \<open>Routes\<close>

definition handleHealthz :: "('s http_state, response) state" where
  "handleHealthz = State_Monad.return (status_only 200)"

definition handleReadyz :: "('s, 'v) server \<Rightarrow> ('s http_state, response) state" where
  "handleReadyz sv = do {
     st \<leftarrow> State_Monad.get;
     State_Monad.return
       (case sv_ready sv of
          Some ready \<Rightarrow> (if ready (backend st) then status_only 200 else status_only 503)
        | None \<Rightarrow> status_only 503)
   }"

definition handleMetrics :: "('s, 'v) server \<Rightarrow> ('s http_state, response) state" where
  "handleMetrics sv = do {
     st \<leftarrow> State_Monad.get;
     State_Monad.return (sv_promhttp sv (registry (VaultMetrics (sv_increments sv (backend st)) (metrics_of st))))
   }"

text \<open>The router of \<open>net/http\<close>: the path is cleaned (a request for another spelling is redirected), its one segment
  unescaped; a pattern for GET also takes HEAD; a path with patterns for other methods only is
  not allowed.\<close>

fun clean_segs :: "string list \<Rightarrow> string list \<Rightarrow> string list" where
  "clean_segs [] out = rev out"
| "clean_segs (seg # segs) out =
     (if seg = [] \<or> seg = ''.'' then clean_segs segs out
      else if seg = ''..'' then clean_segs segs (tl out)
      else clean_segs segs (seg # out))"

definition cleanPath :: "string \<Rightarrow> string" where
  "cleanPath p =
     (if p = [] then ''/''
      else
        (let p = (if hd p = CHR ''/'' then p else CHR ''/'' # p);
             np = CHR ''/'' # join_with (CHR ''/'') (clean_segs (split_on (CHR ''/'') p) []) in
         if last p = CHR ''/'' \<and> np \<noteq> ''/'' then np @ ''/'' else np))"

definition pathUnescape :: "string \<Rightarrow> string" where
  "pathUnescape s = (case unesc s of Some u \<Rightarrow> u | None \<Rightarrow> s)"

text \<open>The registered patterns, by method and the one segment of their path; \<open>{$}\<close> is the segment \<open>/\<close>. Then those whose
  path matches.\<close>

definition mux_patterns :: "(string \<times> string \<times> route) list" where
  "mux_patterns =
     [(''POST'', ''/'', RPost), (''GET'', ''healthz'', RHealthz), (''GET'', ''readyz'', RReadyz), (''GET'', ''metrics'', RMetrics)]"

definition path_patterns :: "string \<Rightarrow> (string \<times> route) list" where
  "path_patterns path =
     (let seg = (if path = ''/'' then ''/'' else pathUnescape (drop 1 path)) in
      if CHR ''/'' \<in> set (drop 1 path) then []
      else [(m, rt). (m, s, rt) \<leftarrow> mux_patterns, s = seg])"

lemma path_patterns_eq:
  "path_patterns path =
     (let seg = (if path = ''/'' then ''/'' else pathUnescape (drop 1 path)) in
      if CHR ''/'' \<in> set (drop 1 path) then []
      else if seg = ''/'' then [(''POST'', RPost)]
      else if seg = ''healthz'' then [(''GET'', RHealthz)]
      else if seg = ''readyz'' then [(''GET'', RReadyz)]
      else if seg = ''metrics'' then [(''GET'', RMetrics)]
      else [])"
  by (auto simp: path_patterns_def mux_patterns_def Let_def)

definition route_of :: "string \<Rightarrow> string \<Rightarrow> route" where
  "route_of method path =
     (if method \<noteq> ''CONNECT'' \<and> cleanPath path \<noteq> path then RRedirect (cleanPath path)
      else
        (case map_of (path_patterns path) (if method = ''HEAD'' then ''GET'' else method) of
           Some rt \<Rightarrow> rt
         | None \<Rightarrow> (if path_patterns path = [] then RNotFound else RNotAllowed)))"

definition mux_reply :: "('s, 'v) server \<Rightarrow> nat \<Rightarrow> route \<Rightarrow> response" where
  "mux_reply sv code rt =
     \<lparr>rs_Status = code, rs_ContentType = fst (sv_muxText sv rt), rs_Body = snd (sv_muxText sv rt)\<rparr>"

definition ServeHTTP :: "('s, 'v) server \<Rightarrow> http_request \<Rightarrow> request_env \<Rightarrow> ('s http_state, response) state" where
  "ServeHTTP sv r env =
     (case route_of (hr_Method r) (hr_Path r) of
        RPost \<Rightarrow> handlePost sv r env
      | RHealthz \<Rightarrow> handleHealthz
      | RReadyz \<Rightarrow> handleReadyz sv
      | RMetrics \<Rightarrow> handleMetrics sv
      | RRedirect p \<Rightarrow> State_Monad.return (mux_reply sv 301 (RRedirect p))
      | RNotAllowed \<Rightarrow> State_Monad.return (mux_reply sv 405 RNotAllowed)
      | RNotFound \<Rightarrow> State_Monad.return (mux_reply sv 404 RNotFound))"

section \<open>Lemmas\<close>

lemma run_on_backend [simp]:
  "run_state (on_backend m) st =
     (fst (run_state m (backend st)), st\<lparr>backend := snd (run_state m (backend st))\<rparr>)"
  by (simp add: on_backend_def split_beta)

lemma run_log_to [simp]:
  "run_state (log_to sv level msg attrs) st =
     ((), st\<lparr>log_records := log_records st @ slog (sv_level sv) level msg attrs\<rparr>)"
  by (simp add: log_to_def)

lemma run_count [simp]: "run_state (count f) st = ((), st\<lparr>metrics_of := f (metrics_of st)\<rparr>)"
  by (simp add: count_def)

text \<open>What the refusal, the rendering and the audit do to the state.\<close>

definition refusal_records :: "('s, 'v) server \<Rightarrow> string \<Rightarrow> reason \<Rightarrow> log_record list" where
  "refusal_records sv addr reason = slog (sv_level sv) LevelInfo ''signature refused''
     [(''remote_addr'', LStr addr), (''reason'', LStr (reason_text reason)), (''outcome'', LStr ''refused_signature'')]"

definition refusal_metrics :: "reason \<Rightarrow> metrics \<Rightarrow> metrics" where
  "refusal_metrics reason m =
     m\<lparr>signatureFailuresTotal := inc_label (reason_text reason) (signatureFailuresTotal m),
       requestsTotal := inc_label ''refused_signature'' (requestsTotal m)\<rparr>"

lemma run_logRefused [simp]:
  "run_state (logRefusedSignature sv r e) st =
     ((), st\<lparr>metrics_of := refusal_metrics (ve_Reason e) (metrics_of st),
            log_records := log_records st @ refusal_records sv (hr_RemoteAddr r) (ve_Reason e)\<rparr>)"
  by (simp add: logRefusedSignature_def count_request_def refusal_records_def refusal_metrics_def Let_def)

definition audit_records :: "('s, 'v) server \<Rightarrow> identity \<Rightarrow> result \<Rightarrow> log_record list" where
  "audit_records sv ident result =
     slog (sv_level sv) LevelInfo ''request'' (audit_attrs ident result)
     @ (if r_RevokeFailed result then slog (sv_level sv) LevelError revoke_failed_msg
          [(''org'', LStr (Org ident)), (''repo'', LStr (Repo ident)),
           (''token_accessor'', LStr (TokenAccessor (r_Audit result)))] else [])"

definition audit_metrics :: "result \<Rightarrow> metrics \<Rightarrow> metrics" where
  "audit_metrics result m =
     m\<lparr>requestsTotal := inc_label (outcome_text (r_Outcome result)) (requestsTotal m),
       mintsTotal := mintsTotal m + (if TokenAccessor (r_Audit result) = [] then 0 else 1),
       mintWarningsTotal := mintWarningsTotal m + length (PolicyWarnings (r_Audit result))\<rparr>"

lemma run_auditVerified [simp]:
  "run_state (auditVerified sv ident result) st =
     ((), st\<lparr>metrics_of := audit_metrics result (metrics_of st),
            log_records := log_records st @ audit_records sv ident result\<rparr>)"
  by (simp add: auditVerified_def count_request_def audit_records_def audit_metrics_def)

definition render_records :: "('s, 'v) server \<Rightarrow> request_env \<Rightarrow> result \<Rightarrow> log_record list" where
  "render_records sv env result =
     (case env_writeError env of
        Some (n, err) \<Rightarrow> (if r_Status result = 200
          then slog (sv_level sv) LevelDebug ''failed to encode response body'' [(''error'', LStr err)] else [])
      | None \<Rightarrow> [])"

definition rendered :: "request_env \<Rightarrow> result \<Rightarrow> response" where
  "rendered env result =
     (if r_Status result = 200 then
        \<lparr>rs_Status = 200, rs_ContentType = Some ''application/json'',
         rs_Body = (let body = Encode (responseBody (r_Secrets result)) in
           case env_writeError env of Some (n, _) \<Rightarrow> take n body | None \<Rightarrow> body)\<rparr>
      else if r_Status result = 204 then status_only 204 else status_only 502)"

lemma run_renderResult [simp]:
  "run_state (renderResult sv env result) st =
     (rendered env result, st\<lparr>log_records := log_records st @ render_records sv env result\<rparr>)"
  by (simp add: renderResult_def rendered_def render_records_def Let_def split: option.split)

lemma rendered_status:
  "rs_Status (rendered env result) = (if r_Status result \<in> {200, 204} then r_Status result else 502)"
  by (simp add: rendered_def status_only_def)

text \<open>The result of the race, and an accepted request as a whole.\<close>

definition raced :: "request_env \<Rightarrow> result \<Rightarrow> result" where
  "raced env result = (if env_timedOut env then timeout_result else result)"

definition accepted :: "('s, 'v) server \<Rightarrow> http_request \<Rightarrow> request_env \<Rightarrow> identity \<Rightarrow> bool" where
  "accepted sv r env ident \<longleftrightarrow>
     length (env_body env) \<le> maxBodyBytes \<and> \<not> env_bodyError env \<and>
     Verify (sv_sig sv) r (env_body env) (sv_pubKey sv) (sv_freshnessWindow sv) (env_now env) = None \<and>
     Parse (sv_lower sv) (env_body env) = Inr ident"

lemma run_accepted:
  assumes "accepted sv r env ident"
  shows "run_state (handlePost sv r env) st =
     (let (res, s) = run_state (sv_handler sv RequestCtx ident) (backend st); res = raced env res in
      (rendered env res,
       st\<lparr>backend := s, metrics_of := audit_metrics res (metrics_of st),
          log_records := log_records st @ render_records sv env res @ audit_records sv ident res\<rparr>))"
  using assms by (simp add: accepted_def handlePost_def read_body_def callHandler_def raced_def Let_def split_beta)

lemma run_refused:
  assumes "\<And>ident. \<not> accepted sv r env ident" and "run_state (handlePost sv r env) st = (resp, st')"
  shows "backend st' = backend st \<and> rs_Status resp \<in> {400, 401, 413} \<and> rs_Body resp = []"
  using assms
  by (auto simp: accepted_def handlePost_def read_body_def status_only_def count_request_def
      split: if_splits option.splits sum.splits)

end
