(* ===== verification/GoValid.thy ===== *)
theory GoValid
  imports GoEncode GoDecode
begin

text \<open>
  Valid UTF-8 through the string operations and the decoders of the program: the strings of a parsed JSON
  text are valid, and cutting at an ASCII separator, trimming and lower-casing keep
  them so. A chunk of a string is sound when its bytes are the encoding of its code point; a string is
  valid when all its chunks are sound.
\<close>

section \<open>Sound chunks\<close>

fun sound_chunk :: "nat \<times> string \<Rightarrow> bool" where
  "sound_chunk (r, bs) \<longleftrightarrow> encode_rune r = bs"

lemma valid_concat: "valid_str (concat (map encode_rune rs))"
  by (induction rs) simp_all

lemma sound_valid: "list_all sound_chunk ps \<Longrightarrow> valid_str (concat (map snd ps))"
  by (induction ps) auto

lemma valid_chunks: "valid_str s \<Longrightarrow> list_all sound_chunk (chunks s)"
proof -
  have "list_all sound_chunk (chunks (concat (map encode_rune rs)))" for rs
    by (induction rs) (simp_all add: chunks_encode encode_norm)
  then have "list_all sound_chunk (chunks (to_valid s))" by (metis to_valid_def map_map)
  then show "valid_str s \<Longrightarrow> ?thesis" by (simp add: valid_str_def)
qed

lemma valid_iff_sound: "valid_str s \<longleftrightarrow> list_all sound_chunk (chunks s)"
  using valid_chunks sound_valid [of "chunks s"] by (auto simp: concat_chunks)

lemma valid_ascii: "is_ascii s \<Longrightarrow> valid_str s"
  by (induction s) (auto simp: valid_ascii_Cons)

lemma to_valid_ascii: "is_ascii s \<Longrightarrow> to_valid s = s"
  using valid_ascii by (simp add: valid_str_def)

section \<open>An ASCII byte separates chunks\<close>

lemma byte_in_append:
  assumes "byte_val c < 128" "128 \<le> lo"
  shows "i < length s \<Longrightarrow> byte_in lo hi (s @ c # t) i = byte_in lo hi s i"
    and "i = length s \<Longrightarrow> \<not> byte_in lo hi (s @ c # t) i"
    and "length s \<le> i \<Longrightarrow> \<not> byte_in lo hi s i"
  using assms by (auto simp: byte_in_def nth_append)

lemma rune_width_append:
  assumes "byte_val c < 128" "s \<noteq> []"
  shows "rune_width (s @ c # t) = rune_width s"
proof -
  have hd: "hd (s @ c # t) = hd s" using assms(2) by simp
  note b = byte_in_append [OF assms(1)]
  have "length s \<noteq> 0" using assms(2) by simp
  then consider "length s = 1" | "length s = 2" | "length s = 3" | "4 \<le> length s" by linarith
  then show ?thesis
    by cases (simp_all add: rune_width_def hd Let_def b)
qed

lemma rune_of_append:
  assumes "byte_val c < 128" "s \<noteq> []"
  shows "rune_of (s @ c # t) = rune_of s"
proof -
  have "rune_width s \<le> length s" using assms(2) by (rule rune_width_len)
  then show ?thesis
    using assms(2) by (simp add: rune_of_def rune_width_append [OF assms] Let_def nth_append)
qed

lemma chunks_append: "byte_val c < 128 \<Longrightarrow> chunks (s @ c # t) = chunks s @ chunks (c # t)"
proof (induction s rule: chunks.induct)
  case (2 a s)
  have w: "rune_width (a # s @ c # t) = rune_width (a # s)" "rune_of (a # s @ c # t) = rune_of (a # s)"
    using rune_width_append [OF "2.prems", of "a # s"] rune_of_append [OF "2.prems", of "a # s"] by simp_all
  have len: "rune_width (a # s) \<le> Suc (length s)" using rune_width_len [of "a # s"] by simp
  have tk: "take (rune_width (a # s)) (a # s @ c # t) = take (rune_width (a # s)) (a # s)"
    using len by (cases "rune_width (a # s)") simp_all
  have "chunks (a # s @ c # t) = (rune_of (a # s), take (rune_width (a # s)) (a # s))
      # chunks (drop (rune_width (a # s) - 1) s @ c # t)"
    unfolding chunks.simps(2) w tk using len by simp
  then show ?case using "2.IH" [OF "2.prems"] by (simp add: chunks.simps(2) [of a s])
qed simp

lemma valid_append: "byte_val c < 128 \<Longrightarrow> valid_str (s @ c # t) \<longleftrightarrow> valid_str s \<and> valid_str t"
  using valid_ascii_Cons [of c t] by (simp add: valid_iff_sound chunks_append)

lemma split_on_singleton: "split_on sep s = [p] \<Longrightarrow> p = s"
  using join_split [of sep s] by simp

lemma valid_split: "byte_val sep < 128 \<Longrightarrow> valid_str s \<Longrightarrow> list_all valid_str (split_on sep s)"
proof (induction "split_on sep s" arbitrary: s)
  case (Cons p ps)
  show ?case
  proof (cases "ps = []")
    case True
    then have sp: "split_on sep s = [p]" using Cons(2) by simp
    from split_on_singleton [OF this] show ?thesis using Cons(4) by (simp add: sp)
  next
    case False
    then have s: "s = p @ sep # join_with sep ps" using Cons join_split [of sep s] by (metis join_with_Cons)
    have no: "sep \<notin> set q" if "q \<in> set (p # ps)" for q
      using that split_on_no_sep [of q sep s] Cons(2) by simp
    then have ps: "ps = split_on sep (join_with sep ps)" using False by (intro split_join [symmetric]) auto
    have v: "valid_str p" "valid_str (join_with sep ps)" using Cons(3,4) s by (simp_all add: valid_append)
    from Cons(1) [OF ps Cons(3) v(2)] v(1) show ?thesis by (simp flip: Cons(2) ps)
  qed
qed simp

lemma valid_trim: "valid_str s \<Longrightarrow> valid_str (trim_space s)"
proof -
  let ?q = "\<lambda>(r, _). is_space_rune r"
  assume "valid_str s"
  then have "\<forall>p \<in> set (chunks s). sound_chunk p" by (simp add: valid_iff_sound list_all_iff)
  then have "list_all sound_chunk (rev (dropWhile ?q (rev (dropWhile ?q (chunks s)))))"
    unfolding list_all_iff by (meson set_dropWhileD set_rev [THEN equalityD1, THEN subsetD])
  then show ?thesis unfolding trim_space_def Let_def by (rule sound_valid)
qed

lemma valid_lower: "valid_str (to_lower ul s)"
proof (cases "is_ascii s")
  case True
  then have "is_ascii (map lower_byte s)" by (auto simp: is_ascii_def list_all_iff lower_byte_def less_eq_char_def)
  with True show ?thesis by (simp add: to_lower_def valid_ascii)
next
  case False
  then show ?thesis
    using valid_concat [of "map (ul \<circ> fst) (chunks s)"] by (simp add: to_lower_def case_prod_unfold comp_def)
qed

section \<open>Parsed JSON\<close>

text \<open>All strings of a value are valid.\<close>

definition valid_json :: "json \<Rightarrow> bool" where
  "valid_json j \<longleftrightarrow> clean j = j"

lemma valid_json_simps [simp]:
  "valid_json JNull" "valid_json (JBool b)" "valid_json (JNum l)"
  "valid_json (JStr s) \<longleftrightarrow> valid_str s"
  "valid_json (JArr js) \<longleftrightarrow> list_all valid_json js"
  "valid_json (JObj kvs) \<longleftrightarrow> list_all (\<lambda>(k, v). valid_str k \<and> valid_json v) kvs"
proof -
  show "valid_json (JArr js) \<longleftrightarrow> list_all valid_json js" by (induction js) (auto simp: valid_json_def)
  show "valid_json (JObj kvs) \<longleftrightarrow> list_all (\<lambda>(k, v). valid_str k \<and> valid_json v) kvs"
    by (induction kvs) (auto simp: valid_json_def valid_str_def)
qed (simp_all add: valid_json_def valid_str_def)

lemma j_valid:
  "jval n d s = Some (v, r) \<Longrightarrow> valid_json v"
  "jelems n d s = Some (vs, r) \<Longrightarrow> list_all valid_json vs"
  "jmembers n d s = Some (ms, r) \<Longrightarrow> list_all (\<lambda>(k, v). valid_str k \<and> valid_json v) ms"
proof (induction n d s and n d s and n d s arbitrary: v r and vs r and ms r rule: jval_jelems_jmembers.induct)
  case (2 n d s)
  then show ?case
    by (auto simp: jval.simps(2) strip_lit_def dest: str_lit_valid split: list.splits if_splits)
next
  case (4 n d s)
  then show ?case by (auto simp: jelems.simps(2) split: option.splits list.splits if_splits)
next
  case (6 n d s)
  then show ?case
    by (auto simp: jmembers.simps(2) str_lit_valid split: option.splits list.splits if_splits)
qed simp_all

lemma parse_json_valid: "parse_json s = Some j \<Longrightarrow> valid_json j"
  by (auto simp: parse_json_def dest: j_valid split: option.splits if_splits)

section \<open>Decoders\<close>

text \<open>\<open>dec_keeps P d\<close>: from a value of valid strings, contents that satisfy \<open>P\<close> are decoded into such contents.\<close>

definition dec_keeps :: "('a \<Rightarrow> bool) \<Rightarrow> 'a dec \<Rightarrow> bool" where
  "dec_keeps P d \<longleftrightarrow> (\<forall>j old v. valid_json j \<longrightarrow> P old \<longrightarrow> d j old = Some v \<longrightarrow> P v)"

named_theorems dec_intros "composition rules for what decoders keep"

lemma dec_keepsD: "dec_keeps P d \<Longrightarrow> d j old = Some v \<Longrightarrow> valid_json j \<Longrightarrow> P old \<Longrightarrow> P v"
  by (auto simp: dec_keeps_def)

lemma dec_keeps_string [dec_intros]: "dec_keeps valid_str dec_string"
proof -
  have "valid_str v" if "valid_json j" "valid_str old" "dec_string j old = Some v" for j old v
    using that by (cases j) auto
  then show ?thesis by (auto simp: dec_keeps_def)
qed

lemma dec_keeps_any [dec_intros]: "dec_keeps (\<lambda>_. True) d"
  by (simp add: dec_keeps_def)

lemma dec_keeps_raw [dec_intros]: "dec_keeps valid_json dec_raw_elem"
  by (simp add: dec_keeps_def dec_raw_elem_def)

lemma dec_keeps_field:
  assumes "dec_keeps Q d" "\<And>s. P s \<Longrightarrow> Q (get s)" "\<And>s v. P s \<Longrightarrow> Q v \<Longrightarrow> P (put v s)"
  shows "dec_keeps P (dec_field get put d)"
  using assms unfolding dec_keeps_def dec_field_def by blast

lemma dec_keeps_other: "(\<And>s v. P s \<Longrightarrow> P (put v s)) \<Longrightarrow> dec_keeps P (dec_field get put d)"
  by (rule dec_keeps_field [OF dec_keeps_any]) auto

lemma dec_keeps_ptr [dec_intros]:
  "P zero \<Longrightarrow> dec_keeps P d \<Longrightarrow> dec_keeps (pred_option P) (dec_ptr zero d)"
  unfolding dec_keeps_def dec_ptr_def
  by (fastforce split: option.splits if_splits)

lemma find_in: "find Q xs = Some x \<Longrightarrow> x \<in> set xs"
  by (auto simp: find_Some_iff)

lemma find_field_in: "find_field tbl k = Some d \<Longrightarrow> d \<in> snd ` set tbl"
  by (cases "map_of tbl k") (force simp: find_field_def dest: map_of_SomeD find_in)+

lemma dec_keeps_struct [dec_intros]:
  assumes "list_all (dec_keeps P) (map snd tbl)"
  shows "dec_keeps P (dec_struct tbl)"
proof -
  have tbl: "dec_keeps P d" if "d \<in> snd ` set tbl" for d
    using assms that by (auto simp: list_all_iff)
  have members: "P v" if "list_all (\<lambda>(k, v). valid_str k \<and> valid_json v) kvs" "P a" "dec_members tbl kvs a = Some v"
    for kvs a v
    using that
  proof (induction kvs arbitrary: a)
    case (Cons m kvs)
    obtain k j where m: "m = (k, j)" by fastforce
    show ?case
    proof (cases "find_field tbl k")
      case None
      with Cons m show ?thesis by simp
    next
      case (Some d)
      with Cons.prems m obtain a' where a': "d j a = Some a'" "dec_members tbl kvs a' = Some v"
        by (auto split: option.splits)
      have "P a'" using dec_keepsD [OF tbl [OF find_field_in [OF Some]] a'(1)] Cons.prems m by simp
      from Cons.IH [OF _ this a'(2)] Cons.prems m show ?thesis by simp
    qed
  qed simp
  have "P v" if "valid_json j" "P a" "dec_struct tbl j a = Some v" for j a v
    using that members by (cases j) auto
  then show ?thesis by (auto simp: dec_keeps_def)
qed

lemma set_AList_update: "set (AList.update k v m) \<subseteq> insert (k, v) (set m)"
  by (induction m) auto

definition values_ok :: "('a \<Rightarrow> bool) \<Rightarrow> (string \<times> 'a) list \<Rightarrow> bool" where
  "values_ok P m \<longleftrightarrow> (\<forall>(k, v) \<in> set m. P v)"

lemma values_ok_Nil [simp]: "values_ok P []"
  by (simp add: values_ok_def)

lemma values_ok_lookup: "values_ok P m \<Longrightarrow> map_of m k = Some v \<Longrightarrow> P v"
  by (auto simp: values_ok_def dest: map_of_SomeD)

lemma dec_keeps_map [dec_intros]:
  assumes d: "P zero" "dec_keeps P d"
  shows "dec_keeps (values_ok P) (dec_map zero d)"
proof -
  have entries: "\<forall>(k, v) \<in> set m'. P v"
    if "list_all (\<lambda>(k, v). valid_str k \<and> valid_json v) kvs" "\<forall>(k, v) \<in> set m. P v" "dec_entries zero d kvs m = Some m'"
    for kvs m m'
    using that
  proof (induction kvs arbitrary: m)
    case (Cons e kvs)
    obtain k j where e: "e = (k, j)" by fastforce
    with Cons.prems obtain v where v: "d j zero = Some v" "dec_entries zero d kvs (AList.update k v m) = Some m'"
      by (auto split: option.splits)
    have "P v" using dec_keepsD [OF d(2) v(1)] d(1) Cons.prems e by simp
    then have "\<forall>(k, v) \<in> set (AList.update k v m). P v"
      using Cons.prems(2) set_AList_update [of k v m] by fastforce
    from Cons.IH [OF _ this v(2)] Cons.prems e show ?case by simp
  qed simp
  have "\<forall>(k, v) \<in> set m'. P v" if "valid_json j" "\<forall>(k, v) \<in> set m. P v" "dec_map zero d j m = Some m'" for j m m'
    using that entries by (cases j) auto
  then show ?thesis unfolding dec_keeps_def values_ok_def by blast
qed

end
