(* ===== verification/HttpProps.thy ===== *)
theory HttpProps
  imports HttpApi GoValid
begin

text \<open>
  What the HTTP surface guarantees: only verified requests reach the handler, refusals reveal
  nothing of the payload, the response body reads back as the secrets of the result, every
  POST whose body was read is counted once, and what the timeout race loses. The locale \<open>handler_contract\<close> states what the server relies on of its handler.
\<close>

section \<open>The contract of a handler\<close>

locale handler_contract =
  fixes handle :: "ctx \<Rightarrow> identity \<Rightarrow> ('s, result) state"
  assumes result_law: "ok_result (fst (run_state (handle ctx ident) s))"
begin

lemma raced_ok: "ok_result (raced env (fst (run_state (handle ctx ident) s)))"
  using result_law by (auto simp: raced_def timeout_result_def ok_result_def)

text \<open>No result of such a handler is rendered as something else than its own status.\<close>

lemma rendered_own_status:
  "rs_Status (rendered env (raced env' (fst (run_state (handle ctx ident) s)))) =
     r_Status (raced env' (fst (run_state (handle ctx ident) s)))"
  using raced_ok [of env' ctx ident s] by (auto simp: rendered_status ok_result_def)

lemma post_status:
  assumes "sv_handler sv = handle" and run: "run_state (handlePost sv r env) st = (resp, st')"
  shows "rs_Status resp \<in> {200, 204, 400, 401, 413, 502} \<and> (rs_Status resp \<noteq> 200 \<longrightarrow> rs_Body resp = [])"
proof (cases "\<exists>ident. accepted sv r env ident")
  case True
  then obtain ident where acc: "accepted sv r env ident" ..
  let ?res = "raced env (fst (run_state (handle RequestCtx ident) (backend st)))"
  have "resp = rendered env ?res"
    using run unfolding run_accepted [OF acc] assms(1) by (simp add: Let_def split_beta)
  then show ?thesis
    using raced_ok [of env RequestCtx ident "backend st"] by (auto simp: rendered_def status_only_def ok_result_def)
next
  case False
  with run_refused [OF _ run] show ?thesis by auto
qed

end

interpretation broker_handler: handler_contract "Handle b" for b
  by unfold_locales (rule Handle_ok [THEN conjunct1])

section \<open>Lemmas\<close>

text \<open>A secret as it is read back.\<close>

definition valid_secret :: "secret \<Rightarrow> secret" where
  "valid_secret s =
     \<lparr>sec_Name = to_valid (sec_Name s), sec_Value = to_valid (sec_Value s),
      sec_Events = map to_valid (sec_Events s), sec_Images = map to_valid (sec_Images s)\<rparr>"

lemma clean_strs: "map clean (map JStr ss) = map JStr (map to_valid ss)"
  by simp

lemma clean_secretResponse: "clean (secretResponse s) = secretResponse (valid_secret s)"
  by (simp add: secretResponse_def valid_secret_def to_valid_ascii)

lemma json_depth_strs: "fold max (map json_depth (map JStr ss)) a = a"
  by (induction ss arbitrary: a) auto

lemma json_depth_secret: "json_depth (secretResponse s) = 2"
  by (simp add: secretResponse_def json_depth_strs [simplified])

lemma json_depth_body: "json_depth (responseBody ss) \<le> 4"
proof -
  have "fold max (map json_depth (map secretResponse ss)) a \<le> max a 2" for a
  proof (induction ss arbitrary: a)
    case (Cons s ss)
    show ?case using Cons.IH [of "max 2 a"] by (simp add: json_depth_secret max.commute)
  qed simp
  from this [of 0] show ?thesis by (simp add: responseBody_def)
qed

lemma num_free_body: "num_free (responseBody ss)"
  by (auto simp: responseBody_def secretResponse_def list_all_iff)

lemma count_inc: "inc_label l f l' = (if l' = l then Suc (f l) else f l')"
  by (simp add: inc_label_def)

text \<open>The router: only a POST reaches the handler of the root, whatever the spelling of the path.\<close>

lemma path_patterns_cases:
  "path_patterns path \<in> {[], [(''POST'', RPost)], [(''GET'', RHealthz)], [(''GET'', RReadyz)], [(''GET'', RMetrics)]}"
  by (simp add: path_patterns_eq Let_def)

lemma path_patterns_post:
  "path_patterns path = [(''POST'', RPost)] \<longleftrightarrow>
     path = ''/'' \<or> (CHR ''/'' \<notin> set (drop 1 path) \<and> pathUnescape (drop 1 path) = ''/'')"
  by (auto simp: path_patterns_eq Let_def)

lemma route_of_RPost:
  "route_of method path = RPost \<longleftrightarrow>
     method = ''POST'' \<and> cleanPath path = path \<and> path_patterns path = [(''POST'', RPost)]"
  using path_patterns_cases [of path] by (auto simp: route_of_def split: if_splits)

lemma hex_val_2_15:
  "hex_val h = Some a \<Longrightarrow> hex_val l = Some b \<Longrightarrow> 16 * a + b = 47 \<Longrightarrow> h = CHR ''2'' \<and> l \<in> {CHR ''f'', CHR ''F''}"
proof -
  assume h: "hex_val h = Some a" and l: "hex_val l = Some b" and "16 * a + b = 47"
  have bound: "hex_val c = Some n \<Longrightarrow> n < 16" for c n
    by (auto simp: hex_val_def digit_val_def is_digit_def less_eq_char_def split: if_splits)
  have "b < 16" by (rule bound [OF l])
  with \<open>16 * a + b = 47\<close> have ab: "a = 2" "b = 15" by presburger+
  have "byte_val h = 50" using h unfolding ab
    by (auto simp: hex_val_def digit_val_def is_digit_def less_eq_char_def split: if_splits)
  moreover have "byte_val l = 102 \<or> byte_val l = 70" using l unfolding ab
    by (auto simp: hex_val_def digit_val_def is_digit_def less_eq_char_def split: if_splits)
  ultimately show ?thesis by (auto dest: char_eqI simp: char_of_eq_iff)
qed

lemma unesc_Nil: "unesc r = Some [] \<longleftrightarrow> r = []"
  by (cases r) (auto simp: unesc.simps(2) split: list.splits option.splits)

lemma pathUnescape_slash:
  assumes "CHR ''/'' \<notin> set s"
  shows "pathUnescape s = ''/'' \<longleftrightarrow> s \<in> {''%2F'', ''%2f''}"
proof
  assume p: "pathUnescape s = ''/''"
  with assms have u: "unesc s = Some ''/''" by (auto simp: pathUnescape_def split: option.splits)
  then obtain c cs where s: "s = c # cs" by (cases s) auto
  have "c = CHR ''%''"
    using u assms by (cases "c = CHR ''%''") (auto simp: s unesc_plain)
  with u obtain h l r a b where hl: "cs = h # l # r" "hex_val h = Some a" "hex_val l = Some b"
      "char_of (16 * a + b) = CHR ''/''" "unesc r = Some []"
    by (auto simp: s unesc.simps(2) split: list.splits option.splits)
  have lt: "16 * a + b < 256"
    using hl(2,3) by (auto simp: hex_val_def digit_val_def is_digit_def less_eq_char_def split: if_splits)
  have "byte_val (char_of (16 * a + b)) = 47" unfolding hl(4) by simp
  with lt have "16 * a + b = 47" by simp
  from hex_val_2_15 [OF hl(2,3) this] hl(1,5) show "s \<in> {''%2F'', ''%2f''}"
    using \<open>c = CHR ''%''\<close> by (auto simp: s unesc_Nil)
next
  assume "s \<in> {''%2F'', ''%2f''}"
  then show "pathUnescape s = ''/''"
    by (auto simp: pathUnescape_def unesc.simps(2) hex_val_def is_digit_def digit_val_def char_of_eq_iff less_eq_char_def)
qed

lemma cleanPath_root: "hd (cleanPath p) = CHR ''/'' \<and> cleanPath p \<noteq> []"
  by (simp add: cleanPath_def Let_def)

lemma route_of_RPost_iff:
  "route_of method path = RPost \<longleftrightarrow> method = ''POST'' \<and> path \<in> {''/'', ''/%2F'', ''/%2f''}"
proof -
  have "cleanPath path = path \<and> path_patterns path = [(''POST'', RPost)] \<longleftrightarrow> path \<in> {''/'', ''/%2F'', ''/%2f''}"
  proof
    assume a: "cleanPath path = path \<and> path_patterns path = [(''POST'', RPost)]"
    then obtain cs where p: "path = CHR ''/'' # cs" using cleanPath_root [of path] by (cases path) auto
    then show "path \<in> {''/'', ''/%2F'', ''/%2f''}"
      using a pathUnescape_slash [of cs] by (auto simp: path_patterns_post)
  next
    assume "path \<in> {''/'', ''/%2F'', ''/%2f''}"
    then show "cleanPath path = path \<and> path_patterns path = [(''POST'', RPost)]"
      using pathUnescape_slash [of "''%2F''"] pathUnescape_slash [of "''%2f''"]
      by (auto simp: path_patterns_post cleanPath_def Let_def)
  qed
  then show ?thesis by (auto simp: route_of_RPost)
qed

text \<open>A server on the sample broker, at a fixed time, and the conditions of a request.\<close>

definition sample_server :: "('s \<Rightarrow> bool) \<Rightarrow> 's broker \<Rightarrow> log_level \<Rightarrow> ('s, unit) server" where
  "sample_server ready b level =
     \<lparr>sv_handler = Handle b, sv_ready = Some ready, sv_pubKey = ''K'', sv_freshnessWindow = 10 * second,
      sv_timeout = 30 * second, sv_level = level, sv_sig = sample_sig 0, sv_lower = ascii_table,
      sv_increments = (\<lambda>_. []), sv_promhttp = (\<lambda>_. status_only 200), sv_muxText = (\<lambda>_. (None, []))\<rparr>"

definition sample_env :: "string \<Rightarrow> instant \<Rightarrow> bool \<Rightarrow> request_env" where
  "sample_env body now timedOut =
     \<lparr>env_body = body, env_bodyError = False, env_now = now, env_timedOut = timedOut, env_writeError = None\<rparr>"

lemma sample_Verify:
  "Verify (sample_sig 0) (sample_request ''POST'' ''/'') body pub (10 * second) now = None \<longleftrightarrow> \<bar>now\<bar> \<le> 10000000000"
proof -
  have ten: "10 * second = word_of_int 10000000000" by (simp add: second_def)
  have "sint (10 * second) = 10000000000" unfolding ten by (rule sint_of_int64) simp_all
  then show ?thesis by (simp add: Verify_None_iff sample_vouched stale_time_Sub not_less)
qed

definition tag_payload :: string where
  \<open>tag_payload = ''{"repo":{"full_name":"acme/widgets","forge_remote_id":"7"},"pipeline":{"event":"tag","number":42,"commit":"c0ffee"}}''\<close>

lemma tag_Parse: "Parse ascii_table tag_payload = Inr (sample_identity ''tag'' [])"
proof -
  have \<open>parse_json tag_payload = Some (JObj
      [(''repo'', JObj [(''full_name'', JStr ''acme/widgets''), (''forge_remote_id'', JStr ''7'')]),
       (''pipeline'', JObj [(''event'', JStr ''tag''), (''number'', JNum ''42''), (''commit'', JStr ''c0ffee'')])])\<close>
    by (simp add: tag_payload_def json_eval)
  then show ?thesis by (simp add: Parse_def parse_eval sample_identity_def)
qed

lemma tag_short: "length tag_payload \<le> maxBodyBytes"
  by (simp add: tag_payload_def maxBodyBytes_def)

lemma sample_accepted:
  "accepted (sample_server ready b level) (sample_request ''POST'' ''/'') (sample_env tag_payload 0 timedOut)
     (sample_identity ''tag'' [])"
  using tag_Parse tag_short by (simp add: accepted_def sample_server_def sample_env_def sample_Verify)

lemma sample_route: "route_of ''POST'' ''/'' = RPost"
  by (simp add: route_of_RPost path_patterns_post cleanPath_def)

lemma is_get_not_revoke: "is_get ctx tok x \<Longrightarrow> x \<noteq> revoke_call ctx' t"
  by (auto simp: is_get_def revoke_call_def)

text \<open>The decoder of a client: the response body of the protocol, field by field, with every list
  decoded into a new slice.\<close>

definition dec_list :: "'a \<Rightarrow> 'a dec \<Rightarrow> 'a list dec" where
  "dec_list zero d j old = map_option elems (dec_slice zero d j nil_slice)"

lemma dec_list_map:
  "(\<And>x. x \<in> set xs \<Longrightarrow> d (f x) zero = Some x) \<Longrightarrow> dec_list zero d (JArr (map f xs)) old = Some xs"
  by (simp add: dec_list_def dec_slice_fresh del: dec_slice.simps)

definition zero_secret :: secret where
  "zero_secret = \<lparr>sec_Name = [], sec_Value = [], sec_Events = [], sec_Images = []\<rparr>"

definition dec_secret :: "secret dec" where
  "dec_secret = dec_struct
     [(''name'', dec_field sec_Name (\<lambda>v s. s\<lparr>sec_Name := v\<rparr>) dec_string),
      (''value'', dec_field sec_Value (\<lambda>v s. s\<lparr>sec_Value := v\<rparr>) dec_string),
      (''events'', dec_field sec_Events (\<lambda>v s. s\<lparr>sec_Events := v\<rparr>) (dec_list [] dec_string)),
      (''images'', dec_field sec_Images (\<lambda>v s. s\<lparr>sec_Images := v\<rparr>) (dec_list [] dec_string))]"

definition dec_secrets :: "secret list dec" where
  "dec_secrets = dec_struct [(''secrets'', dec_list zero_secret dec_secret)]"

definition client_reads :: "string \<Rightarrow> secret list option" where
  "client_reads body = Option.bind (parse_json body) (\<lambda>j. dec_secrets j [])"

lemma dec_secretResponse: "dec_secret (secretResponse s) zero_secret = Some s"
  by (simp add: dec_secret_def secretResponse_def zero_secret_def dec_field_def find_field_def dec_list_map)

lemma dec_responseBody: "dec_secrets (responseBody ss) [] = Some ss"
  by (simp add: dec_secrets_def responseBody_def find_field_def dec_list_map dec_secretResponse)

text \<open>The body reads back as JSON, with the strings made valid, hence as the list of secrets.\<close>

lemma parse_response: "parse_json (Encode (responseBody ss)) = Some (responseBody (map valid_secret ss))"
proof -
  have "clean (responseBody ss) = responseBody (map valid_secret ss)"
    by (simp add: responseBody_def clean_secretResponse to_valid_ascii comp_def)
  moreover have "json_depth (responseBody ss) \<le> max_depth"
    using json_depth_body [of ss] by (simp add: max_depth_def)
  ultimately show ?thesis using parse_Encode [OF num_free_body] by metis
qed

lemma client_reads_response: "client_reads (Encode (responseBody ss)) = Some (map valid_secret ss)"
  by (simp add: client_reads_def parse_response dec_responseBody)

text \<open>Delivery, for any broker. When an accepted request is answered with a 200 and the response could be written, the broker released secrets, at
  least one, and a client that parses the body and decodes its fields by name gets exactly those, in order, with names,
  values, events and images; only bytes of a string that are not valid UTF-8 arrive as U+FFFD. Every secret is pinned to some event.\<close>

lemma released_read_back:
  assumes acc: "accepted sv r env ident" and sv: "sv_handler sv = Handle b" and written: "env_writeError env = None"
    and run: "run_state (handlePost sv r env) st = (resp, st')" and ok: "rs_Status resp = 200"
  shows "\<exists>res. run_state (Handle b RequestCtx ident) (backend st) = (res, backend st') \<and> r_Status res = 200 \<and>
     rs_ContentType resp = Some ''application/json'' \<and>
     client_reads (rs_Body resp) = Some (map valid_secret (r_Secrets res)) \<and>
     r_Secrets res \<noteq> [] \<and> list_all (\<lambda>s. sec_Events s \<noteq> []) (r_Secrets res)"
proof -
  obtain res s where h: "run_state (Handle b RequestCtx ident) (backend st) = (res, s)" by fastforce
  have st': "resp = rendered env (raced env res)" "backend st' = s"
    using run unfolding run_accepted [OF acc] sv by (auto simp: h Let_def)
  have raced: "r_Status (raced env res) = 200"
    using ok by (auto simp: st' rendered_status split: if_splits)
  then have res: "raced env res = res" by (auto simp: raced_def timeout_result_def split: if_splits)
  have "ok_result res" using Handle_ok [of b RequestCtx ident "backend st"] by (simp add: h)
  then show ?thesis
    using h st' raced res written by (auto simp: rendered_def client_reads_response ok_result_def)
qed

text \<open>
  Accounting: a POST whose body was read adds one to one counter of \<open>ironbark_requests_total\<close>, the one that fits the status of the
  response, and writes one record at info level, provided the log level of the program lets it through. A
  POST whose body could not be read leaves no trace at all.
\<close>

definition label_statuses :: "(string \<times> nat) set" where
  "label_statuses = {(''ok'', 200), (''unonboarded'', 204), (''identity_mismatch'', 204), (''error'', 502), (''error'', 400),
     (''refused_signature'', 401)}"

lemma post_accounting:
  assumes run: "run_state (handlePost sv r env) st = (resp, st')" and sv: "sv_handler sv = Handle b"
  shows "if maxBodyBytes < length (env_body env) \<or> env_bodyError env then st' = st
    else \<exists>l new. requestsTotal (metrics_of st') = inc_label l (requestsTotal (metrics_of st)) \<and>
      (l, rs_Status resp) \<in> label_statuses \<and>
      log_records st' = log_records st @ new \<and>
      length (filter (\<lambda>x. lr_Level x = LevelInfo) new) = (if sv_level sv \<le> LevelInfo then 1 else 0)"
proof -
  have info: "filter (\<lambda>x. lr_Level x = LevelInfo) (slog (sv_level sv) l msg attrs) =
      (if l = LevelInfo then slog (sv_level sv) l msg attrs else [])" for l msg attrs
    by (simp add: slog_def)
  have one: "length (slog (sv_level sv) LevelInfo msg attrs) = (if sv_level sv \<le> LevelInfo then 1 else 0)" for msg attrs
    by (simp add: slog_def)
  show ?thesis
  proof (cases "\<exists>ident. accepted sv r env ident")
    case True
    then obtain ident where acc: "accepted sv r env ident" ..
    then have b: "\<not> maxBodyBytes < length (env_body env)" "\<not> env_bodyError env" by (simp_all add: accepted_def)
    obtain res s where h: "run_state (sv_handler sv RequestCtx ident) (backend st) = (res, s)" by fastforce
    let ?res = "raced env res"
    have st': "st' = st\<lparr>backend := s, metrics_of := audit_metrics ?res (metrics_of st),
        log_records := log_records st @ render_records sv env ?res @ audit_records sv ident ?res\<rparr>"
      and resp: "resp = rendered env ?res"
      using run unfolding run_accepted [OF acc] by (auto simp: h Let_def)
    have "ok_result res" using Handle_ok [of b RequestCtx ident "backend st"] h by (simp add: sv)
    then have "(outcome_text (r_Outcome ?res), rs_Status resp) \<in> label_statuses"
      by (auto simp: resp rendered_status raced_def timeout_result_def ok_result_def label_statuses_def)
    moreover have "filter (\<lambda>x. lr_Level x = LevelInfo) (render_records sv env ?res @ audit_records sv ident ?res) =
        slog (sv_level sv) LevelInfo ''request'' (audit_attrs ident ?res)"
      by (simp add: render_records_def audit_records_def info split: option.split)
    ultimately show ?thesis using b one by (auto simp: st' audit_metrics_def)
  next
    case False
    then show ?thesis using run
      by (auto simp: label_statuses_def status_only_def accepted_def handlePost_def read_body_def count_request_def info slog_def
          refusal_metrics_def refusal_records_def split: if_splits option.splits sum.splits)
  qed
qed

section \<open>Properties\<close>

text \<open>C4. Only verified requests reach the broker. If serving a request changes what is behind the handler, or the
  answer to a POST has a status of the broker's, then the request is a POST to the root, its body is within the limit, its signature
  verifies over that very body, the body parses to an identity, and the handler ran once, for that identity.\<close>

theorem only_verified_reach_broker:
  assumes run: "run_state (ServeHTTP sv r env) st = (resp, st')"
    and touched: "backend st' \<noteq> backend st \<or>
      route_of (hr_Method r) (hr_Path r) = RPost \<and> rs_Status resp \<in> {200, 204, 502}"
  shows "\<exists>ident. route_of (hr_Method r) (hr_Path r) = RPost \<and> length (env_body env) \<le> 2 ^ 20 \<and>
     Verify (sv_sig sv) r (env_body env) (sv_pubKey sv) (sv_freshnessWindow sv) (env_now env) = None \<and>
     Parse (sv_lower sv) (env_body env) = Inr ident \<and>
     backend st' = snd (run_state (sv_handler sv RequestCtx ident) (backend st))"
proof -
  have post: "route_of (hr_Method r) (hr_Path r) = RPost"
    using run touched by (auto simp: ServeHTTP_def handleHealthz_def handleReadyz_def handleMetrics_def split: route.splits)
  then have run': "run_state (handlePost sv r env) st = (resp, st')" using run by (simp add: ServeHTTP_def)
  have "\<exists>ident. accepted sv r env ident"
  proof (rule ccontr)
    assume "\<not> (\<exists>ident. accepted sv r env ident)"
    then have "\<And>ident. \<not> accepted sv r env ident" by blast
    from run_refused [OF this run'] post touched show False by auto
  qed
  then obtain ident where acc: "accepted sv r env ident" ..
  have "backend st' = snd (run_state (sv_handler sv RequestCtx ident) (backend st))"
    using run' unfolding run_accepted [OF acc] by (auto simp: Let_def split_beta)
  with post acc show ?thesis by (auto simp: accepted_def maxBodyBytes_def)
qed

theorem only_verified_reach_broker_witness:
  "\<exists>ident. Verify (sample_sig 0) (sample_request ''POST'' ''/'') tag_payload ''K'' (10 * second) 0 = None \<and>
     Parse ascii_table tag_payload = Inr ident"
proof -
  let ?sv = "sample_server Healthy (client_broker scripted sample_vx ''ci'' []) LevelInfo"
  let ?st = "New_http (New False [])"
  obtain resp st' where run: "run_state (ServeHTTP ?sv (sample_request ''POST'' ''/'') (sample_env tag_payload 0 True)) ?st = (resp, st')"
    by fastforce
  have post: "route_of (hr_Method (sample_request ''POST'' ''/'')) (hr_Path (sample_request ''POST'' ''/'')) = RPost"
    by (simp add: sample_request_def sample_route)
  have "rs_Status resp = 502"
    using run post run_accepted [OF sample_accepted, of Healthy "client_broker scripted sample_vx ''ci'' []" LevelInfo True ?st]
    by (simp add: ServeHTTP_def Let_def split_beta rendered_status raced_def sample_env_def timeout_result_def)
  with only_verified_reach_broker [OF run] post show ?thesis
    by (auto simp: sample_server_def sample_env_def)
qed

text \<open>C35. A refusal reveals nothing of the payload: two requests from the same address that are refused for the same
  reason have the same response, counters and log records, whatever their bodies and headers.\<close>

theorem refusal_blind:
  assumes "read_body env = BodyOK body" "read_body env' = BodyOK body'"
    and "Verify (sv_sig sv) r body (sv_pubKey sv) (sv_freshnessWindow sv) (env_now env) = Some e"
    and "Verify (sv_sig sv) r' body' (sv_pubKey sv) (sv_freshnessWindow sv) (env_now env') = Some e'"
    and "ve_Reason e = ve_Reason e'" "hr_RemoteAddr r = hr_RemoteAddr r'"
  shows "run_state (handlePost sv r env) st = run_state (handlePost sv r' env') st"
  using assms by (simp add: handlePost_def)

theorem refusal_blind_witness:
  "run_state (handlePost (sample_server Healthy (client_broker scripted sample_vx ''ci'' []) LevelInfo)
       (sample_request ''POST'' ''/'') (sample_env ''x'' 20000000000 False)) (New_http (New False []))
   = run_state (handlePost (sample_server Healthy (client_broker scripted sample_vx ''ci'' []) LevelInfo)
       (sample_request ''POST'' ''/'') (sample_env tag_payload 30000000000 False)) (New_http (New False []))"
proof -
  let ?r = "sample_request ''POST'' ''/''"
  have stale: "Verify (sample_sig 0) ?r body ''K'' (10 * second) now = Some \<lparr>ve_Reason = ReasonStaleCreated, ve_Err = None\<rparr>"
    if "10000000000 < now" for body now
  proof -
    have "Verify (sample_sig 0) ?r body ''K'' (10 * second) now \<noteq> None" using that by (simp add: sample_Verify)
    then show ?thesis
      by (auto simp: Verify_def sample_sig_def sample_request_def header_Get_def header_Values_def split: if_splits)
  qed
  show ?thesis
    by (rule refusal_blind [where body = "''x''" and body' = tag_payload
          and e = "\<lparr>ve_Reason = ReasonStaleCreated, ve_Err = None\<rparr>" and e' = "\<lparr>ve_Reason = ReasonStaleCreated, ve_Err = None\<rparr>"])
       (use tag_short in \<open>simp_all add: stale sample_server_def sample_env_def read_body_def maxBodyBytes_def\<close>)
qed

text \<open>C13. A timeout loses a token. When the context of an accepted request is done before the select sees the broker's result, and
  the broker then finishes with a 200, the client gets a 502 without secrets, yet the token
  the broker minted is not revoked, the mint is not counted, and the audit record has no accessor to find the token by.\<close>

theorem timeout_keeps_token:
  fixes st :: "'w client http_state"
  assumes acc: "accepted sv r env ident" and sv: "sv_handler sv = Handle (client_broker lib cfg pfx addr)"
    and late: "env_timedOut env"
    and ok: "r_Status (fst (run_state (Handle (client_broker lib cfg pfx addr) RequestCtx ident) (backend st))) = 200"
    and run: "run_state (handlePost sv r env) st = (resp, st')"
  shows "resp = status_only 502 \<and> mintsTotal (metrics_of st') = mintsTotal (metrics_of st) \<and>
    log_records st' = log_records st @ slog (sv_level sv) LevelInfo ''request'' (audit_attrs ident timeout_result) \<and>
    (\<exists>mint gets. calls (backend st') = calls (backend st) @ mint # gets \<and>
       list_all (\<lambda>x. \<forall>ctx tok. x \<noteq> revoke_call ctx tok) (mint # gets))"
proof -
  obtain res c' where h: "run_state (Handle (client_broker lib cfg pfx addr) RequestCtx ident) (backend st) = (res, c')" by fastforce
  have st': "resp = status_only 502" "mintsTotal (metrics_of st') = mintsTotal (metrics_of st)" "backend st' = c'"
    "log_records st' = log_records st @ slog (sv_level sv) LevelInfo ''request'' (audit_attrs ident timeout_result)"
    using run late unfolding run_accepted [OF acc] sv
    by (auto simp: h Let_def raced_def rendered_def render_records_def audit_metrics_def audit_records_def
        timeout_result_def split: option.split)
  have up: "canaryOK (backend st)"
    using ok run_Handle_early(1) [of "backend st" lib cfg pfx addr RequestCtx ident]
    by (cases "canaryOK (backend st)") (auto simp: early_result_def)
  obtain m d where m: "run_state (request_mint lib cfg RequestCtx pfx ident) (backend st) = (Inr m, d)"
  proof (cases "run_state (request_mint lib cfg RequestCtx pfx ident) (backend st)")
    case (Pair q d)
    then show ?thesis
      using that ok run_Handle_early(2) [OF up, of lib cfg RequestCtx ident pfx _ d addr]
      by (cases q) (auto simp: early_result_def)
  qed
  obtain gets where "list_all (is_get RequestCtx (Token m)) gets"
    "calls c' = calls (backend st) @ mint_call cfg RequestCtx (api_token (backend st)) (Derive ident pfx) (Some (mint_meta ident)) (display_name ident) # gets"
    using client.Handle_trace [OF _ h, of lib cfg, simplified client_broker_simps] up m ok by (auto simp: h)
  moreover have "list_all (\<lambda>x. \<forall>ctx tok. x \<noteq> revoke_call ctx tok) gets"
    using calculation(1) is_get_not_revoke unfolding list_all_iff by blast
  ultimately show ?thesis using st' by (auto simp: mint_not_revoke)
qed

theorem timeout_keeps_token_witness:
  "\<exists>c' :: unit client. \<exists>mint gets. calls c' = mint # gets \<and> list_all (\<lambda>x. \<forall>ctx tok. x \<noteq> revoke_call ctx tok) (mint # gets)"
proof -
  let ?b = "client_broker (frozen sample_site) sample_vx ''ci'' []" and ?st = "New_http (sample_client ())"
  have ok: "r_Status (fst (run_state (Handle ?b RequestCtx (sample_identity ''tag'' [])) (backend ?st))) = 200"
    using sample_Handle by (auto simp: New_http_def)
  obtain resp st' where run: "run_state (handlePost (sample_server Healthy ?b LevelInfo)
      (sample_request ''POST'' ''/'') (sample_env tag_payload 0 True)) ?st = (resp, st')" by fastforce
  have sv: "sv_handler (sample_server Healthy ?b LevelInfo) = Handle ?b" "env_timedOut (sample_env tag_payload 0 True)"
    by (simp_all add: sample_server_def sample_env_def)
  from timeout_keeps_token [OF sample_accepted sv ok run] show ?thesis
    by (auto simp: New_http_def)
qed

text \<open>C38. What the routes do. A POST to the root (also spelled with an escaped slash) is handled by \<open>handlePost\<close>; every
  other request, whatever its method and path, changes nothing: not the state behind the handler, no counter, no
  log record.\<close>

theorem serve_routes:
  "if hr_Method r = ''POST'' \<and> hr_Path r \<in> {''/'', ''/%2F'', ''/%2f''}
   then run_state (ServeHTTP sv r env) st = run_state (handlePost sv r env) st
   else snd (run_state (ServeHTTP sv r env) st) = st"
  using route_of_RPost_iff [of "hr_Method r" "hr_Path r"]
  by (auto simp: ServeHTTP_def handleHealthz_def handleReadyz_def handleMetrics_def split: route.split)

text \<open>The routes of the specification's table have other answers than its last line (anything else is not
  found, and only the root is not allowed) says.\<close>

theorem routes_not_found:
  "route_of ''POST'' ''/healthz'' = RNotAllowed \<and> route_of ''HEAD'' ''/healthz'' = RHealthz \<and>
   route_of ''GET'' ''//'' = RRedirect ''/'' \<and> route_of ''GET'' ''/'' = RNotAllowed \<and> route_of ''GET'' ''/x'' = RNotFound"
  by (simp add: route_of_def cleanPath_def path_patterns_eq pathUnescape_def unesc.simps(2) Let_def)

end
