(* ===== verification/Session.thy ===== *)
theory Session
  imports Canary Sweep "HOL-Library.Signed_Division"
begin

text \<open>
  The AppRole session of \<open>internal/vaultx/client.go\<close>: \<open>Login\<close>, \<open>renewSelf\<close>, the renewal interval, and the
  goroutine \<open>Run\<close>/\<open>sessionLoop\<close> as a step relation whose steps interleave with arbitrary
  steps of the request goroutines (which leave the session state alone: theorem
  \<open>Handle_revokes\<close> of BrokerProps). The history is a ghost; it records what happened, for the
  invariants.
\<close>

section \<open>Operations\<close>

definition renewAfter :: "int \<Rightarrow> duration" where
  "renewAfter leaseSecs = word_of_int (leaseSecs sdiv 2) * second"

definition retryInterval :: duration where
  "retryInterval = 60 * second"

text \<open>The critical section of \<open>Login\<close>.\<close>

definition install_session :: "secret_auth \<Rightarrow> ('w client, unit) state" where
  "install_session a = State_Monad.update (\<lambda>c. c
     \<lparr>api_token := sa_ClientToken a, token := sa_ClientToken a, leaseSeconds := sa_LeaseDuration a,
      sessionOK := True, canaryOK := False\<rparr>)"

definition login_failed :: "vx_error \<Rightarrow> ('w client, vx_error option) state" where
  "login_failed e = do {
     setSessionOK False;
     logger LevelError ''approle login failed'';
     State_Monad.return (Some e)
   }"

definition Login :: "'w lib \<Rightarrow> vx_config \<Rightarrow> ctx \<Rightarrow> ('w client, vx_error option) state" where
  "Login lib cfg ctx = do {
     r \<leftarrow> logicalWrite lib ctx ''auth/approle/login''
            [(''role_id'', cfg_RoleID cfg), (''secret_id'', cfg_SecretID cfg)];
     case r of
       SecretErr \<Rightarrow> login_failed LoginFailed
     | SecretNil \<Rightarrow> login_failed LoginNoAuth
     | SecretOK None \<Rightarrow> login_failed LoginNoAuth
     | SecretOK (Some a) \<Rightarrow>
         if sa_ClientToken a = [] then login_failed LoginNoAuth
         else do { install_session a; State_Monad.return None }
   }"

definition renewSelf :: "'w lib \<Rightarrow> ctx \<Rightarrow> ('w client, vx_error option) state" where
  "renewSelf lib ctx = do {
     r \<leftarrow> renewSelfWithContext lib ctx 0;
     case r of
       SecretErr \<Rightarrow> do {
         setSessionOK False;
         logger LevelWarn ''token renew-self failed; re-login required'';
         State_Monad.return (Some RenewFailed)
       }
     | _ \<Rightarrow> do {
         let lease = (case r of SecretOK (Some a) \<Rightarrow> sa_LeaseDuration a | _ \<Rightarrow> 0);
         State_Monad.update (\<lambda>c. c\<lparr>leaseSeconds := lease, sessionOK := True\<rparr>);
         State_Monad.return None
       }
   }"

definition currentLeaseSeconds :: "'w client \<Rightarrow> int" where
  "currentLeaseSeconds c = leaseSeconds c"

section \<open>The lifecycle goroutine\<close>

datatype pc = AtLogin | LoginSleep | StartSession | InSelect | Stopped

datatype event = EvLogin | EvLoginFail | EvRenew | EvRenewFail | EvCanaryPass | EvCanaryFail

record 'w lifecycle =
  cl :: "'w client"
  pc :: pc
  renewTimer :: "duration option"   \<comment> \<open>armed, with its interval\<close>
  canaryTimer :: "duration option"  \<comment> \<open>None: \<open>canaryCh\<close> is nil\<close>
  canaryFailed :: bool
  history :: "event list"

definition initial :: "'w client \<Rightarrow> 'w lifecycle" where
  "initial c = \<lparr>cl = c, pc = AtLogin, renewTimer = None, canaryTimer = None, canaryFailed = False, history = []\<rparr>"

text \<open>The closure \<open>runCanary\<close> of \<open>sessionLoop\<close>.\<close>

definition canary_attempt :: "'w lib \<Rightarrow> vx_config \<Rightarrow> string \<Rightarrow> 'w lifecycle \<Rightarrow> 'w lifecycle" where
  "canary_attempt lib cfg policyPrefix s = (
     let (err, c) = run_state (runCanary lib cfg RunCtx policyPrefix) (cl s) in
     case err of
       Some e \<Rightarrow>
         s\<lparr>cl := snd (run_state (do {
                 setCanaryOK False;
                 logger LevelError ''startup canary failed; /readyz will report not-ready'' }) c),
           canaryFailed := True, canaryTimer := Some retryInterval, history := history s @ [EvCanaryFail]\<rparr>
     | None \<Rightarrow>
         s\<lparr>cl := snd (run_state (do {
                 (if canaryFailed s then logger LevelInfo ''startup canary recovered'' else State_Monad.return ());
                 setCanaryOK True }) c),
           canaryFailed := False, canaryTimer := None, history := history s @ [EvCanaryPass]\<rparr>)"

text \<open>The entry of \<open>sessionLoop\<close>.\<close>

definition session_start :: "'w lib \<Rightarrow> vx_config \<Rightarrow> string \<Rightarrow> 'w lifecycle \<Rightarrow> 'w lifecycle" where
  "session_start lib cfg policyPrefix s =
     canary_attempt lib cfg policyPrefix
       (s\<lparr>pc := InSelect, renewTimer := Some (renewAfter (currentLeaseSeconds (cl s))),
          canaryTimer := None, canaryFailed := False\<rparr>)"

inductive step :: "'w lib \<Rightarrow> vx_config \<Rightarrow> string \<Rightarrow> 'w lifecycle \<Rightarrow> 'w lifecycle \<Rightarrow> bool"
  for lib :: "'w lib" and cfg :: vx_config and pfx :: string where
  login_ok:
    "pc s = AtLogin \<Longrightarrow> run_state (Login lib cfg RunCtx) (cl s) = (None, c) \<Longrightarrow>
     step lib cfg pfx s (s\<lparr>cl := c, pc := StartSession, history := history s @ [EvLogin]\<rparr>)"
| login_fails:
    "pc s = AtLogin \<Longrightarrow> run_state (Login lib cfg RunCtx) (cl s) = (Some e, c) \<Longrightarrow>
     step lib cfg pfx s (s\<lparr>cl := c, pc := LoginSleep, history := history s @ [EvLoginFail]\<rparr>)"
| login_retry: "pc s = LoginSleep \<Longrightarrow> step lib cfg pfx s (s\<lparr>pc := AtLogin\<rparr>)"
| session: "pc s = StartSession \<Longrightarrow> step lib cfg pfx s (session_start lib cfg pfx s)"
| renew_ok:
    "pc s = InSelect \<Longrightarrow> renewTimer s \<noteq> None \<Longrightarrow> run_state (renewSelf lib RunCtx) (cl s) = (None, c) \<Longrightarrow>
     step lib cfg pfx s (s\<lparr>cl := c, renewTimer := Some (renewAfter (currentLeaseSeconds c)),
                           history := history s @ [EvRenew]\<rparr>)"
| renew_fails:
    "pc s = InSelect \<Longrightarrow> renewTimer s \<noteq> None \<Longrightarrow> run_state (renewSelf lib RunCtx) (cl s) = (Some e, c) \<Longrightarrow>
     step lib cfg pfx s (s\<lparr>cl := c, pc := AtLogin, renewTimer := None, canaryTimer := None,
                           history := history s @ [EvRenewFail]\<rparr>)"
| canary_retry: "pc s = InSelect \<Longrightarrow> canaryTimer s \<noteq> None \<Longrightarrow> step lib cfg pfx s (canary_attempt lib cfg pfx s)"
| cancelled:
    "pc s \<in> {LoginSleep, InSelect} \<Longrightarrow>
     step lib cfg pfx s (s\<lparr>pc := Stopped, renewTimer := None, canaryTimer := None\<rparr>)"
| request: "session_of d = session_of (cl s) \<Longrightarrow> step lib cfg pfx s (s\<lparr>cl := d\<rparr>)"

inductive_cases stepE: "step lib cfg pfx s t"

definition reachable :: "'w lib \<Rightarrow> vx_config \<Rightarrow> string \<Rightarrow> 'w lifecycle \<Rightarrow> bool" where
  "reachable lib cfg pfx s \<longleftrightarrow> (\<exists>m w. (step lib cfg pfx)\<^sup>*\<^sup>* (initial (New m w)) s)"

section \<open>Lemmas\<close>

text \<open>What the history says: the canary passed after the last login and has not failed since; the
  session was logged in or renewed and nothing failed since.\<close>

definition passed_since_login :: "event list \<Rightarrow> bool" where
  "passed_since_login h \<longleftrightarrow>
     (let rel = filter (\<lambda>e. e \<in> {EvLogin, EvCanaryPass, EvCanaryFail}) h in rel \<noteq> [] \<and> last rel = EvCanaryPass)"

definition session_alive :: "event list \<Rightarrow> bool" where
  "session_alive h \<longleftrightarrow>
     (let rel = filter (\<lambda>e. e \<in> {EvLogin, EvLoginFail, EvRenew, EvRenewFail}) h in
      rel \<noteq> [] \<and> last rel \<in> {EvLogin, EvRenew})"

lemma history_snoc [simp]:
  "passed_since_login (h @ [e]) = (if e \<in> {EvLogin, EvCanaryPass, EvCanaryFail} then e = EvCanaryPass else passed_since_login h)"
  "session_alive (h @ [e]) = (if e \<in> {EvLogin, EvLoginFail, EvRenew, EvRenewFail} then e \<in> {EvLogin, EvRenew} else session_alive h)"
  "passed_since_login [] = False" "session_alive [] = False"
  by (simp_all add: passed_since_login_def session_alive_def Let_def)

lemma Login_cases:
  assumes "run_state (Login lib cfg ctx) c = (r, c')"
  shows "(r = None \<and> sessionOK c' \<and> \<not> canaryOK c' \<and> token c' \<noteq> [] \<and> api_token c' = token c') \<or>
    (r \<noteq> None \<and> \<not> sessionOK c' \<and> canaryOK c' = canaryOK c \<and> token c' = token c \<and> api_token c' = api_token c)"
  using assms
  by (auto simp: Login_def logicalWrite_def login_failed_def install_session_def setSessionOK_def logger_def Let_def
      split: prod.splits secret_reply.splits option.splits if_splits)

lemma renewSelf_cases:
  assumes "run_state (renewSelf lib ctx) c = (r, c')"
  shows "canaryOK c' = canaryOK c \<and> token c' = token c \<and> api_token c' = api_token c \<and> sessionOK c' = (r = None)"
  using assms
  by (auto simp: renewSelf_def renewSelfWithContext_def setSessionOK_def logger_def Let_def
      split: prod.splits secret_reply.splits option.splits if_splits)

lemma canary_attempt_cases:
  fixes s :: "'w lifecycle" and lib cfg pfx
  defines "t \<equiv> canary_attempt lib cfg pfx s"
  shows "pc t = pc s \<and> renewTimer t = renewTimer s \<and>
    sessionOK (cl t) = sessionOK (cl s) \<and> token (cl t) = token (cl s) \<and> api_token (cl t) = api_token (cl s) \<and>
    (canaryOK (cl t) \<and> canaryTimer t = None \<and> \<not> canaryFailed t \<and> history t = history s @ [EvCanaryPass] \<or>
     \<not> canaryOK (cl t) \<and> canaryTimer t = Some retryInterval \<and> canaryFailed t \<and> history t = history s @ [EvCanaryFail])"
proof -
  obtain err c where run: "run_state (runCanary lib cfg RunCtx pfx) (cl s) = (err, c)" by fastforce
  have "sessionOK c = sessionOK (cl s)" "token c = token (cl s)" "api_token c = api_token (cl s)"
    using run by (auto elim!: runCanary_effect)
  then show ?thesis
    by (simp add: t_def canary_attempt_def run setCanaryOK_def logger_def split: option.split)
qed

text \<open>The invariant of the lifecycle.\<close>

definition life_inv :: "'w lifecycle \<Rightarrow> bool" where
  "life_inv s \<longleftrightarrow>
     (canaryOK (cl s) \<longleftrightarrow> passed_since_login (history s)) \<and>
     (sessionOK (cl s) \<longleftrightarrow> session_alive (history s)) \<and>
     api_token (cl s) = token (cl s) \<and>
     (case pc s of
        AtLogin \<Rightarrow> \<not> sessionOK (cl s) \<and> renewTimer s = None \<and> canaryTimer s = None
      | LoginSleep \<Rightarrow> \<not> sessionOK (cl s) \<and> renewTimer s = None \<and> canaryTimer s = None
      | StartSession \<Rightarrow> sessionOK (cl s) \<and> \<not> canaryOK (cl s) \<and> token (cl s) \<noteq> []
      | InSelect \<Rightarrow> sessionOK (cl s) \<and> token (cl s) \<noteq> [] \<and> renewTimer s \<noteq> None \<and>
          (canaryOK (cl s) \<longleftrightarrow> canaryTimer s = None)
      | Stopped \<Rightarrow> True)"

lemma life_inv_initial: "life_inv (initial (New m w))"
  by (simp add: life_inv_def initial_def New_def)

lemma life_inv_attempt:
  assumes "life_inv s" "pc s = InSelect"
  shows "life_inv (canary_attempt lib cfg pfx s)"
  using assms canary_attempt_cases [of lib cfg pfx s] by (auto simp: life_inv_def)

lemma life_inv_start:
  assumes "life_inv s" "pc s = StartSession"
  shows "life_inv (session_start lib cfg pfx s)"
  using assms canary_attempt_cases [of lib cfg pfx "s\<lparr>pc := InSelect,
      renewTimer := Some (renewAfter (currentLeaseSeconds (cl s))), canaryTimer := None, canaryFailed := False\<rparr>"]
  by (auto simp: life_inv_def session_start_def)

lemma life_inv_step:
  assumes "step lib cfg pfx s t" "life_inv s"
  shows "life_inv t"
  using assms
proof cases
  case login_ok
  with assms(2) show ?thesis using Login_cases [OF login_ok(3)] by (auto simp: life_inv_def)
next
  case login_fails
  with assms(2) show ?thesis using Login_cases [OF login_fails(3)] by (auto simp: life_inv_def)
next
  case login_retry
  with assms(2) show ?thesis by (auto simp: life_inv_def)
next
  case session
  with assms(2) show ?thesis by (simp add: life_inv_start)
next
  case renew_ok
  with assms(2) show ?thesis using renewSelf_cases [OF renew_ok(4)] by (auto simp: life_inv_def)
next
  case renew_fails
  with assms(2) show ?thesis using renewSelf_cases [OF renew_fails(4)] by (auto simp: life_inv_def)
next
  case canary_retry
  with assms(2) show ?thesis by (simp add: life_inv_attempt)
next
  case cancelled
  with assms(2) show ?thesis by (auto simp: life_inv_def)
next
  case request
  then show ?thesis using assms(2) by (auto simp: life_inv_def session_of_def split: pc.splits)
qed

lemma life_inv_steps: "(step lib cfg pfx)\<^sup>*\<^sup>* s t \<Longrightarrow> life_inv s \<Longrightarrow> life_inv t"
  by (induction rule: rtranclp_induct) (auto dest: life_inv_step)

lemma reachable_inv: "reachable lib cfg pfx s \<Longrightarrow> life_inv s"
  by (auto simp: reachable_def intro: life_inv_steps life_inv_initial)

lemma sdiv2_nonneg: "0 \<le> n \<Longrightarrow> n sdiv 2 = n div 2" for n :: int
  by (cases "n = 0") (simp_all add: signed_divide_int_def sgn_if)

lemma sint_renewAfter:
  assumes "0 \<le> n" "n < 18446744074"
  shows "sint (renewAfter n) = n div 2 * 1000000000"
proof -
  have "renewAfter n = word_of_int (n div 2 * 1000000000)"
    using assms by (simp add: renewAfter_def sdiv2_nonneg second_def)
  then show ?thesis using assms by (simp add: sint_of_int64 del: of_int_mult)
qed

text \<open>A Vault whose mints give a service token and no secrets, and sessions on it: one whose login succeeds and whose
  renewals succeed without an Auth block; and one whose renewals fail and of whose logins the first ones
  succeed, as another token each time.\<close>

definition no_auth_reply :: "raw_request \<Rightarrow> raw_reply" where
  "no_auth_reply rq =
     (if rq_path rq = ''/v1/auth/token/create/ci'' then RawOK (Some (JObj [(''auth'', JObj
        [(''client_token'', JStr ''t''), (''token_type'', JStr ''service'')])]))
      else if rq_path rq = ''/v1/auth/token/revoke-self'' then RawOK None else RawStatus 404)"

definition no_auth_lib :: "int \<Rightarrow> unit lib" where
  "no_auth_lib lease =
     \<lparr>lib_raw = (\<lambda>rq w. (no_auth_reply rq, w)),
      lib_write = (\<lambda>_ _ _ _ w. (SecretOK (Some \<lparr>sa_ClientToken = ''own'', sa_LeaseDuration = lease\<rparr>), w)),
      lib_renew = (\<lambda>_ _ _ w. (SecretOK None, w)), lib_lower = ascii_table\<rparr>"

definition fading_lib :: "string list lib" where
  "fading_lib =
     \<lparr>lib_raw = (\<lambda>rq w. (no_auth_reply rq, w)),
      lib_write = (\<lambda>_ _ _ _ w. case w of [] \<Rightarrow> (SecretErr, [])
        | tok # toks \<Rightarrow> (SecretOK (Some \<lparr>sa_ClientToken = tok, sa_LeaseDuration = 600\<rparr>), toks)),
      lib_renew = (\<lambda>_ _ _ w. (SecretErr, w)), lib_lower = ascii_table\<rparr>"

lemma no_auth_raw: "lib_raw (no_auth_lib lease) = (\<lambda>rq w. (no_auth_reply rq, w))"
  "lib_raw fading_lib = (\<lambda>rq w. (no_auth_reply rq, w))"
  by (simp_all add: no_auth_lib_def fading_lib_def)

definition no_auth_mint :: mint where
  "no_auth_mint = \<lparr>Token = ''t'', Accessor = [], TokenType = ''service'', TTL = lease_ttl 0, Renewable = False,
     Orphan = None, Warnings = []\<rparr>"

lemma mint_no_auth:
  assumes "lib_raw lib = (\<lambda>rq w. (no_auth_reply rq, w))"
  shows "run_state (MintToken lib sample_vx ctx ps meta dn) c =
     (Inr no_auth_mint, c\<lparr>calls := calls c @ [mint_call sample_vx ctx (api_token c) ps meta dn]\<rparr>)"
  by (auto simp: MintToken_def run_rawRequest assms no_auth_reply_def no_auth_mint_def sample_vx_def mint_call_def mint_of_body_def
      dec_mint_response_def dec_mint_auth_def decode_eval zero_mint_response_def zero_mint_auth_def intro: client.equality)

lemma canary_no_auth:
  assumes "lib_raw lib = (\<lambda>rq w. (no_auth_reply rq, w))"
  shows "\<exists>c'. run_state (runCanary lib sample_vx ctx ''ci'') c = (None, c') \<and> world c' = world c"
  unfolding run_runCanary [OF mint_no_auth [OF assms]]
  by (simp add: no_auth_mint_def canaryAssertMintProperties_def RevokeSelf_def run_rawRequest assms no_auth_reply_def)

text \<open>From the start to the select, with a Vault of this kind whose login succeeds.\<close>

lemma steps_to_select:
  assumes raw: "lib_raw lib = (\<lambda>rq w. (no_auth_reply rq, w))" and "pc s = AtLogin"
    and login: "run_state (Login lib sample_vx RunCtx) (cl s) = (None, c)"
  shows "\<exists>t. (step lib sample_vx ''ci'')\<^sup>*\<^sup>* s t \<and> pc t = InSelect \<and> history t = history s @ [EvLogin, EvCanaryPass] \<and>
     renewTimer t = Some (renewAfter (leaseSeconds c)) \<and> world (cl t) = world c \<and> api_token (cl t) = api_token c"
proof -
  define s1 where "s1 = s\<lparr>cl := c, pc := StartSession, history := history s @ [EvLogin]\<rparr>"
  define s2 where "s2 = session_start lib sample_vx ''ci'' s1"
  have "step lib sample_vx ''ci'' s s1"
    unfolding s1_def by (rule login_ok [OF assms(2) login])
  moreover have "step lib sample_vx ''ci'' s1 s2"
    unfolding s2_def by (rule session) (simp add: s1_def)
  ultimately have "(step lib sample_vx ''ci'')\<^sup>*\<^sup>* s s2"
    by (blast intro: rtranclp.rtrancl_into_rtrancl rtranclp.rtrancl_refl)
  moreover obtain d where run: "run_state (runCanary lib sample_vx RunCtx ''ci'') c = (None, d)" "world d = world c"
    using canary_no_auth [OF raw] by blast
  have "api_token d = api_token c" using run(1) by (auto elim!: runCanary_effect)
  then have "pc s2 = InSelect \<and> history s2 = history s @ [EvLogin, EvCanaryPass] \<and>
      renewTimer s2 = Some (renewAfter (leaseSeconds c)) \<and> world (cl s2) = world c \<and> api_token (cl s2) = api_token c"
    by (simp add: s2_def s1_def session_start_def canary_attempt_def run setCanaryOK_def currentLeaseSeconds_def)
  ultimately show ?thesis by blast
qed

lemma sample_steps:
  "\<exists>s. (step (no_auth_lib lease) sample_vx ''ci'')\<^sup>*\<^sup>* (initial (New m ())) s \<and> pc s = InSelect \<and> history s = [EvLogin, EvCanaryPass] \<and>
     renewTimer s = Some (renewAfter lease)"
proof -
  let ?s0 = "initial (New m ()) :: unit lifecycle"
  obtain c where login: "run_state (Login (no_auth_lib lease) sample_vx RunCtx) (cl ?s0) = (None, c)" "leaseSeconds c = lease"
    by (auto simp: Login_def logicalWrite_def no_auth_lib_def install_session_def Let_def)
  from steps_to_select [OF no_auth_raw(1) _ login(1)] login(2) show ?thesis by (auto simp: initial_def)
qed

lemma sample_session:
  "\<exists>s. reachable (no_auth_lib lease) sample_vx ''ci'' s \<and> pc s = InSelect \<and> history s = [EvLogin, EvCanaryPass] \<and>
     renewTimer s = Some (renewAfter lease)"
  using sample_steps [of lease False] by (auto simp: reachable_def)

section \<open>Properties\<close>

text \<open>C22. Readiness is true to the history. In every reachable state of the lifecycle, with requests interleaved at will,
  the canary flag is set exactly when a canary passed after the latest login and none failed since, and the session
  flag exactly when a login or renewal was the latest of the session events; hence \<open>Healthy\<close> is the conjunction.\<close>

theorem Healthy_iff_history:
  assumes "reachable lib cfg pfx s"
  shows "(CanaryOK (cl s) \<longleftrightarrow> passed_since_login (history s)) \<and>
     (Healthy (cl s) \<longleftrightarrow> session_alive (history s) \<and> passed_since_login (history s))"
  using reachable_inv [OF assms] by (auto simp: life_inv_def Healthy_def CanaryOK_def)

theorem Healthy_iff_history_witness:
  "\<exists>s. reachable (no_auth_lib 600) sample_vx ''ci'' s \<and> Healthy (cl s)"
proof -
  obtain s where "reachable (no_auth_lib 600) sample_vx ''ci'' s" "history s = [EvLogin, EvCanaryPass]"
    using sample_session by blast
  with Healthy_iff_history [OF this(1)] show ?thesis
    by (auto simp: session_alive_def passed_since_login_def)
qed

text \<open>The lifecycle cannot get stuck with a canary that is never retried or a token that is never renewed: in every reachable
  state that waits in the select, the renewal timer is armed, and the canary timer is armed exactly while the
  canary is not passing; the session is up, and the client's own token is the one of the latest login.\<close>

theorem select_armed:
  assumes "reachable lib cfg pfx s" and "pc s = InSelect"
  shows "renewTimer s \<noteq> None \<and> (canaryTimer s \<noteq> None \<longleftrightarrow> \<not> canaryOK (cl s)) \<and> sessionOK (cl s) \<and>
     token (cl s) \<noteq> [] \<and> api_token (cl s) = token (cl s)"
  using reachable_inv [OF assms(1)] assms(2) by (auto simp: life_inv_def)

theorem select_armed_witness:
  "\<exists>s. reachable (no_auth_lib 0) sample_vx ''ci'' s \<and> renewTimer s = Some 0 \<and> sessionOK (cl s)"
proof -
  obtain s where "reachable (no_auth_lib 0) sample_vx ''ci'' s" "pc s = InSelect" "renewTimer s = Some (renewAfter 0)"
    using sample_session by blast
  with select_armed [OF this(1,2)] show ?thesis by (auto simp: renewAfter_def)
qed

text \<open>C31. The renewal interval is half the lease, in whole seconds, for a lease of less than 18446744074
  seconds; for a lease of 0 or 1 second (0 is also what a renewal without an Auth block leaves) it is 0,
  so the timer fires at once and the lifecycle renews without pause.\<close>

theorem renew_interval:
  assumes "0 \<le> lease" and "lease < 18446744074"
  shows "sint (renewAfter lease) = lease div 2 * 1000000000 \<and> (renewAfter lease = 0 \<longleftrightarrow> lease < 2)"
proof -
  have "renewAfter lease = 0 \<longleftrightarrow> sint (renewAfter lease) = 0"
    by (simp add: signed_eq_0_iff)
  with sint_renewAfter [OF assms] assms show ?thesis by auto
qed

theorem renew_interval_witness: "renewAfter 1 = 0 \<and> sint (renewAfter 3600) = 1800000000000"
  using renew_interval [of 1] renew_interval [of 3600] by simp

end
