(* ===== verification/Lifecycle.thy ===== *)
theory Lifecycle
  imports Session
begin

text \<open>
  Progress of the session lifecycle: with a Vault that answers, every state recovers readiness within
  three steps; after the context of the program is cancelled, every run of the goroutine stops within
  four steps, and a stopped one stays stopped.
\<close>

section \<open>Steps counted\<close>

text \<open>\<open>soon\<close>: some sequence of at most that many steps leads to a state with the property.\<close>

definition soon :: "'w lib \<Rightarrow> vx_config \<Rightarrow> string \<Rightarrow> nat \<Rightarrow> 'w lifecycle \<Rightarrow> ('w lifecycle \<Rightarrow> bool) \<Rightarrow> bool" where
  "soon lib cfg pfx n s P \<longleftrightarrow> (\<exists>k \<le> n. \<exists>t. (step lib cfg pfx ^^ k) s t \<and> P t)"

lemma soon_now: "P s \<Longrightarrow> soon lib cfg pfx n s P"
  by (auto simp: soon_def intro!: exI [of _ 0])

lemma soon_step: "step lib cfg pfx s t \<Longrightarrow> soon lib cfg pfx n t P \<Longrightarrow> soon lib cfg pfx (Suc n) s P"
  unfolding soon_def by (meson Suc_le_mono relpowp_Suc_I2)

lemma soon_more: "soon lib cfg pfx n s P \<Longrightarrow> n \<le> m \<Longrightarrow> soon lib cfg pfx m s P"
  unfolding soon_def by (meson le_trans)

lemma soon_reachable:
  "soon lib cfg pfx n s P \<Longrightarrow> reachable lib cfg pfx s \<Longrightarrow> soon lib cfg pfx n s (\<lambda>t. P t \<and> reachable lib cfg pfx t)"
  unfolding soon_def reachable_def by (meson relpowp_imp_rtranclp rtranclp_trans)

section \<open>A Vault that answers\<close>

text \<open>Logins succeed and canaries pass, from every state of the client.\<close>

definition answers :: "'w lib \<Rightarrow> vx_config \<Rightarrow> string \<Rightarrow> bool" where
  "answers lib cfg pfx \<longleftrightarrow>
     (\<forall>c. fst (run_state (Login lib cfg RunCtx) c) = None \<and> fst (run_state (runCanary lib cfg RunCtx pfx) c) = None)"

lemma attempt_passes:
  assumes "answers lib cfg pfx"
  shows "canaryOK (cl (canary_attempt lib cfg pfx s)) \<and> sessionOK (cl (canary_attempt lib cfg pfx s)) = sessionOK (cl s)"
proof -
  have "fst (run_state (runCanary lib cfg RunCtx pfx) (cl s)) = None" using assms by (simp add: answers_def)
  then obtain c where run: "run_state (runCanary lib cfg RunCtx pfx) (cl s) = (None, c)" by (metis prod.collapse)
  then have "sessionOK c = sessionOK (cl s)" by (auto elim!: runCanary_effect)
  then show ?thesis by (simp add: canary_attempt_def run setCanaryOK_def logger_def)
qed

lemma start_healthy:
  assumes "answers lib cfg pfx" "pc s = StartSession" "sessionOK (cl s)"
  shows "Healthy (cl (session_start lib cfg pfx s))"
  using attempt_passes [OF assms(1)] assms(3) by (simp add: session_start_def Healthy_def)

lemma start_recovers:
  "answers lib cfg pfx \<Longrightarrow> pc s = StartSession \<Longrightarrow> sessionOK (cl s) \<Longrightarrow>
   soon lib cfg pfx 1 s (\<lambda>t. Healthy (cl t))"
  using soon_step [OF session soon_now] start_healthy by (metis One_nat_def)

lemma login_recovers:
  assumes "answers lib cfg pfx" "pc s = AtLogin"
  shows "soon lib cfg pfx 2 s (\<lambda>t. Healthy (cl t))"
proof -
  have "fst (run_state (Login lib cfg RunCtx) (cl s)) = None" using assms(1) by (simp add: answers_def)
  then obtain c where run: "run_state (Login lib cfg RunCtx) (cl s) = (None, c)" by (metis prod.collapse)
  let ?u = "s\<lparr>cl := c, pc := StartSession, history := history s @ [EvLogin]\<rparr>"
  have "soon lib cfg pfx 1 ?u (\<lambda>t. Healthy (cl t))"
    using start_recovers [OF assms(1), of ?u] Login_cases [OF run] by simp
  with soon_step [OF login_ok [OF assms(2) run]] show ?thesis by (metis Suc_1)
qed

lemma recover:
  assumes a: "answers lib cfg pfx" and inv: "life_inv s" and "pc s \<noteq> Stopped"
  shows "soon lib cfg pfx 3 s (\<lambda>t. Healthy (cl t))"
proof (cases "pc s")
  case AtLogin
  from soon_more [OF login_recovers [OF a this]] show ?thesis by simp
next
  case LoginSleep
  have "soon lib cfg pfx 2 (s\<lparr>pc := AtLogin\<rparr>) (\<lambda>t. Healthy (cl t))" using login_recovers [OF a] by simp
  from soon_step [OF login_retry [OF LoginSleep] this] show ?thesis by (simp add: eval_nat_numeral)
next
  case StartSession
  then have "sessionOK (cl s)" using inv by (auto simp: life_inv_def)
  from soon_more [OF start_recovers [OF a StartSession this]] show ?thesis by simp
next
  case InSelect
  then have up: "sessionOK (cl s)" "canaryOK (cl s) \<longleftrightarrow> canaryTimer s = None" using inv by (auto simp: life_inv_def)
  show ?thesis
  proof (cases "canaryOK (cl s)")
    case True
    with up show ?thesis by (intro soon_now) (simp add: Healthy_def)
  next
    case False
    with up have "step lib cfg pfx s (canary_attempt lib cfg pfx s)" by (simp add: canary_retry InSelect)
    moreover have "Healthy (cl (canary_attempt lib cfg pfx s))"
      using attempt_passes [OF a, of s] up by (simp add: Healthy_def)
    ultimately have "soon lib cfg pfx 1 s (\<lambda>t. Healthy (cl t))"
      using soon_step soon_now by (metis One_nat_def)
    from soon_more [OF this] show ?thesis by simp
  qed
qed (use assms(3) in simp)

section \<open>Stopping\<close>

lemma stop_now:
  assumes "pc s \<in> {LoginSleep, InSelect}"
  shows "soon lib cfg pfx (Suc n) s (\<lambda>t. pc t = Stopped)"
  by (rule soon_step [OF cancelled [OF assms]]) (simp add: soon_now)

lemma session_start_pc: "pc (session_start lib cfg pfx s) = InSelect"
  using canary_attempt_cases [of lib cfg pfx "s\<lparr>pc := InSelect,
      renewTimer := Some (renewAfter (currentLeaseSeconds (cl s))), canaryTimer := None, canaryFailed := False\<rparr>"]
  by (simp add: session_start_def)

lemma stop_start: "pc s = StartSession \<Longrightarrow> soon lib cfg pfx (Suc (Suc n)) s (\<lambda>t. pc t = Stopped)"
  by (rule soon_step [OF session]) (simp_all add: stop_now session_start_pc)

lemma stop: "soon lib cfg pfx (Suc (Suc (Suc n))) s (\<lambda>t. pc t = Stopped)"
proof (cases "pc s")
  case AtLogin
  obtain r c where run: "run_state (Login lib cfg RunCtx) (cl s) = (r, c)" by fastforce
  show ?thesis
  proof (cases r)
    case None
    then show ?thesis using run by (intro soon_step [OF login_ok [OF AtLogin]] stop_start) simp_all
  next
    case (Some e)
    then show ?thesis using run by (intro soon_step [OF login_fails [OF AtLogin]] stop_now) simp_all
  qed
qed (simp_all add: stop_now stop_start soon_now)

lemma stopped_step: "step lib cfg pfx s t \<Longrightarrow> pc s = Stopped \<Longrightarrow>
    pc t = Stopped \<and> history t = history s \<and> session_of (cl t) = session_of (cl s)"
  by (auto elim: stepE)

text \<open>
  After the cancellation. The branch of \<open>ctx.Done()\<close> is ready in every select; the branch of a timer is ready only if it had
  expired by then, and the select takes any branch that is ready. A timer that is armed afterwards is not ready in the next select,
  which does not wait; only the renewal timer of a session that starts may have the interval 0. The
  state says which timers have expired.
\<close>

record 'w draining =
  dr_life :: "'w lifecycle"
  sleepFired :: bool
  renewFired :: bool
  canaryFired :: bool

inductive drain_step :: "'w lib \<Rightarrow> vx_config \<Rightarrow> string \<Rightarrow> 'w draining \<Rightarrow> 'w draining \<Rightarrow> bool"
  for lib :: "'w lib" and cfg :: vx_config and pfx :: string where
  drain_login:
    "pc (dr_life d) = AtLogin \<Longrightarrow> step lib cfg pfx (dr_life d) t \<Longrightarrow> pc t \<in> {StartSession, LoginSleep} \<Longrightarrow>
     drain_step lib cfg pfx d \<lparr>dr_life = t, sleepFired = False, renewFired = False, canaryFired = False\<rparr>"
| drain_start:
    "pc (dr_life d) = StartSession \<Longrightarrow> step lib cfg pfx (dr_life d) t \<Longrightarrow> pc t = InSelect \<Longrightarrow>
     drain_step lib cfg pfx d \<lparr>dr_life = t, sleepFired = False, renewFired = b, canaryFired = False\<rparr>"
| drain_sleep:
    "pc (dr_life d) = LoginSleep \<Longrightarrow> sleepFired d \<Longrightarrow> step lib cfg pfx (dr_life d) t \<Longrightarrow> pc t = AtLogin \<Longrightarrow>
     drain_step lib cfg pfx d (d\<lparr>dr_life := t, sleepFired := False\<rparr>)"
| drain_renewed:
    "pc (dr_life d) = InSelect \<Longrightarrow> renewFired d \<Longrightarrow> step lib cfg pfx (dr_life d) t \<Longrightarrow>
     history t = history (dr_life d) @ [EvRenew] \<Longrightarrow> drain_step lib cfg pfx d (d\<lparr>dr_life := t, renewFired := b\<rparr>)"
| drain_renew_fails:
    "pc (dr_life d) = InSelect \<Longrightarrow> renewFired d \<Longrightarrow> step lib cfg pfx (dr_life d) t \<Longrightarrow> pc t = AtLogin \<Longrightarrow>
     drain_step lib cfg pfx d (d\<lparr>dr_life := t, renewFired := False\<rparr>)"
| drain_canary:
    "pc (dr_life d) = InSelect \<Longrightarrow> canaryFired d \<Longrightarrow> canaryTimer (dr_life d) \<noteq> None \<Longrightarrow>
     drain_step lib cfg pfx d (d\<lparr>dr_life := canary_attempt lib cfg pfx (dr_life d), canaryFired := False\<rparr>)"
| drain_stop:
    "step lib cfg pfx (dr_life d) t \<Longrightarrow> pc (dr_life d) \<noteq> Stopped \<Longrightarrow> pc t = Stopped \<Longrightarrow>
     drain_step lib cfg pfx d (d\<lparr>dr_life := t\<rparr>)"

text \<open>Under a cancelled context the client's calls fail.\<close>

definition calls_fail :: "'w lib \<Rightarrow> bool" where
  "calls_fail lib \<longleftrightarrow>
     (\<forall>path data tok w. fst (lib_write lib path data tok RunCtx w) = SecretErr) \<and>
     (\<forall>n tok w. fst (lib_renew lib n tok RunCtx w) = SecretErr)"

lemma calls_fail_Login: "calls_fail lib \<Longrightarrow> fst (run_state (Login lib cfg RunCtx) c) = Some LoginFailed"
  by (auto simp: calls_fail_def Login_def logicalWrite_def login_failed_def Let_def split_beta)

lemma calls_fail_renew: "calls_fail lib \<Longrightarrow> fst (run_state (renewSelf lib RunCtx) c) = Some RenewFailed"
  by (auto simp: calls_fail_def renewSelf_def renewSelfWithContext_def Let_def split_beta)

lemma login_step_fails:
  assumes "calls_fail lib" "step lib cfg pfx s t" "pc s = AtLogin"
  shows "pc t \<noteq> StartSession"
  using assms(2)
proof cases
  case (login_ok c)
  with calls_fail_Login [OF assms(1), of cfg "cl s"] show ?thesis by simp
qed (use assms(3) in auto)

lemma renew_step_fails:
  assumes "calls_fail lib" "step lib cfg pfx s t" "pc s = InSelect"
  shows "history t \<noteq> history s @ [EvRenew]"
  using assms(2)
proof cases
  case (renew_ok c)
  with calls_fail_renew [OF assms(1), of "cl s"] show ?thesis by simp
next
  case canary_retry
  then show ?thesis using canary_attempt_cases [of lib cfg pfx s] by auto
qed (use assms(3) in auto)

fun drain_measure :: "'w draining \<Rightarrow> nat" where
  "drain_measure d =
     (case pc (dr_life d) of
        Stopped \<Rightarrow> 0
      | LoginSleep \<Rightarrow> 1 + 2 * of_bool (sleepFired d)
      | AtLogin \<Rightarrow> 2
      | InSelect \<Rightarrow> 1 + 2 * of_bool (renewFired d) + of_bool (canaryFired d)
      | StartSession \<Rightarrow> 4)"

lemma drain_decreases:
  assumes "calls_fail lib" and "drain_step lib cfg pfx d e"
  shows "drain_measure e < drain_measure d"
  using assms(2)
proof cases
  case (drain_login t)
  with login_step_fails [OF assms(1) drain_login(3,2)] show ?thesis by auto
next
  case (drain_start t b)
  then show ?thesis by simp
next
  case (drain_sleep t)
  then show ?thesis by simp
next
  case (drain_renewed t b)
  with renew_step_fails [OF assms(1) drain_renewed(4,2)] show ?thesis by simp
next
  case (drain_renew_fails t)
  then show ?thesis by simp
next
  case drain_canary
  then show ?thesis using canary_attempt_cases [of lib cfg pfx "dr_life d"] by simp
next
  case (drain_stop t)
  then show ?thesis by (simp split: pc.split)
qed

lemma drain_bound: "drain_measure d \<le> 4"
  by (simp split: pc.split)

lemma drain_run:
  assumes "calls_fail lib"
  shows "(drain_step lib cfg pfx ^^ n) d e \<Longrightarrow> n + drain_measure e \<le> drain_measure d"
proof (induction n arbitrary: e)
  case 0
  then show ?case by simp
next
  case (Suc n)
  then obtain f where "(drain_step lib cfg pfx ^^ n) d f" "drain_step lib cfg pfx f e" by auto
  with Suc.IH [of f] drain_decreases [OF assms, of cfg pfx f e] show ?case by linarith
qed

lemma drain_cancel:
  assumes "pc (dr_life d) \<in> {LoginSleep, InSelect}"
  shows "\<exists>e. drain_step lib cfg pfx d e"
proof
  let ?t = "(dr_life d)\<lparr>pc := Stopped, renewTimer := None, canaryTimer := None\<rparr>"
  show "drain_step lib cfg pfx d (d\<lparr>dr_life := ?t\<rparr>)"
    by (rule drain_stop [OF cancelled [OF assms]]) (use assms in auto)
qed

lemma drain_progress: "pc (dr_life d) \<noteq> Stopped \<Longrightarrow> \<exists>e. drain_step lib cfg pfx d e"
proof (cases "pc (dr_life d)")
  case AtLogin
  obtain r c where "run_state (Login lib cfg RunCtx) (cl (dr_life d)) = (r, c)" by fastforce
  then show ?thesis
    by (cases r) (auto intro!: exI drain_login [OF AtLogin] intro: login_ok [OF AtLogin] login_fails [OF AtLogin])
next
  case StartSession
  then show ?thesis using drain_start [OF _ session] session_start_pc by blast
next
  case LoginSleep
  then show ?thesis by (simp add: drain_cancel)
next
  case InSelect
  then show ?thesis by (simp add: drain_cancel)
qed simp

section \<open>Properties\<close>

text \<open>C33. The program recovers. With a Vault whose logins succeed and whose canary tokens pass, from every
  reachable state in which the goroutine has not stopped, a state that reports ready is reachable in at most
  three steps of the lifecycle.\<close>

theorem readiness_recovers:
  assumes "answers lib cfg pfx" and "reachable lib cfg pfx s" and "pc s \<noteq> Stopped"
  shows "soon lib cfg pfx 3 s (\<lambda>t. Healthy (cl t) \<and> reachable lib cfg pfx t)"
  using soon_reachable [OF recover [OF assms(1) reachable_inv [OF assms(2)] assms(3)] assms(2)] .

theorem readiness_recovers_witness:
  "answers (no_auth_lib 600) sample_vx ''ci'' \<and>
   soon (no_auth_lib 600) sample_vx ''ci'' 3 (initial (New False ()))
     (\<lambda>t. Healthy (cl t) \<and> reachable (no_auth_lib 600) sample_vx ''ci'' t)"
proof -
  have "fst (run_state (Login (no_auth_lib 600) sample_vx RunCtx) c) = None" for c
    by (simp add: Login_def logicalWrite_def no_auth_lib_def install_session_def Let_def)
  moreover have "fst (run_state (runCanary (no_auth_lib 600) sample_vx RunCtx ''ci'') c) = None" for c
    using canary_no_auth [OF no_auth_raw(1), of 600 RunCtx c] by auto
  ultimately have a: "answers (no_auth_lib 600) sample_vx ''ci''" by (simp add: answers_def)
  have "reachable (no_auth_lib 600) sample_vx ''ci'' (initial (New False ()))" by (auto simp: reachable_def)
  from readiness_recovers [OF a this] a show ?thesis by (auto simp: initial_def)
qed

text \<open>C34. The goroutine ends. Once the program's context is cancelled, so that the client's calls under it fail, every
  run of the goroutine, from any state, with any of its timers expired, takes at most four more steps, and it can take no
  step exactly when it has stopped: it neither runs on nor gets stuck before.\<close>

theorem drain_terminates:
  assumes "calls_fail lib" and "(drain_step lib cfg pfx ^^ n) d e"
  shows "n \<le> 4 \<and> (pc (dr_life e) = Stopped \<longleftrightarrow> \<not> (\<exists>f. drain_step lib cfg pfx e f))"
proof
  show "n \<le> 4" using drain_run [OF assms] drain_bound [of d] by linarith
  have "\<not> drain_step lib cfg pfx e f" if "pc (dr_life e) = Stopped" for f
    using drain_decreases [OF assms(1), of cfg pfx e f] that by auto
  then show "pc (dr_life e) = Stopped \<longleftrightarrow> \<not> (\<exists>f. drain_step lib cfg pfx e f)"
    using drain_progress [of e lib cfg pfx] by blast
qed

definition dead_lib :: "unit lib" where
  "dead_lib = \<lparr>lib_raw = (\<lambda>_ w. (RawFail, w)), lib_write = (\<lambda>_ _ _ _ w. (SecretErr, w)),
     lib_renew = (\<lambda>_ _ _ w. (SecretErr, w)), lib_lower = ascii_table\<rparr>"

theorem drain_terminates_witness:
  "\<exists>d e. (drain_step dead_lib sample_vx ''ci'' ^^ 2) d e \<and> pc (dr_life e) \<noteq> Stopped \<and>
     (\<exists>f. drain_step dead_lib sample_vx ''ci'' e f)"
proof -
  let ?start = "(initial (New False ()))\<lparr>pc := LoginSleep\<rparr>"
  let ?d = "\<lparr>dr_life = ?start, sleepFired = True, renewFired = False, canaryFired = False\<rparr>"
  let ?e1 = "?d\<lparr>dr_life := ?start\<lparr>pc := AtLogin\<rparr>, sleepFired := False\<rparr>"
  have dead: "calls_fail dead_lib" by (simp add: calls_fail_def dead_lib_def)
  have one: "drain_step dead_lib sample_vx ''ci'' ?d ?e1"
    using drain_sleep [OF _ _ login_retry, of ?d] by simp
  obtain c where login: "run_state (Login dead_lib sample_vx RunCtx) (cl (dr_life ?e1)) = (Some LoginFailed, c)"
    using calls_fail_Login [OF dead] by (metis prod.collapse)
  let ?e2 = "\<lparr>dr_life = (dr_life ?e1)\<lparr>cl := c, pc := LoginSleep, history := history (dr_life ?e1) @ [EvLoginFail]\<rparr>,
    sleepFired = False, renewFired = False, canaryFired = False\<rparr>"
  have "drain_step dead_lib sample_vx ''ci'' ?e1 ?e2"
    using drain_login [OF _ login_fails [OF _ login]] by simp
  with one have "(drain_step dead_lib sample_vx ''ci'' ^^ 2) ?d ?e2" by (auto simp: eval_nat_numeral)
  moreover from drain_terminates [OF dead this] have "\<exists>f. drain_step dead_lib sample_vx ''ci'' ?e2 f" by auto
  ultimately show ?thesis by (intro exI [of _ ?d] exI [of _ ?e2]) simp
qed

text \<open>The goroutine can end. From every state of the lifecycle, whatever the Vault answers, at most three steps
  lead to the stopped state once the context is cancelled, with at most one more login and one more canary on the
  way; and a stopped lifecycle stays stopped and never again touches the session.\<close>

theorem lifecycle_stops:
  "soon lib cfg pfx 3 s (\<lambda>t. pc t = Stopped) \<and>
   \<not> (pc u = Stopped \<and> step lib cfg pfx u v \<and>
      (pc v, history v, session_of (cl v)) \<noteq> (Stopped, history u, session_of (cl u)))"
  using stop [of lib cfg pfx 0 s] stopped_step [of lib cfg pfx u v] by (auto simp: eval_nat_numeral)

end
