(* ===== verification/Interleave.thy ===== *)
theory Interleave
  imports BrokerProps Session
begin

text \<open>
  A request between whose operations the other goroutines take turns. The handler of a request runs in its own
  goroutine, and so do the session lifecycle and the other requests; they share one Vault client, whose
  session they change under its mutex. Here the broker runs on the client of a lifecycle state, and
  before each operation of its \<open>Vault\<close> the others take any number of steps. A ghost records
  the calls the request itself makes.

  One turn before each operation is enough: an operation reads the session at one point only
  (the flag of \<open>CanaryOK\<close>, the client's token when \<open>MintToken\<close> builds its request), and the reads and the
  revocation carry a token of their own. What others do to the world between two calls of one operation
  is a behaviour of the parameter \<open>lib\<close>.
\<close>

section \<open>Taking turns\<close>

record 'w shared =
  sh_life :: "'w lifecycle"
  sh_env :: "('w lifecycle \<Rightarrow> 'w lifecycle) list"   \<comment> \<open>what the others do before the next operations\<close>
  sh_own :: "api_call list"                         \<comment> \<open>the calls of this request\<close>

definition others_turn :: "'w shared \<Rightarrow> 'w shared" where
  "others_turn s = (case sh_env s of [] \<Rightarrow> s | e # es \<Rightarrow> s\<lparr>sh_life := e (sh_life s), sh_env := es\<rparr>)"

definition my_turn :: "('w client, 'a) state \<Rightarrow> ('w shared, 'a) state" where
  "my_turn m = State (\<lambda>s0.
     let s = others_turn s0; c = cl (sh_life s); (a, d) = run_state m c in
     (a, s\<lparr>sh_life := (sh_life s)\<lparr>cl := d\<rparr>, sh_own := sh_own s @ drop (length (calls c)) (calls d)\<rparr>))"

definition shared_vault :: "'w lib \<Rightarrow> vx_config \<Rightarrow> 'w shared vault" where
  "shared_vault lib cfg =
     (let v = client_vault lib cfg in
      \<lparr>v_CanaryOK = my_turn (v_CanaryOK v), v_Base = v_Base v,
       v_MintToken = (\<lambda>ctx ps meta dn. my_turn (v_MintToken v ctx ps meta dn)),
       v_RevokeSelf = (\<lambda>ctx tok. my_turn (v_RevokeSelf v ctx tok)),
       v_ReadIdentity = (\<lambda>ctx tok base. my_turn (v_ReadIdentity v ctx tok base)),
       v_ReadConfig = (\<lambda>ctx tok base. my_turn (v_ReadConfig v ctx tok base)),
       v_Sweep = (\<lambda>ctx tok ident branchful. my_turn (v_Sweep v ctx tok ident branchful))\<rparr>)"

definition shared_broker :: "'w lib \<Rightarrow> vx_config \<Rightarrow> string \<Rightarrow> string \<Rightarrow> 'w shared broker" where
  "shared_broker lib cfg pfx addr = New_broker (shared_vault lib cfg) pfx addr"

text \<open>The rely condition: in their turns the others take steps of the lifecycle, which include those of other requests.\<close>

definition obeys :: "'w lib \<Rightarrow> vx_config \<Rightarrow> string \<Rightarrow> ('w lifecycle \<Rightarrow> 'w lifecycle) list \<Rightarrow> bool" where
  "obeys lib cfg pfx es \<longleftrightarrow> list_all (\<lambda>e. \<forall>s. (step lib cfg pfx)\<^sup>*\<^sup>* s (e s)) es"

text \<open>The lifecycle when the request asks for the canary.\<close>

definition at_check :: "'w shared \<Rightarrow> 'w lifecycle" where
  "at_check s = sh_life (others_turn s)"

section \<open>Lemmas\<close>

lemma run_my_turn:
  "run_state (my_turn m) s =
     (let c = cl (at_check s); (a, d) = run_state m c in
      (a, (others_turn s)\<lparr>sh_life := (at_check s)\<lparr>cl := d\<rparr>, sh_own := sh_own s @ drop (length (calls c)) (calls d)\<rparr>))"
  by (simp add: my_turn_def at_check_def others_turn_def Let_def split: list.split)

lemma shared_vault_simps [simp]:
  "v_CanaryOK (shared_vault lib cfg) = my_turn (v_CanaryOK (client_vault lib cfg))"
  "v_Base (shared_vault lib cfg) = Base cfg"
  "v_MintToken (shared_vault lib cfg) ctx ps meta dn = my_turn (MintToken lib cfg ctx ps meta dn)"
  "v_RevokeSelf (shared_vault lib cfg) ctx tok = my_turn (RevokeSelf lib ctx tok)"
  "v_ReadIdentity (shared_vault lib cfg) ctx tok base = my_turn (ReadIdentity lib cfg ctx tok base)"
  "v_ReadConfig (shared_vault lib cfg) ctx tok base = my_turn (ReadConfig lib cfg ctx tok base)"
  "v_Sweep (shared_vault lib cfg) ctx tok ident branchful = my_turn (Sweep lib cfg ctx tok ident branchful)"
  by (simp_all add: shared_vault_def Let_def)

lemma shared_broker_simps [simp]:
  "b_vault (shared_broker lib cfg pfx addr) = shared_vault lib cfg"
  "b_policyPrefix (shared_broker lib cfg pfx addr) = pfx"
  by (simp_all add: shared_broker_def)

lemma my_turn_reads:
  assumes "state_io_rel (reads_by calls session_of P) m"
  shows "state_io_rel (reads_by sh_own (\<lambda>_. ()) P) (my_turn m)"
proof (rule state_io_relI')
  fix s :: "'a shared"
  obtain a d where run: "run_state m (cl (at_check s)) = (a, d)" by fastforce
  with state_io_rel_run [OF assms run] show "reads_by sh_own (\<lambda>_. ()) P s (snd (run_state (my_turn m) s))"
    by (auto simp: run_my_turn reads_by_def)
qed

interpretation shared: vault_contract "shared_vault lib cfg" sh_own "\<lambda>_. ()" "\<lambda>s. canaryOK (cl (at_check s))"
    "\<lambda>s ctx. mint_call cfg ctx (api_token (cl (at_check s)))" revoke_call is_get for lib cfg
proof
  fix s s' :: "'a shared" and ctx ps meta dn r tok e ok
  show "ok = canaryOK (cl (at_check s)) \<and> () = () \<and> sh_own s' = sh_own s"
    if "run_state (v_CanaryOK (shared_vault lib cfg)) s = (ok, s')"
    using that by (auto simp: run_my_turn CanaryOK_def Let_def)
  show "() = () \<and> sh_own s' = sh_own s @ [mint_call cfg ctx (api_token (cl (at_check s))) ps meta dn]"
    if "run_state (v_MintToken (shared_vault lib cfg) ctx ps meta dn) s = (r, s')"
    using that by (auto simp: run_my_turn Let_def split: prod.splits dest!: run_MintToken)
  show "() = () \<and> sh_own s' = sh_own s @ [revoke_call ctx tok]"
    if "run_state (v_RevokeSelf (shared_vault lib cfg) ctx tok) s = (e, s')"
    using that by (auto simp: run_my_turn Let_def split: prod.splits dest!: run_RevokeSelf)
next
  fix ctx tok base
  show "state_io_rel (reads_by sh_own (\<lambda>_. ()) (is_get ctx tok)) (v_ReadIdentity (shared_vault lib cfg) ctx tok base)"
    unfolding shared_vault_simps by (rule my_turn_reads [OF client.identity_law [unfolded client_broker_simps]])
  show "state_io_rel (reads_by sh_own (\<lambda>_. ()) (is_get ctx tok)) (v_ReadConfig (shared_vault lib cfg) ctx tok base)"
    unfolding shared_vault_simps by (rule my_turn_reads [OF client.config_law [unfolded client_broker_simps]])
next
  fix ctx tok ident branchful
  show "state_io_rel (reads_by sh_own (\<lambda>_. ()) (is_get ctx tok)) (v_Sweep (shared_vault lib cfg) ctx tok ident branchful)"
    unfolding shared_vault_simps by (rule my_turn_reads [OF client.sweep_law [unfolded client_broker_simps]])
qed

text \<open>The sequential request keeps the session, and is answered with a 200 only if the flag is set.\<close>

lemma Handle_session:
  fixes c :: "'w client"
  shows "session_of (snd (run_state (Handle (client_broker lib cfg pfx addr) ctx ident) c)) = session_of c"
proof -
  obtain res c' where run: "run_state (Handle (client_broker lib cfg pfx addr) ctx ident) c = (res, c')" by fastforce
  show ?thesis using client.Handle_trace [OF _ run, of lib cfg] by (simp add: run)
qed

lemma Handle_canary:
  fixes c :: "'w client"
  shows "r_Status (fst (run_state (Handle (client_broker lib cfg pfx addr) ctx ident) c)) = 200 \<Longrightarrow> canaryOK c"
  using client.Handle_up [OF client_broker_simps(1)] by (metis numeral_eq_iff prod.collapse semiring_norm(85,87,88))

text \<open>What a request keeps whatever the others do: if they obey, then the lifecycle takes steps only.\<close>

definition in_steps :: "'w lib \<Rightarrow> vx_config \<Rightarrow> string \<Rightarrow> 'w shared \<Rightarrow> 'w shared \<Rightarrow> bool" where
  "in_steps lib cfg pfx s t \<longleftrightarrow>
     (obeys lib cfg pfx (sh_env s) \<longrightarrow> obeys lib cfg pfx (sh_env t) \<and> (step lib cfg pfx)\<^sup>*\<^sup>* (sh_life s) (sh_life t))"

lemma others_in_steps: "in_steps lib cfg pfx s (others_turn s)"
  by (auto simp: in_steps_def others_turn_def obeys_def split: list.split)

lemma my_turn_in_steps:
  assumes "state_io_rel (\<lambda>c d. session_of d = session_of c) m"
  shows "state_io_rel (in_steps lib cfg pfx) (my_turn m)"
proof (rule state_io_relI')
  fix s :: "'a shared"
  obtain a d where run: "run_state m (cl (at_check s)) = (a, d)" by fastforce
  with state_io_rel_run [OF assms run] have "step lib cfg pfx (at_check s) ((at_check s)\<lparr>cl := d\<rparr>)" by (simp add: request)
  then show "in_steps lib cfg pfx s (snd (run_state (my_turn m) s))"
    using others_in_steps [of lib cfg pfx s] run
    by (auto simp: run_my_turn Let_def in_steps_def at_check_def intro: rtranclp.rtrancl_into_rtrancl)
qed

lemma reads_by_session: "state_io_rel (reads_by calls session_of P) m \<Longrightarrow> state_io_rel (\<lambda>c d. session_of d = session_of c) m"
  by (erule state_io_rel_mono) (simp add: reads_by_def)

interpretation kept: vault_keeps "in_steps lib cfg pfx" "shared_vault lib cfg" ident for lib cfg pfx ident
proof
  show "in_steps lib cfg pfx s s" for s by (simp add: in_steps_def)
  show "in_steps lib cfg pfx s u" if "in_steps lib cfg pfx s t" "in_steps lib cfg pfx t u" for s t u
    using that by (auto simp: in_steps_def)
  show "state_io_rel (in_steps lib cfg pfx) (v_CanaryOK (shared_vault lib cfg))"
    unfolding shared_vault_simps by (rule my_turn_in_steps) (simp add: state_io_rel_def)
  show "state_io_rel (in_steps lib cfg pfx) (v_MintToken (shared_vault lib cfg) ctx ps meta dn)" for ctx ps meta dn
    unfolding shared_vault_simps
    by (rule my_turn_in_steps) (auto intro!: state_io_relI dest!: run_MintToken simp: session_of_def)
  show "state_io_rel (in_steps lib cfg pfx) (v_RevokeSelf (shared_vault lib cfg) ctx tok)" for ctx tok
    unfolding shared_vault_simps
    by (rule my_turn_in_steps) (auto intro!: state_io_relI dest!: run_RevokeSelf simp: session_of_def)
  show "state_io_rel (in_steps lib cfg pfx) (v_ReadIdentity (shared_vault lib cfg) ctx tok (v_Base (shared_vault lib cfg) ident))" for ctx tok
    unfolding shared_vault_simps
    by (rule my_turn_in_steps [OF reads_by_session [OF client.identity_law [unfolded client_broker_simps]]])
  show "state_io_rel (in_steps lib cfg pfx) (v_ReadConfig (shared_vault lib cfg) ctx tok (v_Base (shared_vault lib cfg) ident))" for ctx tok
    unfolding shared_vault_simps
    by (rule my_turn_in_steps [OF reads_by_session [OF client.config_law [unfolded client_broker_simps]]])
  show "state_io_rel (in_steps lib cfg pfx) (v_Sweep (shared_vault lib cfg) ctx tok ident (Branchful (Event ident)))" for ctx tok
    unfolding shared_vault_simps
    by (rule my_turn_in_steps [OF reads_by_session [OF client.sweep_law [unfolded client_broker_simps]]])
qed

lemma in_steps_reachable:
  "in_steps lib cfg pfx s t \<Longrightarrow> obeys lib cfg pfx (sh_env s) \<Longrightarrow> reachable lib cfg pfx (sh_life s) \<Longrightarrow>
   reachable lib cfg pfx (sh_life t)"
  unfolding in_steps_def reachable_def by (meson rtranclp_trans)

text \<open>A request nobody interrupts.\<close>

definition alone :: "'w lifecycle \<Rightarrow> 'w client \<Rightarrow> 'w shared \<Rightarrow> bool" where
  "alone l c s \<longleftrightarrow> sh_env s = [] \<and> sh_life s = l\<lparr>cl := c\<rparr>"

lemma my_turn_alone: "in_step (alone l) m (my_turn m)"
  by (auto simp: in_step_def alone_def run_my_turn at_check_def others_turn_def Let_def split_beta)

interpretation quiet: vault_simulation "alone l" "client_vault lib cfg" "shared_vault lib cfg" for l lib cfg
  by unfold_locales (simp_all add: my_turn_alone)

lemma alone_minted:
  assumes "alone u c s" and "run_state (handle_minted (client_broker lib cfg pfx addr) ctx ident ps audit m) c = (res, d)"
  shows "\<exists>s'. run_state (handle_minted (shared_broker lib cfg pfx addr) ctx ident ps audit m) s = (res, s') \<and> alone u d s'"
  using in_stepD [OF quiet.minted_in_step assms(1) assms(2) [unfolded client_broker_def]]
  unfolding shared_broker_def .

lemma alone_Handle:
  assumes "sh_env s = []" and "run_state (Handle (client_broker lib cfg pfx addr) ctx ident) (cl (sh_life s)) = (res, c)"
  shows "\<exists>s'. run_state (Handle (shared_broker lib cfg pfx addr) ctx ident) s = (res, s') \<and> alone (sh_life s) c s'"
proof -
  have "alone (sh_life s) (cl (sh_life s)) s" by (simp add: alone_def assms(1))
  from in_stepD [OF quiet.Handle_in_step this assms(2) [unfolded client_broker_def]] show ?thesis
    unfolding shared_broker_def .
qed

text \<open>A request from the results of the question and the mint, when nobody interrupts it after the mint.\<close>

lemma run_shared_released:
  assumes ask: "run_state (v_CanaryOK (shared_vault lib cfg)) s = (True, s1)"
    and mint: "run_state (v_MintToken (shared_vault lib cfg) ctx (Derive ident pfx) (Some (mint_meta ident)) (display_name ident)) s1 = (Inr m, s2)"
    and quiet: "alone u c s2"
    and ok: "\<And>audit. r_Status (fst (run_state (handle_minted (client_broker lib cfg pfx addr) ctx ident (Derive ident pfx) audit m) c)) = 200"
  shows "\<exists>res s' d gets. run_state (Handle (shared_broker lib cfg pfx addr) ctx ident) s = (res, s') \<and> r_Status res = 200 \<and>
    alone u d s' \<and> sh_own s' = sh_own s2 @ gets"
proof -
  let ?audit = "\<lparr>PoliciesRequested = Derive ident pfx, PolicyWarnings = [], SecretNames = [],
       TokenAccessor = Accessor m, TokenTTL = TTL m\<rparr>"
  obtain res d where sole: "run_state (handle_minted (client_broker lib cfg pfx addr) ctx ident (Derive ident pfx) ?audit m) c = (res, d)"
    by fastforce
  from alone_minted [OF quiet sole] obtain s' where
    body: "run_state (handle_minted (shared_broker lib cfg pfx addr) ctx ident (Derive ident pfx) ?audit m) s2 = (res, s')"
    and s': "alone u d s'" by blast
  have res: "r_Status res = 200" using ok [of ?audit] sole by simp
  obtain gets where "sh_own s' = sh_own s2 @ gets"
    using state_io_rel_run [OF shared.minted_reads [OF shared_broker_simps(1)] body] by (auto simp: reads_by_def)
  moreover have "run_state (Handle (shared_broker lib cfg pfx addr) ctx ident) s = (res, s')"
    unfolding Handle_def Let_def shared_broker_simps run_state_bind ask mint prod.case
    by (simp del: shared_vault_simps add: mint body res deferred_revoke_def)
  ultimately show ?thesis using res s' by blast
qed

section \<open>Sample requests\<close>

lemma no_auth_minted:
  assumes raw: "lib_raw lib = (\<lambda>rq w. (no_auth_reply rq, w))"
  shows "r_Status (fst (run_state (handle_minted (client_broker lib sample_vx ''ci'' []) RequestCtx (sample_identity ''tag'' [])
      (Derive (sample_identity ''tag'' []) ''ci'') audit no_auth_mint) d)) = 200"
proof -
  let ?id = "sample_identity ''tag'' []"
  have st: "static lib no_auth_reply" by (auto simp: static_def raw)
  have "answer no_auth_reply RequestCtx tok (''kv/'' @ p) l = Inr None" for tok p l
    by (simp add: answer_def no_auth_reply_def classify_get_def)
  then have "spec_keys no_auth_reply sample_vx RequestCtx tok t = Inr []" for tok t
    by (simp add: spec_keys_def sample_vx_def Let_def)
  then have "fst (run_state (Sweep lib sample_vx RequestCtx tok ?id b) d) = Inr \<lparr>Secrets = [], LeasesCreated = False\<rparr>" for tok b d
    by (simp add: Sweep_spec [OF st] spec_sweep_def spec_tier_def sample_tiers merge_offers_def Let_def)
  moreover have "fst (run_state (ReadIdentity lib sample_vx RequestCtx tok base) d) = Inr None"
    "fst (run_state (ReadConfig lib sample_vx RequestCtx tok base) d) = Inr None" for tok base d
    by (simp_all add: run_ReadIdentity run_ReadConfig identity_path_def config_path_def sample_vx_def raw no_auth_reply_def
        identity_of_reply_def config_of_reply_def classify_get_def)
  moreover have "\<not> set (Derive ?id ''ci'') \<subseteq> set (warnedNonexistentPolicies [])"
    by (simp add: Derive_def Let_def warnedNonexistentPolicies_def)
  ultimately show ?thesis
    by (auto simp: handle_minted_def no_auth_mint_def Let_def split_beta allWarned_def list_all_iff build_response_simps config_get_def)
qed

lemma sample_released:
  assumes raw: "lib_raw lib = (\<lambda>rq w. (no_auth_reply rq, w))" and up: "canaryOK c"
  shows "r_Status (fst (run_state (Handle (client_broker lib sample_vx ''ci'' []) RequestCtx (sample_identity ''tag'' [])) c)) = 200"
  unfolding run_Handle_minted [OF up mint_no_auth [OF raw]]
  by (simp add: split_beta Let_def deferred_revoke_def no_auth_minted [OF raw])

text \<open>A session that fades: it is lost by a failed renewal, and then the next login succeeds or there is none.\<close>

lemma fading_select:
  assumes "tok \<noteq> []"
  shows "\<exists>t. reachable fading_lib sample_vx ''ci'' t \<and> pc t = InSelect \<and> history t = [EvLogin, EvCanaryPass] \<and>
     renewTimer t \<noteq> None \<and> world (cl t) = toks \<and> api_token (cl t) = tok"
proof -
  let ?s0 = "initial (New False (tok # toks)) :: string list lifecycle"
  obtain c where login: "run_state (Login fading_lib sample_vx RunCtx) (cl ?s0) = (None, c)" "world c = toks" "api_token c = tok"
    using assms by (auto simp: Login_def logicalWrite_def fading_lib_def install_session_def Let_def initial_def New_def)
  from steps_to_select [OF no_auth_raw(2) _ login(1)] login show ?thesis by (auto simp: initial_def reachable_def)
qed

lemma fading_renew: "run_state (renewSelf fading_lib RunCtx) c = (Some RenewFailed, snd (run_state (renewSelf fading_lib RunCtx) c)) \<and>
    world (snd (run_state (renewSelf fading_lib RunCtx) c)) = world c"
  by (simp add: renewSelf_def renewSelfWithContext_def fading_lib_def Let_def setSessionOK_def logger_def)

lemma fading_login_fails: "world c = [] \<Longrightarrow> \<exists>d. run_state (Login fading_lib sample_vx RunCtx) c = (Some LoginFailed, d)"
  by (simp add: Login_def logicalWrite_def fading_lib_def login_failed_def setSessionOK_def logger_def Let_def)

text \<open>The next login, after a lost renewal.\<close>

lemma fading_relogin:
  assumes "pc t = InSelect" "renewTimer t \<noteq> None" "world (cl t) = [tok]" "tok \<noteq> []"
  shows "\<exists>u. (step fading_lib sample_vx ''ci'')\<^sup>*\<^sup>* t u \<and> pc u = StartSession \<and> history u = history t @ [EvRenewFail, EvLogin] \<and>
     api_token (cl u) = tok"
proof -
  let ?c = "snd (run_state (renewSelf fading_lib RunCtx) (cl t))"
  let ?t1 = "t\<lparr>cl := ?c, pc := AtLogin, renewTimer := None, canaryTimer := None, history := history t @ [EvRenewFail]\<rparr>"
  have "world ?c = [tok]" using fading_renew assms(3) by metis
  then obtain d where login: "run_state (Login fading_lib sample_vx RunCtx) ?c = (None, d)" "api_token d = tok"
    using assms(4) by (auto simp: Login_def logicalWrite_def fading_lib_def install_session_def Let_def)
  have "step fading_lib sample_vx ''ci'' t ?t1"
    by (rule renew_fails [OF assms(1,2) fading_renew [THEN conjunct1]])
  moreover have "step fading_lib sample_vx ''ci'' ?t1 (?t1\<lparr>cl := d, pc := StartSession, history := history ?t1 @ [EvLogin]\<rparr>)"
    by (rule login_ok) (simp_all add: login(1))
  ultimately have "(step fading_lib sample_vx ''ci'')\<^sup>*\<^sup>* t (?t1\<lparr>cl := d, pc := StartSession, history := history ?t1 @ [EvLogin]\<rparr>)"
    by (blast intro: rtranclp.rtrancl_into_rtrancl rtranclp.rtrancl_refl)
  then show ?thesis using login(2) by (intro exI conjI) (assumption, simp_all)
qed

section \<open>Properties\<close>

text \<open>C2. The calls of an interrupted request. Whatever the other goroutines do between its operations, a request makes no call
  unless the canary flag is set when it asks; then it makes one mint, as whatever session the client has at that
  moment; and if a token came back, every further call of its own is a read as that token, and then, exactly
  when the status is not 200, one last call revokes the token as itself under the detached context.\<close>

theorem Handle_interleaved:
  "let (res, s') = run_state (Handle (shared_broker lib cfg pfx addr) ctx ident) s;
       asked = snd (run_state (v_CanaryOK (shared_vault lib cfg)) s);
       mint = mint_call cfg ctx (api_token (cl (at_check asked))) (Derive ident pfx) (Some (mint_meta ident)) (display_name ident) in
   if \<not> canaryOK (cl (at_check s)) then sh_own s' = sh_own s \<and> r_Status res = 502
   else case fst (run_state (v_MintToken (shared_vault lib cfg) ctx (Derive ident pfx) (Some (mint_meta ident)) (display_name ident)) asked) of
      Inl e \<Rightarrow> sh_own s' = sh_own s @ [mint] \<and> r_Status res = 502
    | Inr m \<Rightarrow> \<exists>gets. list_all (\<lambda>x. \<exists>path list. x = get_call ctx (Token m) path list) gets \<and>
        sh_own s' = sh_own s @ mint # gets @ (if r_Status res = 200 then [] else [revoke_call CleanupCtx (Token m)])"
proof -
  obtain res s' where run: "run_state (Handle (shared_broker lib cfg pfx addr) ctx ident) s = (res, s')" by fastforce
  have is_get: "(\<lambda>x. \<exists>path list. x = get_call ctx tok path list) = is_get ctx tok" for tok
    by (rule ext) (simp add: is_get_def)
  show ?thesis
    using shared.Handle_trace [OF _ run, of lib cfg, unfolded shared_broker_simps]
    unfolding run Let_def split is_get by (auto split: sum.splits if_splits)
qed

text \<open>Secrets need a canary, seen by the request. If the others take steps of the lifecycle only, and a request is
  answered with a 200, then at the moment it asked, a canary run had passed since the latest login and none had
  failed since; and what follows is again a reachable state.\<close>

theorem released_after_check:
  assumes "reachable lib cfg pfx (sh_life s)" and "obeys lib cfg pfx (sh_env s)"
    and run: "run_state (Handle (shared_broker lib cfg pfx addr) ctx ident) s = (res, s')" and "r_Status res = 200"
  shows "passed_since_login (history (at_check s)) \<and> reachable lib cfg pfx (at_check s) \<and> reachable lib cfg pfx (sh_life s')"
proof -
  have check: "reachable lib cfg pfx (at_check s)"
    using in_steps_reachable [OF others_in_steps assms(2,1)] by (simp add: at_check_def)
  have "reachable lib cfg pfx (sh_life s')"
    using in_steps_reachable [OF state_io_rel_run [OF kept.Handle_keeps run] assms(2,1)] by simp
  moreover have "canaryOK (cl (at_check s))"
    using shared.Handle_up [OF _ run] assms(4) by simp
  ultimately show ?thesis
    using check reachable_inv [OF check] by (simp add: life_inv_def)
qed

text \<open>An uninterrupted request is the request of the sequential model: on the client of the lifecycle's state,
  with the same result and the same client afterwards.\<close>

theorem Handle_uninterrupted:
  "let (res, s') = run_state (Handle (shared_broker lib cfg pfx addr) ctx ident) (s\<lparr>sh_env := []\<rparr>);
       (res0, c') = run_state (Handle (client_broker lib cfg pfx addr) ctx ident) (cl (sh_life s)) in
   res = res0 \<and> sh_life s' = (sh_life s)\<lparr>cl := c'\<rparr> \<and> sh_env s' = []"
proof -
  obtain res c' where "run_state (Handle (client_broker lib cfg pfx addr) ctx ident) (cl (sh_life s)) = (res, c')" by fastforce
  with alone_Handle [of "s\<lparr>sh_env := []\<rparr>" lib cfg pfx addr ctx ident res c'] show ?thesis by (auto simp: alone_def)
qed

text \<open>C14. The canary gate can be passed by a token of a session without a canary. The flag is looked at once, before the mint, and the
  mint goes out as the client's token of that later moment: there is a Vault, a state the lifecycle reaches and
  a way it goes on, in which the canary has passed for the session of the login as \<open>first\<close>, the request sees the flag, the
  session is lost and a login as \<open>second\<close> succeeds, the mint is made as \<open>second\<close>, and secrets and the minted
  token are served with no canary since that login.\<close>

theorem canary_gate_race:
  "\<exists>s s' res gets.
     reachable fading_lib sample_vx ''ci'' (sh_life s) \<and> obeys fading_lib sample_vx ''ci'' (sh_env s) \<and>
     api_token (cl (at_check s)) = ''first'' \<and> passed_since_login (history (at_check s)) \<and>
     run_state (Handle (shared_broker fading_lib sample_vx ''ci'' []) RequestCtx (sample_identity ''tag'' [])) s = (res, s') \<and>
     r_Status res = 200 \<and>
     sh_own s' = mint_call sample_vx RequestCtx ''second'' (Derive (sample_identity ''tag'' []) ''ci'')
       (Some (mint_meta (sample_identity ''tag'' []))) (display_name (sample_identity ''tag'' [])) # gets \<and>
     \<not> passed_since_login (history (sh_life s')) \<and> \<not> canaryOK (cl (sh_life s'))"
proof -
  let ?id = "sample_identity ''tag'' []"
  obtain t where t: "reachable fading_lib sample_vx ''ci'' t" "pc t = InSelect" "history t = [EvLogin, EvCanaryPass]"
      "renewTimer t \<noteq> None" "world (cl t) = [''second'']" "api_token (cl t) = ''first''"
    using fading_select [of "''first''" "[''second'']"] by auto
  obtain u where u: "(step fading_lib sample_vx ''ci'')\<^sup>*\<^sup>* t u" "history u = history t @ [EvRenewFail, EvLogin]"
      "api_token (cl u) = ''second''"
    using fading_relogin [OF t(2,4,5)] by auto
  define e where "e x = (if x = t then u else x)" for x
  define s where "s = \<lparr>sh_life = t, sh_env = [id, e], sh_own = []\<rparr>"
  have ob: "obeys fading_lib sample_vx ''ci'' (sh_env s)" using u(1) by (simp add: s_def obeys_def e_def)
  have check: "at_check s = t" by (simp add: s_def at_check_def others_turn_def)
  have up: "passed_since_login (history t)" "canaryOK (cl t)"
    using reachable_inv [OF t(1)] t(3) by (simp_all add: life_inv_def passed_since_login_def)
  have "t\<lparr>cl := cl t\<rparr> = t" by simp
  then have asked: "run_state (v_CanaryOK (shared_vault fading_lib sample_vx)) s = (True, \<lparr>sh_life = t, sh_env = [e], sh_own = []\<rparr>)"
    using up by (simp add: run_my_turn check) (simp add: s_def others_turn_def CanaryOK_def)
  define mint where "mint = mint_call sample_vx RequestCtx ''second'' (Derive ?id ''ci'') (Some (mint_meta ?id)) (display_name ?id)"
  define c where "c = (cl u)\<lparr>calls := calls (cl u) @ [mint]\<rparr>"
  define s2 where "s2 = \<lparr>sh_life = u\<lparr>cl := c\<rparr>, sh_env = [], sh_own = [mint]\<rparr>"
  have minted: "run_state (v_MintToken (shared_vault fading_lib sample_vx) RequestCtx (Derive ?id ''ci'') (Some (mint_meta ?id)) (display_name ?id))
      \<lparr>sh_life = t, sh_env = [e], sh_own = []\<rparr> = (Inr no_auth_mint, s2)"
    by (simp add: run_my_turn at_check_def others_turn_def mint_no_auth [OF no_auth_raw(2)] e_def u(3) Let_def s2_def c_def mint_def)
  have "alone u c s2" by (simp add: alone_def s2_def)
  from run_shared_released [OF asked minted this no_auth_minted [OF no_auth_raw(2)]] obtain res s' d gets where
    run: "run_state (Handle (shared_broker fading_lib sample_vx ''ci'' []) RequestCtx ?id) s = (res, s')" "r_Status res = 200"
    and s': "alone u d s'" "sh_own s' = sh_own s2 @ gets" by blast
  have "reachable fading_lib sample_vx ''ci'' (sh_life s')"
    using in_steps_reachable [OF state_io_rel_run [OF kept.Handle_keeps run(1)] ob] t(1) by (simp add: s_def)
  from reachable_inv [OF this] have "\<not> passed_since_login (history (sh_life s')) \<and> \<not> canaryOK (cl (sh_life s'))"
    using s'(1) by (simp add: alone_def life_inv_def u(2) t(3) passed_since_login_def)
  moreover have "reachable fading_lib sample_vx ''ci'' (sh_life s)" "sh_own s' = mint # gets"
    using t(1) s'(2) by (simp_all add: s_def s2_def)
  ultimately show ?thesis
    using t(6) up ob check run by (intro exI [of _ s] exI [of _ s'] exI [of _ res] exI [of _ gets]) (simp add: mint_def)
qed

text \<open>C15. A lost session does not stop the mints. There is a Vault and a state the lifecycle reaches, waiting after a failed renewal and a
  failed login, in which readiness is false, and yet a request is answered with a 200: only the canary flag is
  looked at, which neither failure clears, and the mint goes out as the old token.\<close>

theorem served_without_session:
  "\<exists>s. reachable fading_lib sample_vx ''ci'' s \<and> pc s = LoginSleep \<and>
     history s = [EvLogin, EvCanaryPass, EvRenewFail, EvLoginFail] \<and> \<not> Healthy (cl s) \<and>
     r_Status (fst (run_state (Handle (client_broker fading_lib sample_vx ''ci'' []) RequestCtx (sample_identity ''tag'' [])) (cl s))) = 200"
proof -
  obtain t where t: "reachable fading_lib sample_vx ''ci'' t" "pc t = InSelect" "history t = [EvLogin, EvCanaryPass]"
      "renewTimer t \<noteq> None" "world (cl t) = []"
    using fading_select [of "''own''" "[]"] by auto
  let ?c = "snd (run_state (renewSelf fading_lib RunCtx) (cl t))"
  let ?t1 = "t\<lparr>cl := ?c, pc := AtLogin, renewTimer := None, canaryTimer := None, history := history t @ [EvRenewFail]\<rparr>"
  have "world ?c = []" using fading_renew t(5) by metis
  then obtain d where login: "run_state (Login fading_lib sample_vx RunCtx) ?c = (Some LoginFailed, d)"
    using fading_login_fails by blast
  let ?s = "?t1\<lparr>cl := d, pc := LoginSleep, history := history ?t1 @ [EvLoginFail]\<rparr>"
  have "step fading_lib sample_vx ''ci'' t ?t1"
    by (rule renew_fails [OF t(2,4) fading_renew [THEN conjunct1]])
  moreover have "step fading_lib sample_vx ''ci'' ?t1 ?s"
    by (rule login_fails) (simp_all add: login)
  ultimately have reach: "reachable fading_lib sample_vx ''ci'' ?s"
    using t(1) unfolding reachable_def by (meson rtranclp.rtrancl_into_rtrancl)
  from reachable_inv [OF this] have "canaryOK (cl ?s)" "\<not> Healthy (cl ?s)"
    by (simp_all add: life_inv_def Healthy_def t(3) passed_since_login_def session_alive_def)
  with sample_released [OF no_auth_raw(2), of "cl ?s"] reach show ?thesis
    by (intro exI [of _ ?s]) (simp add: t(3))
qed

end
