(* ===== verification/Config.thy ===== *)
theory Config
  imports GoTime
begin

text \<open>
  Package \<open>internal/config\<close>: the configuration of the program from environment variables, with
  the \<open>_FILE\<close> variants of the secrets. The environment and the file system are the arguments
  the code is given; PEM and PKIX parsing, which the code takes from the standard library's
  crypto packages, are parameters.
\<close>

section \<open>Data\<close>

record config =
  ListenAddr :: string
  VaultAddr :: string
  TokenRole :: string
  KVMount :: string
  KVPrefix :: string
  PolicyPrefix :: string
  AdvertiseVaultAddr :: string
  LogLevel :: string
  WoodpeckerPublicKey :: string
  VaultRoleID :: string
  VaultSecretID :: string
  FreshnessWindow :: duration

text \<open>Every error, with the variable its text names.\<close>

datatype config_error =
    Required string
  | BothSet string string
  | Unreadable string string          \<comment> \<open>the \<open>_FILE\<close> variable and the error of the read\<close>
  | NotPEM string
  | NotPKIX string string
  | NotEd25519 string
  | BadWindow string duration_error

fun config_error_var :: "config_error \<Rightarrow> string" where
  "config_error_var (Required v) = v"
| "config_error_var (BothSet v _) = v"
| "config_error_var (Unreadable v _) = v"
| "config_error_var (NotPEM v) = v"
| "config_error_var (NotPKIX v _) = v"
| "config_error_var (NotEd25519 v) = v"
| "config_error_var (BadWindow v _) = v"

text \<open>A public key of \<open>crypto/x509\<close>: an ed25519 key or one of another kind.\<close>

datatype public_key = Ed25519Key string | OtherKey

text \<open>The environment (unset variables read as the empty string), the file system (an error text, or
  the bytes of a file), and the parsers of the crypto packages.\<close>

record sys =
  sys_getenv :: "string \<Rightarrow> string"
  sys_readFile :: "string \<Rightarrow> string + string"
  sys_pemDecode :: "string \<Rightarrow> string option"
  sys_parsePKIX :: "string \<Rightarrow> string + public_key"

section \<open>Operations\<close>

definition withDefault :: "sys \<Rightarrow> string \<Rightarrow> string \<Rightarrow> string" where
  "withDefault sys name def = (if sys_getenv sys name \<noteq> [] then sys_getenv sys name else def)"

definition required :: "sys \<Rightarrow> string \<Rightarrow> config_error + string" where
  "required sys name = (if sys_getenv sys name = [] then Inl (Required name) else Inr (sys_getenv sys name))"

definition requiredSecret :: "sys \<Rightarrow> string \<Rightarrow> config_error + string" where
  "requiredSecret sys name =
     (let fileName = name @ ''_FILE''; val = sys_getenv sys name; path = sys_getenv sys fileName in
      if val \<noteq> [] \<and> path \<noteq> [] then Inl (BothSet name fileName)
      else if path \<noteq> [] then
        (case sys_readFile sys path of
           Inl err \<Rightarrow> Inl (Unreadable fileName err)
         | Inr b \<Rightarrow> (if trim_space b \<noteq> [] then Inr (trim_space b) else Inl (Required name)))
      else if val \<noteq> [] then
        (if trim_space val \<noteq> [] then Inr (trim_space val) else Inl (Required name))
      else Inl (Required name))"

definition publicKeyVar :: string where
  "publicKeyVar = ''IRONBARK_WOODPECKER_PUBLIC_KEY''"

definition parseEd25519PublicKey :: "sys \<Rightarrow> string \<Rightarrow> config_error + string" where
  "parseEd25519PublicKey sys pemStr =
     (case sys_pemDecode sys pemStr of
        None \<Rightarrow> Inl (NotPEM publicKeyVar)
      | Some block \<Rightarrow>
          (case sys_parsePKIX sys block of
             Inl err \<Rightarrow> Inl (NotPKIX publicKeyVar err)
           | Inr (Ed25519Key k) \<Rightarrow> Inr k
           | Inr OtherKey \<Rightarrow> Inl (NotEd25519 publicKeyVar)))"

definition Load :: "sys \<Rightarrow> config_error + config" where
  "Load sys =
     (case requiredSecret sys publicKeyVar of Inl e \<Rightarrow> Inl e | Inr pubKeyPEM \<Rightarrow>
     (case parseEd25519PublicKey sys pubKeyPEM of Inl e \<Rightarrow> Inl e | Inr key \<Rightarrow>
     (case required sys ''IRONBARK_VAULT_ADDR'' of Inl e \<Rightarrow> Inl e | Inr addr \<Rightarrow>
     (case requiredSecret sys ''IRONBARK_VAULT_ROLE_ID'' of Inl e \<Rightarrow> Inl e | Inr roleID \<Rightarrow>
     (case requiredSecret sys ''IRONBARK_VAULT_SECRET_ID'' of Inl e \<Rightarrow> Inl e | Inr secretID \<Rightarrow>
     (case ParseDuration (withDefault sys ''IRONBARK_FRESHNESS_WINDOW'' ''10s'') of
        Inl e \<Rightarrow> Inl (BadWindow ''IRONBARK_FRESHNESS_WINDOW'' e)
      | Inr window \<Rightarrow>
          Inr \<lparr>ListenAddr = withDefault sys ''IRONBARK_LISTEN_ADDR'' '':8080'',
               VaultAddr = addr,
               TokenRole = withDefault sys ''IRONBARK_TOKEN_ROLE'' ''ci'',
               KVMount = withDefault sys ''IRONBARK_KV_MOUNT'' ''kv'',
               KVPrefix = withDefault sys ''IRONBARK_KV_PREFIX'' ''ci'',
               PolicyPrefix = withDefault sys ''IRONBARK_POLICY_PREFIX'' ''ci'',
               AdvertiseVaultAddr = sys_getenv sys ''IRONBARK_ADVERTISE_VAULT_ADDR'',
               LogLevel = withDefault sys ''IRONBARK_LOG_LEVEL'' ''info'',
               WoodpeckerPublicKey = key, VaultRoleID = roleID, VaultSecretID = secretID,
               FreshnessWindow = window\<rparr>))))))"

section \<open>Lemmas\<close>

text \<open>Where a secret comes from: exactly one of the variable and its file variant.\<close>

definition secret_source :: "sys \<Rightarrow> string \<Rightarrow> string option" where
  "secret_source sys name =
     (if sys_getenv sys (name @ ''_FILE'') = [] then
        (if sys_getenv sys name = [] then None else Some (sys_getenv sys name))
      else if sys_getenv sys name \<noteq> [] then None
      else (case sys_readFile sys (sys_getenv sys (name @ ''_FILE'')) of Inl _ \<Rightarrow> None | Inr b \<Rightarrow> Some b))"

lemma requiredSecret_Inr:
  "requiredSecret sys name = Inr v \<longleftrightarrow> v \<noteq> [] \<and> map_option trim_space (secret_source sys name) = Some v"
  by (auto simp: requiredSecret_def secret_source_def Let_def split: sum.split)

lemma requiredSecret_Inl:
  "requiredSecret sys name = Inl e \<Longrightarrow> config_error_var e \<in> {name, name @ ''_FILE''}"
  by (auto simp: requiredSecret_def Let_def split: sum.splits if_splits)

lemma parseEd25519PublicKey_Inr:
  "parseEd25519PublicKey sys pem = Inr k \<longleftrightarrow>
     (\<exists>block. sys_pemDecode sys pem = Some block \<and> sys_parsePKIX sys block = Inr (Ed25519Key k))"
  by (auto simp: parseEd25519PublicKey_def split: option.splits sum.splits public_key.splits)

lemma parseEd25519PublicKey_Inl: "parseEd25519PublicKey sys pem = Inl e \<Longrightarrow> config_error_var e = publicKeyVar"
  by (auto simp: parseEd25519PublicKey_def split: option.splits sum.splits public_key.splits)

lemma required_iff:
  "required sys name = Inr v \<longleftrightarrow> v = sys_getenv sys name \<and> v \<noteq> []"
  "required sys name = Inl e \<longleftrightarrow> sys_getenv sys name = [] \<and> e = Required name"
  by (auto simp: required_def)

text \<open>The secrets \<open>Load\<close> needs, and the variables an error may name.\<close>

definition secret_vars :: "string list" where
  "secret_vars = [publicKeyVar, ''IRONBARK_VAULT_ROLE_ID'', ''IRONBARK_VAULT_SECRET_ID'']"

definition checked_vars :: "string list" where
  "checked_vars = secret_vars @ map (\<lambda>v. v @ ''_FILE'') secret_vars
     @ [''IRONBARK_VAULT_ADDR'', ''IRONBARK_FRESHNESS_WINDOW'']"

lemmas config_checks =
  requiredSecret_Inr requiredSecret_Inl parseEd25519PublicKey_Inr parseEd25519PublicKey_Inl required_iff

lemma Load_Inl_var:
  assumes "Load sys = Inl e"
  shows "config_error_var e \<in> set checked_vars"
proof -
  from assms consider
      "\<exists>v \<in> set secret_vars. requiredSecret sys v = Inl e"
    | "\<exists>pem. parseEd25519PublicKey sys pem = Inl e"
    | "required sys ''IRONBARK_VAULT_ADDR'' = Inl e"
    | "\<exists>d. e = BadWindow ''IRONBARK_FRESHNESS_WINDOW'' d"
    by (auto simp: Load_def secret_vars_def split: sum.splits)
  then show ?thesis
  proof cases
    case 1
    then show ?thesis using requiredSecret_Inl by (fastforce simp: checked_vars_def)
  next
    case 2
    then show ?thesis using parseEd25519PublicKey_Inl by (auto simp: checked_vars_def secret_vars_def)
  qed (auto simp: checked_vars_def required_iff)
qed

text \<open>A configured system: an environment given as a table, one file, and a parser of one key.\<close>

definition sample_environ :: "(string \<times> string) list" where
  "sample_environ =
     [(publicKeyVar @ ''_FILE'', ''/etc/key''), (''IRONBARK_VAULT_ADDR'', ''http://v''),
      (''IRONBARK_VAULT_ROLE_ID'', '' role''), (''IRONBARK_VAULT_SECRET_ID'', ''sec''),
      (''IRONBARK_LOG_LEVEL'', ''WARN''),
      (''IRONBARK_FRESHNESS_WINDOW'', ''30s'')]"

definition sample_sys :: "(string \<times> string) list \<Rightarrow> sys" where
  "sample_sys env =
     \<lparr>sys_getenv = (\<lambda>n. case map_of env n of Some v \<Rightarrow> v | None \<Rightarrow> []),
      sys_readFile = (\<lambda>p. if p = ''/etc/key'' then Inr ''PEM '' else Inl ''no such file''),
      sys_pemDecode = Some, sys_parsePKIX = (\<lambda>b. Inr (Ed25519Key b))\<rparr>"

lemma sample_window: "''30s'' = nat_digits 30 @ ''s''"
  by code_simp

lemma sample_Load:
  "Load (sample_sys sample_environ) = Inr \<lparr>ListenAddr = '':8080'', VaultAddr = ''http://v'', TokenRole = ''ci'', KVMount = ''kv'',
     KVPrefix = ''ci'', PolicyPrefix = ''ci'', AdvertiseVaultAddr = [], LogLevel = ''WARN'',
     WoodpeckerPublicKey = ''PEM'', VaultRoleID = ''role'', VaultSecretID = ''sec'', FreshnessWindow = 30000000000\<rparr>"
proof -
  have t: "trim_space ''PEM '' = ''PEM''" "trim_space '' role'' = ''role''" "trim_space ''sec'' = ''sec''"
    by (simp_all add: trim_space_def chunks_ascii_Cons is_space_rune_def)
  have w: "ParseDuration ''30s'' = Inr 30000000000"
    unfolding sample_window ParseDuration_seconds by simp
  show ?thesis
    by (simp add: Load_def requiredSecret_def required_def parseEd25519PublicKey_def withDefault_def sample_sys_def
        sample_environ_def publicKeyVar_def Let_def t w)
qed

section \<open>Properties\<close>

text \<open>C39. When the program starts. \<open>Load\<close> succeeds exactly when the public key, the role id and the secret id each
  come from exactly one of their variable and its \<open>_FILE\<close> variant, are not blank, the Vault address is set, the
  key is a PEM block of an ed25519 key, and the freshness window (10s unless set) parses; the
  configuration then holds the trimmed secrets, and every other setting or its default.\<close>

theorem Load_accepts_iff:
  "Load sys = Inr cfg \<longleftrightarrow>
     (\<exists>pem block. map_option trim_space (secret_source sys publicKeyVar) = Some pem \<and> pem \<noteq> [] \<and>
        sys_pemDecode sys pem = Some block \<and> sys_parsePKIX sys block = Inr (Ed25519Key (WoodpeckerPublicKey cfg))) \<and>
     VaultAddr cfg = sys_getenv sys ''IRONBARK_VAULT_ADDR'' \<and> VaultAddr cfg \<noteq> [] \<and>
     map_option trim_space (secret_source sys ''IRONBARK_VAULT_ROLE_ID'') = Some (VaultRoleID cfg) \<and> VaultRoleID cfg \<noteq> [] \<and>
     map_option trim_space (secret_source sys ''IRONBARK_VAULT_SECRET_ID'') = Some (VaultSecretID cfg) \<and> VaultSecretID cfg \<noteq> [] \<and>
     ParseDuration (withDefault sys ''IRONBARK_FRESHNESS_WINDOW'' ''10s'') = Inr (FreshnessWindow cfg) \<and>
     ListenAddr cfg = withDefault sys ''IRONBARK_LISTEN_ADDR'' '':8080'' \<and>
     TokenRole cfg = withDefault sys ''IRONBARK_TOKEN_ROLE'' ''ci'' \<and>
     KVMount cfg = withDefault sys ''IRONBARK_KV_MOUNT'' ''kv'' \<and>
     KVPrefix cfg = withDefault sys ''IRONBARK_KV_PREFIX'' ''ci'' \<and>
     PolicyPrefix cfg = withDefault sys ''IRONBARK_POLICY_PREFIX'' ''ci'' \<and>
     AdvertiseVaultAddr cfg = sys_getenv sys ''IRONBARK_ADVERTISE_VAULT_ADDR'' \<and>
     LogLevel cfg = withDefault sys ''IRONBARK_LOG_LEVEL'' ''info''"
  (is "?L \<longleftrightarrow> ?R")
proof
  assume ?L
  then show ?R by (auto simp: Load_def config_checks split: sum.splits)
next
  assume r: ?R
  then obtain pem block where p: "map_option trim_space (secret_source sys publicKeyVar) = Some pem" "pem \<noteq> []"
    "sys_pemDecode sys pem = Some block" "sys_parsePKIX sys block = Inr (Ed25519Key (WoodpeckerPublicKey cfg))" by blast
  then have "requiredSecret sys publicKeyVar = Inr pem"
    "parseEd25519PublicKey sys pem = Inr (WoodpeckerPublicKey cfg)"
    by (simp_all add: requiredSecret_Inr parseEd25519PublicKey_Inr)
  moreover have "required sys ''IRONBARK_VAULT_ADDR'' = Inr (VaultAddr cfg)"
    "requiredSecret sys ''IRONBARK_VAULT_ROLE_ID'' = Inr (VaultRoleID cfg)"
    "requiredSecret sys ''IRONBARK_VAULT_SECRET_ID'' = Inr (VaultSecretID cfg)"
    using r by (auto simp: requiredSecret_Inr required_iff)
  ultimately show ?L using r by (simp add: Load_def)
qed

text \<open>A refused configuration is reported by variable: an error of \<open>Load\<close> names one of the three secrets, a
  \<open>_FILE\<close> variant of one, the Vault address or the freshness window, and a variable that is set
  together with its \<open>_FILE\<close> variant is always an error.\<close>

theorem Load_errors:
  "(case Load sys of Inl e \<Rightarrow> config_error_var e \<in> set checked_vars
    | Inr cfg \<Rightarrow> list_all (\<lambda>v. \<not> (sys_getenv sys v \<noteq> [] \<and> sys_getenv sys (v @ ''_FILE'') \<noteq> [])) secret_vars)"
proof (cases "Load sys")
  case (Inl e)
  then show ?thesis by (simp add: Load_Inl_var)
next
  case (Inr cfg)
  have one: "\<not> (sys_getenv sys v \<noteq> [] \<and> sys_getenv sys (v @ ''_FILE'') \<noteq> [])"
    if "requiredSecret sys v = Inr x" for v x
    using that by (auto simp: requiredSecret_def Let_def split: if_splits)
  show ?thesis
    using Inr one [of publicKeyVar] one [of "''IRONBARK_VAULT_ROLE_ID''"] one [of "''IRONBARK_VAULT_SECRET_ID''"]
    by (auto simp: Load_def secret_vars_def split: sum.splits)
qed

text \<open>A freshness window in seconds is taken exactly or refused: if the variable is the decimal number \<open>n\<close>
  followed by an \<open>s\<close>, a configuration that loads has a window of \<open>n\<close> seconds, and \<open>n\<close> is at most
  9223372036, so the window is never negative or wrapped.\<close>

theorem Load_window:
  assumes "Load sys = Inr cfg" and "sys_getenv sys ''IRONBARK_FRESHNESS_WINDOW'' = nat_digits n @ ''s''"
  shows "n \<le> 9223372036 \<and> sint (FreshnessWindow cfg) = int n * 1000000000"
proof -
  have "ParseDuration (nat_digits n @ ''s'') = Inr (FreshnessWindow cfg)"
    using assms by (auto simp: Load_def withDefault_def split: sum.splits)
  then have "n \<le> 9223372036" "FreshnessWindow cfg = word_of_int (int n * 1000000000)"
    by (auto simp: ParseDuration_seconds split: if_splits)
  then show ?thesis using sint_of_int64 [of "int n * 1000000000"] by simp
qed

theorem Load_window_witness:
  "\<exists>cfg. Load (sample_sys sample_environ) = Inr cfg \<and> sint (FreshnessWindow cfg) = 30000000000"
proof -
  obtain cfg where "Load (sample_sys sample_environ) = Inr cfg" using sample_Load by blast
  with Load_window [OF this, of 30] show ?thesis
    by (simp add: sample_sys_def sample_environ_def publicKeyVar_def sample_window [symmetric])
qed

end
