(* ===== verification/Program.thy ===== *)
theory Program
  imports HttpProps Lifecycle Interleave Config
begin

text \<open>
  \<open>cmd/ironbark/main.go\<close>: the start-up of the program from its configuration, the wiring of the
  components, and the program as a whole: the session lifecycle and the HTTP server on one
  Vault client, as a step relation whose served requests are recorded.
\<close>

section \<open>Start-up\<close>

definition requestTimeout :: duration where
  "requestTimeout = 30 * second"

definition shutdownDrain :: duration where
  "shutdownDrain = 5 * second"

definition parseLogLevel :: "(nat \<Rightarrow> nat) \<Rightarrow> string \<Rightarrow> log_level" where
  "parseLogLevel ul s =
     (let l = to_lower ul s in
      if l = ''debug'' then LevelDebug
      else if l = ''warn'' \<or> l = ''warning'' then LevelWarn
      else if l = ''error'' then LevelError
      else LevelInfo)"

text \<open>The wiring: the Vault client's configuration, the broker and the server.\<close>

definition vault_config :: "config \<Rightarrow> vx_config" where
  "vault_config conf =
     \<lparr>cfg_Addr = VaultAddr conf, cfg_RoleID = VaultRoleID conf, cfg_SecretID = VaultSecretID conf,
      cfg_TokenRole = TokenRole conf, cfg_KVMount = KVMount conf, cfg_KVPrefix = KVPrefix conf\<rparr>"

definition wire_broker :: "'s vault \<Rightarrow> config \<Rightarrow> 's broker" where
  "wire_broker vc conf = New_broker vc (PolicyPrefix conf) (AdvertiseVaultAddr conf)"

definition wire_server ::
  "'s vault \<Rightarrow> ('s \<Rightarrow> bool) \<Rightarrow> ('s \<Rightarrow> metric list) \<Rightarrow> (nat \<Rightarrow> nat) \<Rightarrow> 'v sig_lib \<Rightarrow> ((string \<times> collector) list \<Rightarrow> response)
   \<Rightarrow> (route \<Rightarrow> string option \<times> string) \<Rightarrow> config \<Rightarrow> ('s, 'v) server" where
  "wire_server vc healthy increments ul sl prom mux conf =
     New_server (Handle (wire_broker vc conf)) (Some healthy) (WoodpeckerPublicKey conf) (FreshnessWindow conf)
       requestTimeout (parseLogLevel ul (LogLevel conf)) sl ul increments prom mux"

definition wire_client :: "'w \<Rightarrow> 'w client" where
  "wire_client w = SetMetrics (New False w)"

text \<open>\<open>main\<close> up to the point where it serves: an exit with a status and what was logged, or the
  running program. The error of the Vault client's constructor is an outside choice.\<close>

datatype start = ExitConfig config_error | ExitClient "log_record list" | Serving config "log_record list"

definition main_start :: "(nat \<Rightarrow> nat) \<Rightarrow> string \<Rightarrow> sys \<Rightarrow> string option \<Rightarrow> start" where
  "main_start ul version sys clientError =
     (case Load sys of
        Inl e \<Rightarrow> ExitConfig e
      | Inr conf \<Rightarrow>
          (let level = parseLogLevel ul (LogLevel conf);
               started = slog level LevelInfo ''ironbark starting'' [(''version'', LStr version)] in
           case clientError of
             Some err \<Rightarrow> ExitClient (started @ slog level LevelError ''vaultx client init failed'' [(''error'', LStr err)])
           | None \<Rightarrow> Serving conf started))"

text \<open>The record of the listener's goroutine, and what is logged on the way out: the select between the signal and
  the end of the server, then the outcome of the graceful shutdown.\<close>

definition main_listening :: "log_level \<Rightarrow> config \<Rightarrow> log_record list" where
  "main_listening level conf = slog level LevelInfo ''ironbark listening'' [(''addr'', LStr (ListenAddr conf))]"

text \<open>What \<open>ListenAndServe\<close> returns, what the goroutine then sends to \<open>main\<close>, and what \<open>main\<close> waits for.\<close>

datatype listen_result = ListenNil | ListenClosed | ListenErr string

fun serve_err :: "listen_result \<Rightarrow> string option" where
  "serve_err (ListenErr err) = Some err"
| "serve_err ListenClosed = None"
| "serve_err ListenNil = None"

datatype stop_cause = Signalled | ServeDone listen_result

text \<open>\<open>Shutdown\<close> is the outcome of the graceful shutdown, by the time it is given.\<close>

definition main_stop :: "log_level \<Rightarrow> stop_cause \<Rightarrow> (duration \<Rightarrow> string option) \<Rightarrow> log_record list" where
  "main_stop level cause Shutdown =
     (case cause of
        Signalled \<Rightarrow> slog level LevelInfo ''shutting down'' [(''signal'', LBool True)]
      | ServeDone r \<Rightarrow>
          (case serve_err r of
             Some err \<Rightarrow> slog level LevelError ''http server error'' [(''error'', LStr err)]
           | None \<Rightarrow> []))
     @ (case Shutdown shutdownDrain of
          Some err \<Rightarrow> slog level LevelError ''graceful shutdown failed'' [(''error'', LStr err)]
        | None \<Rightarrow> [])"

text \<open>\<open>main\<close> from start to exit: the exit status and what it logs itself, apart from the goroutines it starts. It returns, with
  status 0, whatever ended the server.\<close>

definition main :: "(nat \<Rightarrow> nat) \<Rightarrow> string \<Rightarrow> sys \<Rightarrow> string option \<Rightarrow> stop_cause \<Rightarrow> (duration \<Rightarrow> string option) \<Rightarrow> nat \<times> log_record list" where
  "main ul version sys clientError cause Shutdown =
     (case main_start ul version sys clientError of
        ExitConfig _ \<Rightarrow> (1, [])
      | ExitClient records \<Rightarrow> (1, records)
      | Serving conf records \<Rightarrow> (0, records @ main_stop (parseLogLevel ul (LogLevel conf)) cause Shutdown))"

text \<open>The exit status tells a refused configuration or client from all else; in particular a listener that fails, say on an
  address in use, ends the program with status 0, after an error record.\<close>

lemma main_status:
  "fst (main ul version sys clientError cause Shutdown) =
     (if (\<exists>e. Load sys = Inl e) \<or> clientError \<noteq> None then 1 else 0)"
  by (auto simp: main_def main_start_def Let_def split: sum.split option.split)

section \<open>The running program\<close>

text \<open>The server of the program: on a client whose session other goroutines change while a request is served.\<close>

definition program_server ::
  "'w lib \<Rightarrow> 'v sig_lib \<Rightarrow> ((string \<times> collector) list \<Rightarrow> response) \<Rightarrow> (route \<Rightarrow> string option \<times> string) \<Rightarrow> config
   \<Rightarrow> ('w shared, 'v) server" where
  "program_server lib sl prom mux conf =
     wire_server (shared_vault lib (vault_config conf)) (\<lambda>s. Healthy (cl (sh_life s)))
       (\<lambda>s. metric_calls (cl (sh_life s))) (lib_lower lib) sl prom mux conf"

text \<open>A served request with its outside choices, its response, and the history of the session at the moment
  it would ask for the canary.\<close>

record served =
  sd_request :: http_request
  sd_env :: request_env
  sd_response :: response
  sd_history :: "event list"

record 'w program =
  p_life :: "'w lifecycle"
  p_metrics :: metrics
  p_log :: "log_record list"
  p_served :: "served list"

definition http_view :: "('w lifecycle \<Rightarrow> 'w lifecycle) list \<Rightarrow> 'w program \<Rightarrow> 'w shared http_state" where
  "http_view es p =
     \<lparr>backend = \<lparr>sh_life = p_life p, sh_env = es, sh_own = []\<rparr>, metrics_of = p_metrics p, log_records = p_log p\<rparr>"

definition serve ::
  "('w shared, 'v) server \<Rightarrow> http_request \<Rightarrow> request_env \<Rightarrow> ('w lifecycle \<Rightarrow> 'w lifecycle) list \<Rightarrow> 'w program \<Rightarrow> 'w program" where
  "serve sv r env es p =
     (let (resp, st) = run_state (ServeHTTP sv r env) (http_view es p) in
      p\<lparr>p_life := sh_life (backend st), p_metrics := metrics_of st, p_log := log_records st,
        p_served := p_served p @ [\<lparr>sd_request = r, sd_env = env, sd_response = resp,
          sd_history = history (at_check (backend (http_view es p)))\<rparr>]\<rparr>)"

definition start_program :: "'w \<Rightarrow> log_record list \<Rightarrow> 'w program" where
  "start_program w started =
     \<lparr>p_life = initial (wire_client w), p_metrics = newMetrics, p_log = started, p_served = []\<rparr>"

text \<open>A step of the lifecycle, or a request between whose operations the others take steps of their own.\<close>

inductive prog_step :: "'w lib \<Rightarrow> ('w shared, 'v) server \<Rightarrow> config \<Rightarrow> 'w program \<Rightarrow> 'w program \<Rightarrow> bool"
  for lib :: "'w lib" and sv :: "('w shared, 'v) server" and conf :: config where
  session_step:
    "step lib (vault_config conf) (PolicyPrefix conf) (p_life p) s \<Longrightarrow> prog_step lib sv conf p (p\<lparr>p_life := s\<rparr>)"
| serve_step:
    "obeys lib (vault_config conf) (PolicyPrefix conf) es \<Longrightarrow> prog_step lib sv conf p (serve sv r env es p)"

inductive_cases prog_stepE: "prog_step lib sv conf p q"

definition runs_to :: "'w lib \<Rightarrow> ('w shared, 'v) server \<Rightarrow> config \<Rightarrow> 'w program \<Rightarrow> bool" where
  "runs_to lib sv conf p \<longleftrightarrow> (\<exists>w started. (prog_step lib sv conf)\<^sup>*\<^sup>* (start_program w started) p)"

section \<open>Lemmas\<close>

lemma wire_client_New: "wire_client w = New True w"
  by (simp add: wire_client_def SetMetrics_def New_def)

lemma wire_broker_eq:
  "wire_broker (shared_vault lib (vault_config conf)) conf =
     shared_broker lib (vault_config conf) (PolicyPrefix conf) (AdvertiseVaultAddr conf)"
  by (simp add: wire_broker_def shared_broker_def)

lemma program_server_simps [simp]:
  "sv_handler (program_server lib sl prom mux conf) =
     Handle (shared_broker lib (vault_config conf) (PolicyPrefix conf) (AdvertiseVaultAddr conf))"
  "sv_ready (program_server lib sl prom mux conf) = Some (\<lambda>s. Healthy (cl (sh_life s)))"
  "sv_pubKey (program_server lib sl prom mux conf) = WoodpeckerPublicKey conf"
  "sv_freshnessWindow (program_server lib sl prom mux conf) = FreshnessWindow conf"
  "sv_sig (program_server lib sl prom mux conf) = sl" "sv_lower (program_server lib sl prom mux conf) = lib_lower lib"
  "sv_level (program_server lib sl prom mux conf) = parseLogLevel (lib_lower lib) (LogLevel conf)"
  by (simp_all add: program_server_def wire_server_def New_server_def wire_broker_eq)

lemma http_view_simps [simp]:
  "backend (http_view es p) = \<lparr>sh_life = p_life p, sh_env = es, sh_own = []\<rparr>"
  by (simp add: http_view_def)

lemma handlePost_cases:
  obtains (refused) "\<And>ident. \<not> accepted sv r env ident"
      "backend (snd (run_state (handlePost sv r env) st)) = backend st"
      "rs_Status (fst (run_state (handlePost sv r env) st)) \<in> {400, 401, 413}"
  | (accepted) ident where "accepted sv r env ident"
      "backend (snd (run_state (handlePost sv r env) st)) = snd (run_state (sv_handler sv RequestCtx ident) (backend st))"
      "fst (run_state (handlePost sv r env) st) =
         rendered env (raced env (fst (run_state (sv_handler sv RequestCtx ident) (backend st))))"
proof (cases "\<exists>ident. accepted sv r env ident")
  case True
  then obtain ident where "accepted sv r env ident" ..
  with accepted [OF this] run_accepted [OF this, of st] show ?thesis by (simp add: Let_def split_beta)
next
  case False
  obtain resp st' where run: "run_state (handlePost sv r env) st = (resp, st')" by fastforce
  from False refused run_refused [OF _ run] show ?thesis by (simp add: run)
qed

text \<open>To serve a request is to let the lifecycle take steps.\<close>

lemma ServeHTTP_in_steps:
  "in_steps lib (vault_config conf) (PolicyPrefix conf) (backend st)
     (backend (snd (run_state (ServeHTTP (program_server lib sl prom mux conf) r env) st)))"
proof -
  let ?sv = "program_server lib sl prom mux conf"
  let ?R = "in_steps lib (vault_config conf) (PolicyPrefix conf)"
  have refl: "?R s s" for s by (simp add: in_steps_def)
  have "?R (backend st) (backend (snd (run_state (handlePost ?sv r env) st)))"
  proof (rule handlePost_cases [of ?sv r env st])
    fix ident assume "backend (snd (run_state (handlePost ?sv r env) st)) =
        snd (run_state (sv_handler ?sv RequestCtx ident) (backend st))"
    moreover have "state_io_rel ?R (sv_handler ?sv RequestCtx ident)"
      using kept.Handle_keeps [OF shared_broker_simps(1)] by simp
    ultimately show ?thesis by (simp add: state_io_rel_def)
  qed (simp add: refl)
  then show ?thesis
    by (simp add: ServeHTTP_def handleHealthz_def handleReadyz_def handleMetrics_def refl split: route.split)
qed

lemma serve_steps:
  assumes "obeys lib (vault_config conf) (PolicyPrefix conf) es"
  shows "(step lib (vault_config conf) (PolicyPrefix conf))\<^sup>*\<^sup>* (p_life p) (p_life (serve (program_server lib sl prom mux conf) r env es p))"
  using ServeHTTP_in_steps [of lib conf "http_view es p" sl prom mux r env] assms
  by (simp add: serve_def in_steps_def split_beta Let_def)

lemma runs_reachable:
  assumes "runs_to lib (program_server lib sl prom mux conf) conf p"
  shows "reachable lib (vault_config conf) (PolicyPrefix conf) (p_life p)"
proof -
  let ?step = "step lib (vault_config conf) (PolicyPrefix conf)"
  from assms obtain w started where
    "(prog_step lib (program_server lib sl prom mux conf) conf)\<^sup>*\<^sup>* (start_program w started) p" by (auto simp: runs_to_def)
  then show ?thesis
  proof (induction rule: rtranclp_induct)
    case base
    show ?case by (auto simp: start_program_def wire_client_New reachable_def)
  next
    case (step p q)
    have "?step\<^sup>*\<^sup>* (p_life p) (p_life q)"
      using step.hyps(2) by cases (auto intro: serve_steps)
    with step.IH show ?case unfolding reachable_def by (meson rtranclp_trans)
  qed
qed

text \<open>Which recorded responses released secrets, and when that is sound.\<close>

definition released :: "served \<Rightarrow> bool" where
  "released e \<longleftrightarrow> route_of (hr_Method (sd_request e)) (hr_Path (sd_request e)) = RPost \<and> rs_Status (sd_response e) = 200"

definition sound :: "'v sig_lib \<Rightarrow> (nat \<Rightarrow> nat) \<Rightarrow> config \<Rightarrow> served \<Rightarrow> bool" where
  "sound sl ul conf e \<longleftrightarrow> passed_since_login (sd_history e) \<and>
     (\<exists>created ident. vouched sl (sd_request e) (env_body (sd_env e)) (WoodpeckerPublicKey conf) created \<and>
        \<not> stale (FreshnessWindow conf) (time_Sub (env_now (sd_env e)) created) \<and>
        Parse ul (env_body (sd_env e)) = Inr ident \<and> \<not> env_timedOut (sd_env e))"

lemma serve_sound:
  assumes "reachable lib (vault_config conf) (PolicyPrefix conf) (at_check (backend st))"
    and "route_of (hr_Method r) (hr_Path r) = RPost"
    and "rs_Status (fst (run_state (ServeHTTP (program_server lib sl prom mux conf) r env) st)) = 200"
  shows "sound sl (lib_lower lib) conf
    \<lparr>sd_request = r, sd_env = env, sd_response = resp, sd_history = history (at_check (backend st))\<rparr>"
proof -
  let ?sv = "program_server lib sl prom mux conf"
  have ok: "rs_Status (fst (run_state (handlePost ?sv r env) st)) = 200" using assms(2,3) by (simp add: ServeHTTP_def)
  show ?thesis
  proof (rule handlePost_cases [of ?sv r env st])
    assume "rs_Status (fst (run_state (handlePost ?sv r env) st)) \<in> {400, 401, 413}"
    with ok show ?thesis by auto
  next
    fix ident assume acc: "accepted ?sv r env ident"
      and fst: "fst (run_state (handlePost ?sv r env) st) =
         rendered env (raced env (fst (run_state (sv_handler ?sv RequestCtx ident) (backend st))))"
    let ?b = "shared_broker lib (vault_config conf) (PolicyPrefix conf) (AdvertiseVaultAddr conf)"
    obtain res s where run: "run_state (Handle ?b RequestCtx ident) (backend st) = (res, s)" by fastforce
    have "r_Status (raced env res) = 200" using ok fst by (simp add: run rendered_status split: if_splits)
    then have "\<not> env_timedOut env" "canaryOK (cl (at_check (backend st)))"
      using shared.Handle_up [OF shared_broker_simps(1) run] by (auto simp: raced_def timeout_result_def split: if_splits)
    moreover have "passed_since_login (history (at_check (backend st)))"
      using reachable_inv [OF assms(1)] calculation(2) by (simp add: life_inv_def)
    ultimately show ?thesis using acc by (auto simp: sound_def accepted_def Verify_None_iff)
  qed
qed

lemma runs_sound:
  assumes "runs_to lib (program_server lib sl prom mux conf) conf p"
  shows "list_all (sound sl (lib_lower lib) conf) (filter released (p_served p))"
proof -
  let ?sv = "program_server lib sl prom mux conf"
  from assms obtain w started where "(prog_step lib ?sv conf)\<^sup>*\<^sup>* (start_program w started) p" by (auto simp: runs_to_def)
  then show ?thesis
  proof (induction rule: rtranclp_induct)
    case base
    show ?case by (simp add: start_program_def)
  next
    case (step p q)
    have "runs_to lib ?sv conf p" using step.hyps(1) by (auto simp: runs_to_def)
    note reach = runs_reachable [OF this]
    from step.hyps(2) show ?case
    proof cases
      case (session_step s)
      with step.IH show ?thesis by simp
    next
      case (serve_step es r env)
      obtain resp st where run: "run_state (ServeHTTP ?sv r env) (http_view es p) = (resp, st)" by fastforce
      let ?e = "\<lparr>sd_request = r, sd_env = env, sd_response = resp, sd_history = history (at_check (backend (http_view es p)))\<rparr>"
      have "reachable lib (vault_config conf) (PolicyPrefix conf) (at_check (backend (http_view es p)))"
        using in_steps_reachable [OF others_in_steps, of lib "vault_config conf" "PolicyPrefix conf" "backend (http_view es p)"]
          serve_step(2) reach by (simp add: at_check_def)
      then have "sound sl (lib_lower lib) conf ?e" if "released ?e"
        using that by (intro serve_sound [where prom = prom and mux = mux]) (simp_all add: released_def run)
      with step.IH show ?thesis by (simp add: serve_step serve_def run Let_def del: http_view_simps)
    qed
  qed
qed

section \<open>Accounting\<close>

text \<open>The POSTs of a run whose body could be read, and how many of them were answered with which statuses.\<close>

definition readable :: "served \<Rightarrow> bool" where
  "readable e \<longleftrightarrow> route_of (hr_Method (sd_request e)) (hr_Path (sd_request e)) = RPost \<and>
     length (env_body (sd_env e)) \<le> maxBodyBytes \<and> \<not> env_bodyError (sd_env e)"

definition replied :: "nat set \<Rightarrow> 'w program \<Rightarrow> nat" where
  "replied S p = length (filter (\<lambda>e. readable e \<and> rs_Status (sd_response e) \<in> S) (p_served p))"

definition at_info :: "log_record list \<Rightarrow> nat" where
  "at_info xs = length (filter (\<lambda>x. lr_Level x = LevelInfo) xs)"

lemma at_info_simps [simp]: "at_info [] = 0" "at_info (xs @ ys) = at_info xs + at_info ys"
  by (simp_all add: at_info_def)

lemma serve_accounting:
  assumes sv: "sv_handler sv = Handle b"
  obtains (unread) "p_metrics (serve sv r env es p) = p_metrics p" "p_log (serve sv r env es p) = p_log p"
      "\<And>S. replied S (serve sv r env es p) = replied S p"
  | (read) l n new where "(l, n) \<in> label_statuses"
      "requestsTotal (p_metrics (serve sv r env es p)) = inc_label l (requestsTotal (p_metrics p))"
      "\<And>S. replied S (serve sv r env es p) = replied S p + (if n \<in> S then 1 else 0)"
      "p_log (serve sv r env es p) = p_log p @ new" "at_info new = (if sv_level sv \<le> LevelInfo then 1 else 0)"
proof -
  obtain resp st where run: "run_state (ServeHTTP sv r env) (http_view es p) = (resp, st)" by fastforce
  let ?e = "\<lparr>sd_request = r, sd_env = env, sd_response = resp, sd_history = history (at_check (backend (http_view es p)))\<rparr>"
  have q: "p_metrics (serve sv r env es p) = metrics_of st" "p_log (serve sv r env es p) = log_records st"
    "p_served (serve sv r env es p) = p_served p @ [?e]"
    by (simp_all add: serve_def run Let_def del: http_view_simps)
  have v: "metrics_of (http_view es p) = p_metrics p" "log_records (http_view es p) = p_log p" by (simp_all add: http_view_def)
  show thesis
  proof (cases "readable ?e")
    case True
    then have post: "run_state (handlePost sv r env) (http_view es p) = (resp, st)"
      and "\<not> (maxBodyBytes < length (env_body env) \<or> env_bodyError env)"
      using run by (auto simp: readable_def ServeHTTP_def)
    with post_accounting [OF post sv] True show thesis
      by (auto simp: q v replied_def at_info_def intro!: read)
  next
    case False
    have "st = (http_view es p)\<lparr>backend := backend st\<rparr>"
    proof (cases "route_of (hr_Method r) (hr_Path r) = RPost")
      case post: True
      then have "run_state (handlePost sv r env) (http_view es p) = (resp, st)" using run by (simp add: ServeHTTP_def)
      from post_accounting [OF this sv] False post show ?thesis by (auto simp: readable_def split: if_splits)
    next
      case False
      with run show ?thesis
        by (auto simp: ServeHTTP_def handleHealthz_def handleReadyz_def handleMetrics_def split: route.splits)
    qed
    then have "metrics_of st = p_metrics p" "log_records st = p_log p" using v by (cases st, simp)+
    with False show thesis by (intro unread) (simp_all add: q replied_def)
  qed
qed

text \<open>The counters of a run against its responses.\<close>

definition tallied :: "(string \<Rightarrow> nat) \<Rightarrow> (nat set \<Rightarrow> nat) \<Rightarrow> bool" where
  "tallied m f \<longleftrightarrow> m ''ok'' = f {200} \<and> m ''refused_signature'' = f {401} \<and>
     m ''unonboarded'' + m ''identity_mismatch'' = f {204} \<and> m ''error'' = f {400, 502} \<and>
     f UNIV = f {200} + f {401} + f {204} + f {400, 502}"

lemma tallied_inc:
  assumes "tallied m f" "(l, n) \<in> label_statuses" and f: "\<And>S. f' S = f S + (if n \<in> S then 1 else 0)"
  shows "tallied (inc_label l m) f'"
  using assms(1,2) unfolding tallied_def f label_statuses_def
  by (elim insertE emptyE) (simp_all add: inc_label_def)

definition logged :: "('w shared, 'v) server \<Rightarrow> log_record list \<Rightarrow> 'w program \<Rightarrow> bool" where
  "logged sv started p \<longleftrightarrow>
     (\<exists>new. p_log p = started @ new \<and> at_info new = (if sv_level sv \<le> LevelInfo then replied UNIV p else 0))"

lemma logged_append:
  assumes "logged sv started p" "p_log q = p_log p @ new" "at_info new = (if sv_level sv \<le> LevelInfo then 1 else 0)"
    and "replied UNIV q = replied UNIV p + 1"
  shows "logged sv started q"
proof -
  obtain old where "p_log p = started @ old" "at_info old = (if sv_level sv \<le> LevelInfo then replied UNIV p else 0)"
    using assms(1) unfolding logged_def by blast
  then show ?thesis using assms(2-4) unfolding logged_def by (intro exI [of _ "old @ new"]) simp
qed

lemma runs_accounting:
  assumes run: "(prog_step lib sv conf)\<^sup>*\<^sup>* (start_program w started) p" and sv: "sv_handler sv = Handle b"
  shows "tallied (requestsTotal (p_metrics p)) (\<lambda>S. replied S p) \<and> logged sv started p"
  using run
proof (induction rule: rtranclp_induct)
  case base
  show ?case by (simp add: start_program_def newMetrics_def replied_def tallied_def logged_def)
next
  case (step p q)
  from step.hyps(2) show ?case
  proof cases
    case (session_step s)
    have "replied S (p\<lparr>p_life := s\<rparr>) = replied S p" for S by (simp add: replied_def)
    with session_step(1) step.IH show ?thesis by (auto simp: logged_def split: if_splits)
  next
    case (serve_step es r env)
    show ?thesis
    proof (rule serve_accounting [OF sv, of r env es p])
      assume "p_metrics (serve sv r env es p) = p_metrics p" "p_log (serve sv r env es p) = p_log p"
        "\<And>S. replied S (serve sv r env es p) = replied S p"
      with step.IH show ?thesis by (auto simp: serve_step(1) logged_def split: if_splits)
    next
      fix l n new assume read: "(l, n) \<in> label_statuses"
        "requestsTotal (p_metrics (serve sv r env es p)) = inc_label l (requestsTotal (p_metrics p))"
        "\<And>S. replied S (serve sv r env es p) = replied S p + (if n \<in> S then 1 else 0)"
        "p_log (serve sv r env es p) = p_log p @ new" "at_info new = (if sv_level sv \<le> LevelInfo then 1 else 0)"
      have "logged sv started q"
        using step.IH read by (intro logged_append [of sv started p q new]) (simp_all add: serve_step(1))
      moreover have "tallied (requestsTotal (p_metrics q)) (\<lambda>S. replied S q)"
        using step.IH unfolding serve_step(1) read(2) by (intro tallied_inc [OF _ read(1,3)]) simp
      ultimately show ?thesis by simp
    qed
  qed
qed

end
