(* ===== verification/Confined.thy ===== *)
theory Confined
  imports Interleave
begin

text \<open>
  What a request reads. Whatever other goroutines do between its operations, its calls are the mint, the revocation, and
  reads of the two directives and the tiers of its own repository, and one more path only after the read of an entry
  that is answered with a reference to it. The own paths of different repositories are disjoint.
\<close>

section \<open>The paths of a repository\<close>

text \<open>The entries of its tiers, and the paths a request may read on its own account, with a LIST or a GET.\<close>

definition own_entry :: "vx_config \<Rightarrow> identity \<Rightarrow> string \<Rightarrow> bool" where
  "own_entry cfg ident path \<longleftrightarrow> (\<exists>tier \<in> set (sweep_tiers cfg ident (Branchful (Event ident))). \<exists>key.
     plain_key key \<and> path = cfg_KVMount cfg @ ''/data/'' @ tier @ ''/'' @ key)"

definition repo_read :: "vx_config \<Rightarrow> identity \<Rightarrow> string \<Rightarrow> bool \<Rightarrow> bool" where
  "repo_read cfg ident path list \<longleftrightarrow>
     (if list then \<exists>tier \<in> set (sweep_tiers cfg ident (Branchful (Event ident))). path = cfg_KVMount cfg @ ''/metadata/'' @ tier
      else path \<in> {identity_path cfg (Base cfg ident), config_path cfg (Base cfg ident)} \<or> own_entry cfg ident path)"

text \<open>
  The calls of a request in groups, by the outside state in which the first of a group is made: a mint; a revocation; one
  own read; or the read of an own entry that the server answers, in that state, with nothing but a \<open>$ref\<close>, and the
  read of what it refers to.
\<close>

definition request_group :: "'w lib \<Rightarrow> vx_config \<Rightarrow> identity \<Rightarrow> 'w \<Rightarrow> api_call list \<Rightarrow> bool" where
  "request_group lib cfg ident w g \<longleftrightarrow>
     (\<exists>ctx own ps meta dn. g = [mint_call cfg ctx own ps meta dn]) \<or> (\<exists>ctx tok. g = [revoke_call ctx tok]) \<or>
     (\<exists>ctx tok path list. repo_read cfg ident path list \<and> g = [get_call ctx tok path list]) \<or>
     (\<exists>ctx tok path body ref. own_entry cfg ident path \<and>
        fst (lib_raw lib (get_request ctx tok path) w) = RawOK body \<and> entry_ref body = Some ref \<and>
        g = [get_call ctx tok path False, get_call ctx tok ref False])"

text \<open>A request from group to group: the others take a turn, or the request makes the calls of one group.\<close>

inductive own_step :: "'w lib \<Rightarrow> ('w \<Rightarrow> api_call list \<Rightarrow> bool) \<Rightarrow> 'w shared \<Rightarrow> 'w shared \<Rightarrow> bool"
  for lib P where
    others: "own_step lib P s (others_turn s)"
  | own: "\<lbrakk>c = cl (sh_life s); P (world c) g; session_of d = session_of c; log_lines d = log_lines c;
       calls d = calls c @ g; world d = world_after lib g (world c)\<rbrakk> \<Longrightarrow>
     own_step lib P s (s\<lparr>sh_life := (sh_life s)\<lparr>cl := d\<rparr>, sh_own := sh_own s @ g\<rparr>)"

definition own_steps :: "'w lib \<Rightarrow> ('w \<Rightarrow> api_call list \<Rightarrow> bool) \<Rightarrow> 'w shared \<Rightarrow> 'w shared \<Rightarrow> bool" where
  "own_steps lib P = (own_step lib P)\<^sup>*\<^sup>*"

interpretation own_steps: io_order "own_steps lib P" for lib P
  by unfold_locales (auto simp: own_steps_def)

section \<open>Lemmas\<close>

lemma grouped_own_steps:
  assumes "grouped lib P (cl (sh_life s)) d"
  shows "\<exists>g. calls d = calls (cl (sh_life s)) @ g \<and>
    own_steps lib P s (s\<lparr>sh_life := (sh_life s)\<lparr>cl := d\<rparr>, sh_own := sh_own s @ g\<rparr>)"
  using assms unfolding grouped_def own_steps_def
proof (induction rule: rtranclp_induct)
  case base
  show ?case by (intro exI [of _ "[]"]) simp
next
  case (step d e)
  from step.IH obtain g where g: "calls d = calls (cl (sh_life s)) @ g"
    "(own_step lib P)\<^sup>*\<^sup>* s (s\<lparr>sh_life := (sh_life s)\<lparr>cl := d\<rparr>, sh_own := sh_own s @ g\<rparr>)" by blast
  from step.hyps(2) obtain h where h: "P (world d) h" "session_of e = session_of d" "log_lines e = log_lines d"
    "calls e = calls d @ h" "world e = world_after lib h (world d)" unfolding group_step_def by blast
  let ?t = "s\<lparr>sh_life := (sh_life s)\<lparr>cl := d\<rparr>, sh_own := sh_own s @ g\<rparr>"
  have "own_step lib P ?t (?t\<lparr>sh_life := (sh_life ?t)\<lparr>cl := e\<rparr>, sh_own := sh_own ?t @ h\<rparr>)"
    by (rule own_step.own) (use h in simp_all)
  with g h(4) show ?case by (intro exI [of _ "g @ h"]) (auto intro: rtranclp.rtrancl_into_rtrancl)
qed

lemma my_turn_own_steps:
  assumes "state_io_rel (grouped lib P) m"
  shows "state_io_rel (own_steps lib P) (my_turn m)"
proof (rule state_io_relI')
  fix s :: "'a shared"
  obtain a d where run: "run_state m (cl (at_check s)) = (a, d)" by fastforce
  from grouped_own_steps [OF state_io_rel_run [OF assms run, unfolded at_check_def]] obtain g where
    "calls d = calls (cl (at_check s)) @ g"
    "own_steps lib P (others_turn s) ((others_turn s)\<lparr>sh_life := (at_check s)\<lparr>cl := d\<rparr>, sh_own := sh_own (others_turn s) @ g\<rparr>)"
    by (auto simp: at_check_def)
  moreover have "own_steps lib P s (others_turn s)"
    unfolding own_steps_def by (rule r_into_rtranclp, rule own_step.others)
  moreover have "sh_own (others_turn s) = sh_own s" by (simp add: others_turn_def split: list.split)
  ultimately show "own_steps lib P s (snd (run_state (my_turn m) s))"
    using run by (auto simp: run_my_turn Let_def intro: own_steps.trans_R)
qed

text \<open>An operation that makes one call makes a group.\<close>

lemma grouped_MintToken:
  "(\<And>w own. P w [mint_call cfg ctx own ps meta dn]) \<Longrightarrow> state_io_rel (grouped lib P) (MintToken lib cfg ctx ps meta dn)"
  by (rule state_io_relI', rule grouped_one)
     (auto simp: group_step_def MintToken_def run_rawRequest session_of_def mint_call_def)

lemma grouped_RevokeSelf:
  "(\<And>w. P w [revoke_call ctx tok]) \<Longrightarrow> state_io_rel (grouped lib P) (RevokeSelf lib ctx tok)"
  by (rule state_io_relI', rule grouped_one)
     (auto simp: group_step_def RevokeSelf_def run_rawRequest session_of_def revoke_call_def)

lemma grouped_directives:
  assumes "\<And>w. P w [get_call ctx tok (identity_path cfg base) False]" "\<And>w. P w [get_call ctx tok (config_path cfg base) False]"
  shows "state_io_rel (grouped lib P) (ReadIdentity lib cfg ctx tok base)"
    and "state_io_rel (grouped lib P) (ReadConfig lib cfg ctx tok base)"
  by (rule state_io_relI', rule grouped_one, use assms in \<open>auto simp: group_step_def run_ReadIdentity run_ReadConfig session_of_def\<close>)+

lemma sweep_request_group:
  assumes "sweep_group lib cfg ctx tok (sweep_tiers cfg ident (Branchful (Event ident))) w g"
  shows "request_group lib cfg ident w g"
proof -
  have entry: "repo_read cfg ident path False" if "own_entry cfg ident path" for path
    using that by (simp add: repo_read_def)
  from assms consider path where "repo_read cfg ident path True" "g = [get_call ctx tok path True]"
    | path where "own_entry cfg ident path" "g = [get_call ctx tok path False]"
    | path body ref where "own_entry cfg ident path" "fst (lib_raw lib (get_request ctx tok path) w) = RawOK body"
        "entry_ref body = Some ref" "g = [get_call ctx tok path False, get_call ctx tok ref False]"
    unfolding sweep_group_def Let_def repo_read_def own_entry_def by (elim bexE disjE exE conjE) auto
  then show ?thesis unfolding request_group_def by cases (blast dest: entry)+
qed

interpretation confined: vault_keeps "own_steps lib (request_group lib cfg ident)" "shared_vault lib cfg" ident for lib cfg ident
proof
  let ?P = "request_group lib cfg ident"
  have mint: "?P w [mint_call cfg ctx own ps meta dn]" for w ctx own ps meta dn
    unfolding request_group_def by blast
  have revoke: "?P w [revoke_call ctx tok]" for w ctx tok
    unfolding request_group_def by blast
  have directive: "?P w [get_call ctx tok path False]"
    if "path \<in> {identity_path cfg (Base cfg ident), config_path cfg (Base cfg ident)}" for w ctx tok path
    using that unfolding request_group_def repo_read_def by (intro disjI2 disjI1) auto
  show "state_io_rel (own_steps lib ?P) (v_CanaryOK (shared_vault lib cfg))"
    unfolding shared_vault_simps
    by (rule my_turn_own_steps, rule state_io_relI') (simp add: grouped.refl_R)
  show "state_io_rel (own_steps lib ?P) (v_MintToken (shared_vault lib cfg) ctx ps meta dn)" for ctx ps meta dn
    unfolding shared_vault_simps by (intro my_turn_own_steps grouped_MintToken mint)
  show "state_io_rel (own_steps lib ?P) (v_RevokeSelf (shared_vault lib cfg) ctx tok)" for ctx tok
    unfolding shared_vault_simps by (intro my_turn_own_steps grouped_RevokeSelf revoke)
  show "state_io_rel (own_steps lib ?P) (v_ReadIdentity (shared_vault lib cfg) ctx tok (v_Base (shared_vault lib cfg) ident))"
    "state_io_rel (own_steps lib ?P) (v_ReadConfig (shared_vault lib cfg) ctx tok (v_Base (shared_vault lib cfg) ident))" for ctx tok
    unfolding shared_vault_simps by (intro my_turn_own_steps grouped_directives directive; simp)+
  show "state_io_rel (own_steps lib ?P) (v_Sweep (shared_vault lib cfg) ctx tok ident (Branchful (Event ident)))" for ctx tok
    unfolding shared_vault_simps
    by (rule my_turn_own_steps, rule state_io_rel_mono [OF grouped_Sweep])
       (auto elim!: grouped_mono intro: sweep_request_group)
qed

text \<open>Where the paths of a repository lie.\<close>

lemma repo_read_under:
  assumes "repo_read cfg ident path list"
  shows "\<exists>kind rest. kind \<in> {''/data/'', ''/metadata/''} \<and> path = cfg_KVMount cfg @ kind @ Base cfg ident @ rest \<and>
    (rest = [] \<or> hd rest = CHR ''/'')"
proof -
  have tier: "\<exists>rest. tier = Base cfg ident @ rest \<and> (rest = [] \<or> hd rest = CHR ''/'')"
    if "tier \<in> set (sweep_tiers cfg ident b)" for tier b
    using that by (auto simp: sweep_tiers_def Let_def split: if_splits)
  show ?thesis
  proof (cases list)
    case True
    with assms tier show ?thesis by (fastforce simp: repo_read_def)
  next
    case False
    with assms consider "path \<in> {identity_path cfg (Base cfg ident), config_path cfg (Base cfg ident)}"
      | t key where "t \<in> set (sweep_tiers cfg ident (Branchful (Event ident)))" "path = cfg_KVMount cfg @ ''/data/'' @ t @ ''/'' @ key"
      by (auto simp: repo_read_def own_entry_def)
    then show ?thesis
    proof cases
      case 1
      then show ?thesis by (auto simp: identity_path_def config_path_def)
    next
      case 2
      from tier [OF 2(1)] obtain rest where "t = Base cfg ident @ rest" "rest = [] \<or> hd rest = CHR ''/''" by blast
      with 2(2) have "path = cfg_KVMount cfg @ ''/data/'' @ Base cfg ident @ (rest @ ''/'' @ key)"
        "hd (rest @ ''/'' @ key) = CHR ''/''" by (auto simp: hd_append)
      then show ?thesis by blast
    qed
  qed
qed

lemma segment_cancel:
  assumes "a @ r = b @ s" "CHR ''/'' \<notin> set a" "CHR ''/'' \<notin> set b"
    and "r = [] \<or> hd r = CHR ''/''" "s = [] \<or> hd s = CHR ''/''"
  shows "a = b"
  using assms by (cases r; cases s) (auto simp: append_slash_cancel)

lemma base_cancel:
  assumes "wf_identity i" "wf_identity j" "Base cfg i @ r = Base cfg j @ s"
    and "r = [] \<or> hd r = CHR ''/''" "s = [] \<or> hd s = CHR ''/''"
  shows "Org i = Org j \<and> Repo i = Repo j"
proof -
  have "Org i @ CHR ''/'' # (Repo i @ r) = Org j @ CHR ''/'' # (Repo j @ s)"
    using assms(3) by (simp add: Base_def)
  then have "Org i = Org j" "Repo i @ r = Repo j @ s"
    using assms(1,2) by (simp_all add: wf_identity_def append_slash_cancel)
  with segment_cancel [OF this(2) _ _ assms(4,5)] assms(1,2) show ?thesis by (simp add: wf_identity_def)
qed

section \<open>Properties\<close>

text \<open>C11. A request reads its own repository only. Under every interleaving with the other goroutines, a request goes from its
  start to its end by turns of the others and groups of own calls, each a mint, a revocation, or one read: the LIST of a tier
  of its own repository, event and branch, the GET of a plain key of such a tier (not dot-prefixed, not a directory), or one of
  the repository's two directives. A GET of any other path is made only right after the GET of such a key, and only if
  the server answered that GET with an entry whose one field is a \<open>$ref\<close> to that path. This holds on every error path too.\<close>

theorem request_confined:
  "(own_step lib (request_group lib cfg ident))\<^sup>*\<^sup>* s (snd (run_state (Handle (shared_broker lib cfg pfx addr) ctx ident) s))"
proof -
  have "state_io_rel (own_steps lib (request_group lib cfg ident)) (Handle (shared_broker lib cfg pfx addr) ctx ident)"
    by (rule confined.Handle_keeps [OF shared_broker_simps(1)])
  then show ?thesis by (simp add: state_io_rel_def own_steps_def)
qed

text \<open>C12. Repositories are isolated in the store, too: a path that two well-formed identities may both read on their own account
  belongs to one repository of one organisation.\<close>

theorem reads_isolated:
  assumes "wf_identity i" and "wf_identity j"
    and "repo_read cfg i path list" and "repo_read cfg j path list'"
  shows "Org i = Org j \<and> Repo i = Repo j"
proof -
  from repo_read_under [OF assms(3)] obtain k r where
    i: "k \<in> {''/data/'', ''/metadata/''}" "path = cfg_KVMount cfg @ k @ Base cfg i @ r" "r = [] \<or> hd r = CHR ''/''" by blast
  from repo_read_under [OF assms(4)] obtain k' s where
    j: "k' \<in> {''/data/'', ''/metadata/''}" "path = cfg_KVMount cfg @ k' @ Base cfg j @ s" "s = [] \<or> hd s = CHR ''/''" by blast
  have "k @ Base cfg i @ r = k' @ Base cfg j @ s" using i(2) j(2) by simp
  with i(1) j(1) have "Base cfg i @ r = Base cfg j @ s" by auto
  from base_cancel [OF assms(1,2) this i(3) j(3)] show ?thesis .
qed

theorem reads_isolated_witness:
  "repo_read sample_vx (sample_identity ''push'' ''main'') ''kv/metadata/ci/acme/widgets'' True \<and>
   repo_read sample_vx (sample_identity ''tag'' []) ''kv/metadata/ci/acme/widgets'' True \<and>
   Repo (sample_identity ''push'' ''main'') = Repo (sample_identity ''tag'' [])"
proof -
  have read: "repo_read sample_vx (sample_identity e b) ''kv/metadata/ci/acme/widgets'' True" for e b
    by (simp add: repo_read_def sweep_tiers_def Base_def sample_vx_def sample_identity_def Let_def)
  have "wf_identity (sample_identity ''push'' ''main'')" "wf_identity (sample_identity ''tag'' [])"
    by (simp_all add: wf_sample no_upper_def)
  from reads_isolated [OF this read read] read show ?thesis by blast
qed

end
