(* ===== verification/WpsignTest.thy ===== *)
theory WpsignTest
  imports Wpsign
begin

text \<open>
  Package \<open>internal/wpsign/wpsigntest\<close>: the signer the tests of \<open>wpsign\<close> use, which signs as Woodpecker does, with
  its deliberate deviations. The signing half of the signature library is the parameter
  \<open>sign_lib\<close>; \<open>sign_laws\<close> states what its two halves promise each other. Under these laws a
  signed request is accepted, and one whose body was exchanged after signing is not.
\<close>

section \<open>Signing\<close>

text \<open>A signer for a key, with or without a creation time, over components; the digest header of a body; and
  the headers \<open>Signature-Input\<close> and \<open>Signature\<close> of a request signed at an instant.\<close>

record 'g sign_lib =
  gl_newSigner :: "string \<Rightarrow> bool \<Rightarrow> string list \<Rightarrow> string + 'g"
  gl_digest :: "string \<Rightarrow> string list \<Rightarrow> string + string"
  gl_sign :: "string \<Rightarrow> 'g \<Rightarrow> http_request \<Rightarrow> instant \<Rightarrow> string + string \<times> string"

record sign_opts =
  OmitCreated :: bool
  Components :: "string list option"
  TamperBodyAfterSign :: "string option"
  OmitDigestHeader :: bool

datatype sign_error = BuildSigner string | GenerateDigest string | SignRequest string

definition defaultComponents :: "string list" where
  "defaultComponents = [''@request-target'', ''content-digest'']"

text \<open>\<open>strings.EqualFold\<close> against an ASCII name is the comparison of folded code points.\<close>

definition containsFold :: "string list \<Rightarrow> string \<Rightarrow> bool" where
  "containsFold components name \<longleftrightarrow> list_ex (\<lambda>c. fold_name c = fold_name name) components"

definition header_Set :: "string \<Rightarrow> string \<Rightarrow> http_request \<Rightarrow> http_request" where
  "header_Set name v r = r\<lparr>hr_Header := AList.update name [v] (hr_Header r)\<rparr>"

definition header_Del :: "string \<Rightarrow> http_request \<Rightarrow> http_request" where
  "header_Del name r = r\<lparr>hr_Header := AList.delete name (hr_Header r)\<rparr>"

text \<open>The request as it leaves the signer, with the body it then has.\<close>

definition SignOpts ::
  "'g sign_lib \<Rightarrow> instant \<Rightarrow> http_request \<Rightarrow> string \<Rightarrow> string \<Rightarrow> sign_opts \<Rightarrow> sign_error + http_request \<times> string" where
  "SignOpts gl clock r body key opts =
     (let components = (case Components opts of Some c \<Rightarrow> c | None \<Rightarrow> defaultComponents) in
      case gl_newSigner gl key (\<not> OmitCreated opts) components of
        Inl err \<Rightarrow> Inl (BuildSigner err)
      | Inr signer \<Rightarrow>
          (case (if containsFold components ''content-digest'' then
                   (case gl_digest gl body [''sha-256''] of
                      Inl err \<Rightarrow> Inl (GenerateDigest err)
                    | Inr d \<Rightarrow> Inr (header_Set ''Content-Digest'' d r))
                 else Inr r) of
             Inl e \<Rightarrow> Inl e
           | Inr r1 \<Rightarrow>
               (case gl_sign gl signatureName signer r1 clock of
                  Inl err \<Rightarrow> Inl (SignRequest err)
                | Inr (sigInput, sig) \<Rightarrow>
                    (let r2 = header_Set ''Signature-Input'' sigInput (header_Set ''Signature'' sig r1);
                         body' = (case TamperBodyAfterSign opts of Some b \<Rightarrow> b | None \<Rightarrow> body);
                         r3 = (if OmitDigestHeader opts then header_Del ''Content-Digest'' r2 else r2) in
                     Inr (r3, body')))))"

definition no_opts :: sign_opts where
  "no_opts = \<lparr>OmitCreated = False, Components = None, TamperBodyAfterSign = None, OmitDigestHeader = False\<rparr>"

definition Sign :: "'g sign_lib \<Rightarrow> instant \<Rightarrow> http_request \<Rightarrow> string \<Rightarrow> string \<Rightarrow> sign_error + http_request \<times> string" where
  "Sign gl clock r body key = SignOpts gl clock r body key no_opts"

section \<open>The two halves of the library\<close>

text \<open>Creation times are in whole seconds.\<close>

definition created_of :: "instant \<Rightarrow> instant" where
  "created_of clock = clock div 1000000000 * 1000000000"

definition signed :: "string \<Rightarrow> string \<Rightarrow> http_request \<Rightarrow> http_request" where
  "signed sigInput sig r = header_Set ''Signature-Input'' sigInput (header_Set ''Signature'' sig r)"

text \<open>What a signer of the private key signs over the required components, a verifier of the public key with the same components
  accepts, and finds the creation time; and a digest header is valid for the bodies with this digest.\<close>

definition sign_laws :: "'g sign_lib \<Rightarrow> 'v sig_lib \<Rightarrow> string \<Rightarrow> string \<Rightarrow> bool" where
  "sign_laws gl sl key pub \<longleftrightarrow>
     (\<forall>signer r clock sigInput sig.
        gl_newSigner gl key True requiredComponents = Inr signer \<and> gl_sign gl signatureName signer r clock = Inr (sigInput, sig) \<longrightarrow>
        sigInput \<noteq> [] \<and> sig \<noteq> [] \<and>
        (\<exists>verifier. sl_newVerifier sl pub False requiredComponents = Inr verifier \<and>
           sl_verifyRequest sl signatureName verifier (signed sigInput sig r) = None) \<and>
        sl_details sl signatureName (signed sigInput sig r) = Inr (Some (created_of clock))) \<and>
     (\<forall>body body' d. gl_digest gl body [''sha-256''] = Inr d \<longrightarrow>
        (sl_validateDigest sl [d] body' [''sha-256''] = None \<longleftrightarrow> gl_digest gl body' [''sha-256''] = Inr d))"

lemma header_Values_Set [simp]:
  "header_Values (header_Set name v r) name' = (if name' = name then [v] else header_Values r name')"
  by (simp add: header_Values_def header_Set_def update_conv)

lemma header_Get_Set [simp]:
  "header_Get (header_Set name v r) name' = (if name' = name then v else header_Get r name')"
  by (simp add: header_Get_def)

lemma containsFold_default: "containsFold defaultComponents ''content-digest''"
  by (simp add: containsFold_def defaultComponents_def)

lemma defaultComponents_required: "defaultComponents = requiredComponents"
  by (simp add: defaultComponents_def requiredComponents_def)

text \<open>A signature without deviation but perhaps with another body.\<close>

lemma SignOpts_faithful:
  assumes "SignOpts gl clock r body key (no_opts\<lparr>TamperBodyAfterSign := t\<rparr>) = Inr (r', body')"
  obtains signer d sigInput sig where
    "gl_newSigner gl key True requiredComponents = Inr signer" "gl_digest gl body [''sha-256''] = Inr d"
    "gl_sign gl signatureName signer (header_Set ''Content-Digest'' d r) clock = Inr (sigInput, sig)"
    "r' = signed sigInput sig (header_Set ''Content-Digest'' d r)"
    "body' = (case t of Some b \<Rightarrow> b | None \<Rightarrow> body)"
  using assms
  by (auto simp: SignOpts_def no_opts_def Let_def containsFold_default signed_def
      simp flip: defaultComponents_required split: sum.splits prod.splits)

section \<open>Properties\<close>

text \<open>C40. Signing and verifying fit together. Under the laws of the signature library, a request signed as Woodpecker signs is
  accepted within the window of its creation, in whole seconds, if the body still has the digest of the body that was
  signed; with any other body it is refused, as a digest mismatch.\<close>

theorem signed_accepted:
  assumes laws: "sign_laws gl sl key pub"
    and sig: "SignOpts gl clock r body key (no_opts\<lparr>TamperBodyAfterSign := t\<rparr>) = Inr (r', body')"
    and window: "- (2 ^ 63) < sint window" "sint window < 2 ^ 63 - 1" "\<bar>now - created_of clock\<bar> \<le> sint window"
  shows "map_option ve_Reason (Verify sl r' body' pub window now) =
    (if gl_digest gl body' [''sha-256''] = gl_digest gl body [''sha-256''] then None else Some ReasonDigestMismatch)"
proof -
  from SignOpts_faithful [OF sig] obtain signer d sigInput sg where s:
    "gl_newSigner gl key True requiredComponents = Inr signer" "gl_digest gl body [''sha-256''] = Inr d"
    "gl_sign gl signatureName signer (header_Set ''Content-Digest'' d r) clock = Inr (sigInput, sg)"
    "r' = signed sigInput sg (header_Set ''Content-Digest'' d r)" .
  then obtain verifier where v: "sigInput \<noteq> []" "sg \<noteq> []" "sl_newVerifier sl pub False requiredComponents = Inr verifier"
    "sl_verifyRequest sl signatureName verifier r' = None" "sl_details sl signatureName r' = Inr (Some (created_of clock))"
    using laws unfolding sign_laws_def by blast
  have h: "header_Get r' ''Signature'' = sg" "header_Get r' ''Signature-Input'' = sigInput" "header_Values r' ''Content-Digest'' = [d]"
    by (simp_all add: s(4) signed_def)
  have dg: "sl_validateDigest sl [d] body' [''sha-256''] = None \<longleftrightarrow> gl_digest gl body' [''sha-256''] = Inr d"
    using laws s(2) unfolding sign_laws_def by blast
  have "\<not> stale window (time_Sub now (created_of clock))"
    using stale_time_Sub [OF window(1,2), of now "created_of clock"] window(3) by simp
  then show ?thesis using v h dg s(2) by (auto simp: Verify_def split: option.split)
qed

text \<open>A library in which a digest is the body itself, a signature names the key and the digest it covers, and the
  creation time is written in seconds.\<close>

definition toy_sign :: "string sign_lib" where
  "toy_sign =
     \<lparr>gl_newSigner = (\<lambda>key _ _. Inr key), gl_digest = (\<lambda>b _. Inr b),
      gl_sign = (\<lambda>_ key r clock.
        (let t = clock div 1000000000 in
         if parse_int (format_int t) = Some t then Inr (format_int t, ''by '' @ key @ header_Get r ''Content-Digest'')
         else Inl ''time out of range''))\<rparr>"

definition toy_verify :: "string sig_lib" where
  "toy_verify =
     \<lparr>sl_newVerifier = (\<lambda>pub _ _. Inr pub),
      sl_verifyRequest = (\<lambda>_ pub r.
        (if header_Get r ''Signature'' = ''by '' @ pub @ header_Get r ''Content-Digest'' then None
         else Some ''signature verification failed'')),
      sl_validateDigest = (\<lambda>vs b _. if vs = [b] then None else Some ''digest mismatch''),
      sl_details = (\<lambda>_ r. Inr (map_option (\<lambda>t. t * 1000000000) (parse_int (header_Get r ''Signature-Input''))))\<rparr>"

lemma toy_laws: "sign_laws toy_sign toy_verify key key"
proof -
  have ne: "sigInput \<noteq> []" if "parse_int sigInput \<noteq> None" for sigInput
    using that by (auto simp: parse_int_def)
  show ?thesis
    by (auto simp: sign_laws_def toy_sign_def toy_verify_def signed_def created_of_def ne Let_def split: if_splits)
qed

lemma toy_signed:
  "SignOpts toy_sign 5000000007 (sample_request ''POST'' ''/'') body key (no_opts\<lparr>TamperBodyAfterSign := t\<rparr>) =
     Inr (signed ''5'' (''by '' @ key @ body) (header_Set ''Content-Digest'' body (sample_request ''POST'' ''/'')),
          case t of Some b \<Rightarrow> b | None \<Rightarrow> body)"
proof -
  have five: "format_int 5 = ''5''" by code_simp
  then have "parse_int ''5'' = Some 5" using parse_format_int [of 5] by simp
  then show ?thesis
    by (simp add: SignOpts_def no_opts_def Let_def containsFold_default toy_sign_def signed_def five)
qed

text \<open>Signed and left alone, and signed and tampered with.\<close>

theorem signed_accepted_witness:
  "Verify toy_verify (signed ''5'' ''by kbody'' (header_Set ''Content-Digest'' ''body'' (sample_request ''POST'' ''/'')))
     ''body'' ''k'' 10000000000 9000000000 = None \<and>
   map_option ve_Reason
     (Verify toy_verify (signed ''5'' ''by kbody'' (header_Set ''Content-Digest'' ''body'' (sample_request ''POST'' ''/'')))
       ''evil'' ''k'' 10000000000 9000000000) = Some ReasonDigestMismatch"
  using signed_accepted [OF toy_laws toy_signed, where key = "''k''" and body = "''body''" and t = None and window = 10000000000 and now = 9000000000]
    signed_accepted [OF toy_laws toy_signed, where key = "''k''" and body = "''body''" and t = "Some ''evil''" and window = 10000000000
      and now = 9000000000]
  by (simp add: created_of_def toy_sign_def)

end
