(* ===== verification/Delivery.thy ===== *)
theory Delivery
  imports HttpProps
begin

text \<open>
  Delivery end to end. The encoder of the response replaces bytes that are not valid UTF-8, so what a client
  reads is what the broker released only if no such byte gets that far. It does not: every string of a
  secret comes from a decoded JSON response of the server, from the decoded payload, or from the
  configuration, and the operations of the program keep strings valid.
\<close>

section \<open>What the server's responses contribute\<close>

text \<open>
  What the decoder of the runtime promises: the strings it decodes are valid UTF-8 (as the one modelled in theory
  GoJson, \<open>parse_json_valid\<close>).
\<close>

definition decoded_lib :: "'w lib \<Rightarrow> bool" where
  "decoded_lib lib \<longleftrightarrow> (\<forall>rq w j. fst (lib_raw lib rq w) = RawOK (Some j) \<longrightarrow> valid_json j)"

definition valid_body :: "json option \<Rightarrow> bool" where
  "valid_body body \<longleftrightarrow> pred_option valid_json body"

lemma yields_vaultGet_body:
  "decoded_lib lib \<Longrightarrow> yields (pred_option valid_body) (vaultGet lib ctx tok path l)"
  by (auto simp: yields_def run_vaultGet Let_def split_beta classify_get_def decoded_lib_def valid_body_def
      option.pred_set split: raw_reply.splits if_splits)

lemma DecodeJSON_keeps: "dec_keeps P d \<Longrightarrow> DecodeJSON d zero body = Some v \<Longrightarrow> valid_body body \<Longrightarrow> P zero \<Longrightarrow> P v"
  by (cases body) (auto simp: DecodeJSON_def valid_body_def dest: dec_keepsD)

abbreviation raw_ok :: "raw_map \<Rightarrow> bool" where
  "raw_ok \<equiv> values_ok valid_json"

abbreviation strs_ok :: "(string \<times> string) list \<Rightarrow> bool" where
  "strs_ok \<equiv> values_ok valid_str"

lemma dec_keeps_raw_map: "dec_keeps raw_ok (dec_map JNull dec_raw_elem)"
  by (intro dec_intros) simp

lemma dec_keeps_entry: "dec_keeps (\<lambda>r. raw_ok (er_Data r) \<and> strs_ok (er_CustomMetadata r)) dec_entry"
proof -
  let ?P = "\<lambda>r. raw_ok (er_Data r) \<and> strs_ok (er_CustomMetadata r)"
  have "dec_keeps strs_ok (dec_map [] dec_string)" by (intro dec_intros) simp
  then have "dec_keeps ?P (dec_field er_CustomMetadata (\<lambda>v r. r\<lparr>er_CustomMetadata := v\<rparr>) (dec_map [] dec_string))"
    by (rule dec_keeps_field) simp_all
  moreover have "dec_keeps ?P (dec_field er_Data (\<lambda>v r. r\<lparr>er_Data := v\<rparr>) (dec_map JNull dec_raw_elem))"
    by (rule dec_keeps_field [OF dec_keeps_raw_map]) simp_all
  ultimately show ?thesis unfolding dec_entry_def by (auto intro!: dec_keeps_struct)
qed

lemma dec_keeps_deref: "dec_keeps (\<lambda>r. raw_ok (dr_Data r)) dec_deref"
  unfolding dec_deref_def
  by (simp add: dec_keeps_struct dec_keeps_other dec_keeps_field [OF dec_keeps_raw_map])

lemma dec_keeps_config: "dec_keeps raw_ok dec_config"
  by (simp add: dec_config_def dec_keeps_struct dec_keeps_raw_map)

definition valid_auth :: "mintAuthResponse \<Rightarrow> bool" where
  "valid_auth a \<longleftrightarrow> valid_str (ma_ClientToken a)"

lemma dec_keeps_mint: "dec_keeps (\<lambda>r. pred_option valid_auth (mr_Auth r)) dec_mint_response"
proof -
  have tok: "dec_keeps valid_auth (dec_field ma_ClientToken (\<lambda>v a. a\<lparr>ma_ClientToken := v\<rparr>) dec_string)"
    by (rule dec_keeps_field [OF dec_keeps_string]) (simp_all add: valid_auth_def)
  have "dec_keeps valid_auth dec_mint_auth"
    unfolding dec_mint_auth_def
    by (rule dec_keeps_struct, simp add: tok, intro conjI dec_keeps_other) (simp_all add: valid_auth_def)
  moreover have "valid_auth zero_mint_auth" by (simp add: valid_auth_def zero_mint_auth_def)
  ultimately have "dec_keeps (pred_option valid_auth) (dec_ptr zero_mint_auth dec_mint_auth)" by (intro dec_intros)
  then show ?thesis
    unfolding dec_mint_response_def
    by (simp add: dec_keeps_struct dec_keeps_other dec_keeps_field [where Q = "pred_option valid_auth"])
qed

section \<open>The strings of a sweep\<close>

definition valid_swept :: "sweptSecret \<Rightarrow> bool" where
  "valid_swept s \<longleftrightarrow> valid_str (Name s) \<and> valid_str (Value s) \<and> list_all valid_str (Images s) \<and> list_all valid_str (Events s)"

definition valid_acc :: "sweepAccumulator \<Rightarrow> bool" where
  "valid_acc sw \<longleftrightarrow> list_all valid_swept (secrets sw)"

lemma validName_valid: "validName n \<Longrightarrow> valid_str n"
  by (rule valid_ascii) (auto simp: validName_def valid_name_char_def is_ascii_def list_all_iff)

lemma valid_acc_add:
  "valid_acc sw \<Longrightarrow> valid_str v \<Longrightarrow> list_all valid_str images \<Longrightarrow> list_all valid_str events \<Longrightarrow>
   valid_acc (add name v images events sw)"
  by (simp add: add_def valid_acc_def valid_swept_def validName_valid)

lemma valid_acc_leases [simp]: "valid_acc (sw\<lparr>leasesCreated := b\<rparr>) = valid_acc sw"
  by (simp add: valid_acc_def)

lemma stringField_valid: "raw_ok m \<Longrightarrow> stringField (map_of m f) = Some v \<Longrightarrow> valid_str v"
  by (auto simp: stringField_def split: option.splits dest: dec_keepsD [OF dec_keeps_string] values_ok_lookup)

lemma valid_acc_add_fields:
  assumes "raw_ok m" "valid_acc sw" "list_all valid_str images" "list_all valid_str events"
  shows "valid_acc (add_fields ul key m images events sw)"
proof -
  have "valid_acc (fold (\<lambda>f sw. case stringField (map_of m f) of None \<Rightarrow> sw
      | Some v \<Rightarrow> add (g f) v images events sw) fs sw)" for g fs
    using assms(2)
    by (induction fs arbitrary: sw) (auto split: option.split intro!: valid_acc_add assms stringField_valid [OF assms(1)])
  then show ?thesis by (simp add: add_fields_def)
qed

lemma valid_list: "valid_str v \<Longrightarrow> list_all valid_str (splitTrimCommaList v)"
  using valid_split [of "CHR '',''" v] by (auto simp: splitTrimCommaList_def list_all_iff valid_trim)

lemma entryPins_valid:
  assumes "strs_ok m" "entryPins m = (images, events)"
  shows "list_all valid_str images \<and> list_all valid_str events"
proof -
  have "list_all valid_str (case map_of m k of Some v \<Rightarrow> splitTrimCommaList v | None \<Rightarrow> [])" for k
    using assms(1) by (auto split: option.split intro: valid_list values_ok_lookup)
  with assms(2) show ?thesis by (auto simp: entryPins_def)
qed

lemma isKV2Shaped_ok: "raw_ok m \<Longrightarrow> isKV2Shaped m = Some inner \<Longrightarrow> raw_ok inner"
proof -
  assume m: "raw_ok m" and k: "isKV2Shaped m = Some inner"
  from k obtain j where j: "map_of m ''data'' = Some j" "dec_map JNull dec_raw_elem j [] = Some inner"
    by (auto simp: isKV2Shaped_def split: option.splits)
  have "valid_json j" using values_ok_lookup [OF m j(1)] .
  from dec_keepsD [OF dec_keeps_map [OF _ dec_keeps_raw] j(2) this] show ?thesis by simp
qed

text \<open>What the operations of the client yield.\<close>

lemma yields_run: "yields Q m \<Longrightarrow> run_state m s = (Inr r, s') \<Longrightarrow> Q r"
  by (auto simp: yields_def)

lemma valid_acc_deref:
  assumes lib: "decoded_lib lib"
    and acc: "valid_acc sw" "list_all valid_str images" "list_all valid_str events"
  shows "yields valid_acc (sweepDeref lib ctx tok key ref images events sw)"
  unfolding yields_def
proof (intro allI impI)
  fix s r s' assume run: "run_state (sweepDeref lib ctx tok key ref images events sw) s = (Inr r, s')"
  obtain got s1 where get: "run_state (vaultGet lib ctx tok ref False) s = (got, s1)" by fastforce
  have body: "valid_body b" if "got = Inr (Some b)" for b
    using yields_run [OF yields_vaultGet_body [OF lib] get [unfolded that]] by simp
  have deref: "raw_ok (dr_Data p)" if "got = Inr (Some b)" "DecodeJSON dec_deref \<lparr>dr_LeaseID = [], dr_Data = []\<rparr> b = Some p" for b p
    using DecodeJSON_keeps [OF dec_keeps_deref that(2) body [OF that(1)]] by simp
  have inner: "raw_ok m" if "got = Inr (Some b)" "DecodeJSON dec_deref \<lparr>dr_LeaseID = [], dr_Data = []\<rparr> b = Some p"
      "isKV2Shaped (dr_Data p) = Some m" for b p m
    using isKV2Shaped_ok [OF deref [OF that(1,2)] that(3)] .
  note field = stringField_valid [OF inner]
  show "valid_acc r"
    using run acc deref inner field
    by (auto simp: sweepDeref_def get Let_def split: sum.splits option.splits
        intro!: valid_acc_add valid_acc_add_fields)
qed

lemma valid_acc_entry:
  assumes lib: "decoded_lib lib" and acc: "valid_acc sw"
  shows "yields valid_acc (sweepEntry lib cfg ctx tok tier key sw)"
  unfolding sweepEntry_def Let_def
proof (rule yields_bindE_via [OF yields_vaultGet_body [OF lib]], goal_cases)
  case (1 resp)
  then show ?case
  proof (cases resp)
    case None
    with acc show ?thesis by (simp add: yields_okE)
  next
    case (Some body)
    have parsed: "raw_ok (er_Data p) \<and> list_all valid_str im \<and> list_all valid_str ev"
      if "DecodeJSON dec_entry \<lparr>er_Data = [], er_CustomMetadata = []\<rparr> body = Some p" "entryPins (er_CustomMetadata p) = (im, ev)"
      for p im ev
      using DecodeJSON_keeps [OF dec_keeps_entry that(1)] entryPins_valid [OF _ that(2)] 1 Some by simp
    show ?thesis
      unfolding Some
      by (auto simp: acc split: option.split prod.split dest!: parsed
          intro!: yields_intros valid_acc_deref [OF lib] valid_acc_add valid_acc_add_fields dest: stringField_valid)
  qed
qed

lemma valid_Sweep:
  assumes "decoded_lib lib"
  shows "yields (\<lambda>sw. list_all valid_swept (Secrets sw)) (Sweep lib cfg ctx tok ident branchful)"
  unfolding Sweep_def sweepTier_def
  by (rule yields_bindE_via [where P = valid_acc])
     (auto simp: valid_acc_def [of empty_acc] empty_acc_def valid_acc_def intro!: yields_intros valid_acc_entry [OF assms])

lemma config_fields_valid: "raw_ok d \<Longrightarrow> config_fields d = Inr m \<Longrightarrow> strs_ok m"
proof (induction d arbitrary: m)
  case (Cons e d)
  obtain k j where e: "e = (k, j)" by fastforce
  with Cons.prems obtain v m' where m: "stringField (Some j) = Some v" "config_fields d = Inr m'" "m = (k, v) # m'"
    by (auto split: option.splits sum.splits)
  have "valid_str v" using stringField_valid [of "[(k, j)]" k v] Cons.prems(1) m(1) e by (simp add: values_ok_def)
  with Cons m e show ?case by (simp add: values_ok_def)
qed simp

lemma valid_ReadConfig:
  assumes lib: "decoded_lib lib"
  shows "yields (pred_option strs_ok) (ReadConfig lib cfg ctx tok base)"
  unfolding ReadConfig_def
proof (rule yields_bindE_via [OF yields_vaultGet_body [OF lib]], goal_cases)
  case (1 resp)
  have "strs_ok m" if "resp = Some body" "DecodeJSON dec_config [] body = Some d" "config_fields d = Inr m" for body d m
    using config_fields_valid [OF DecodeJSON_keeps [OF dec_keeps_config that(2)] that(3)] 1 that(1) by simp
  then show ?case by (auto split: option.split sum.split intro!: yields_intros)
qed

lemma valid_MintToken:
  assumes lib: "decoded_lib lib"
  shows "yields (valid_str \<circ> Token) (MintToken lib cfg ctx ps meta dn)"
  unfolding yields_def
proof (intro allI impI)
  fix c m c' assume run: "run_state (MintToken lib cfg ctx ps meta dn) c = (Inr m, c')"
  then obtain body rq where body: "fst (lib_raw lib rq (world c)) = RawOK body" "mint_of_body body = Inr m"
    by (auto simp: MintToken_def run_rawRequest split: raw_reply.splits)
  have "valid_body body" using lib body(1) by (cases body) (auto simp: valid_body_def decoded_lib_def)
  moreover obtain r a where r: "DecodeJSON dec_mint_response zero_mint_response body = Some r" "mr_Auth r = Some a" "Token m = ma_ClientToken a"
    using body(2) by (auto simp: mint_of_body_def DecodeJSON_def split: option.splits if_splits)
  ultimately show "(valid_str \<circ> Token) m"
    using DecodeJSON_keeps [OF dec_keeps_mint r(1)] by (simp add: zero_mint_response_def valid_auth_def)
qed

section \<open>The strings of a response\<close>

definition valid_out :: "secret \<Rightarrow> bool" where
  "valid_out s \<longleftrightarrow> valid_str (sec_Name s) \<and> valid_str (sec_Value s) \<and>
     list_all valid_str (sec_Events s) \<and> list_all valid_str (sec_Images s)"

lemma valid_secret_id: "list_all valid_out ss \<Longrightarrow> map valid_secret ss = ss"
proof -
  have strs: "map to_valid xs = xs" if "list_all valid_str xs" for xs
    using that by (induction xs) (auto simp: valid_str_def)
  have "valid_secret s = s" if "valid_out s" for s
    using that strs by (simp add: valid_out_def valid_secret_def valid_str_def)
  then show "list_all valid_out ss \<Longrightarrow> ?thesis" by (induction ss) simp_all
qed

lemma config_get_valid: "pred_option strs_ok config \<Longrightarrow> valid_str (config_get config k)"
  by (auto simp: config_get_def split: option.splits intro: values_ok_lookup)

lemma build_response_valid:
  assumes "list_all valid_swept (Secrets sw)" "valid_str (Token m)" "pred_option strs_ok config"
    and "valid_str (b_advertiseVaultAddr b)" "valid_str (Event ident)"
  shows "list_all valid_out (r_Secrets (build_response b ident m audit config sw))"
proof -
  have "list_all valid_str (splitTrimCommaList_broker (config_get config k))" for k
    using valid_list [OF config_get_valid [OF assms(3)]]
    by (simp add: splitTrimCommaList_broker_def splitTrimCommaList_def)
  moreover have "valid_str ''vault_token''" "valid_str ''vault_addr''" by (simp_all add: valid_ascii)
  ultimately show ?thesis
    using assms by (auto simp: build_response_secrets valid_out_def valid_swept_def list_all_iff)
qed

lemma Handle_valid:
  fixes c :: "'w client"
  assumes lib: "decoded_lib lib" and addr: "valid_str addr" and ident: "valid_str (Event ident)"
    and run: "run_state (Handle (client_broker lib cfg pfx addr) ctx ident) c = (res, c')" and ok: "r_Status res = 200"
  shows "list_all valid_out (r_Secrets res)"
proof (cases "canaryOK c")
  case False
  from run_Handle_early(1) [OF this] run ok show ?thesis by (auto simp: early_result_def)
next
  case up: True
  obtain r c1 where mint: "run_state (request_mint lib cfg ctx pfx ident) c = (r, c1)" by fastforce
  show ?thesis
  proof (cases r)
    case (Inl e)
    with run_Handle_early(2) [OF up] mint run ok show ?thesis by (auto simp: early_result_def)
  next
    case (Inr m)
    let ?b = "client_broker lib cfg pfx addr"
    let ?a = "\<lparr>PoliciesRequested = Derive ident pfx, PolicyWarnings = [], SecretNames = [],
        TokenAccessor = Accessor m, TokenTTL = TTL m\<rparr>"
    note minted = mint [unfolded Inr]
    obtain res0 c2 where body: "run_state (handle_minted ?b ctx ident (Derive ident pfx) ?a m) c1 = (res0, c2)" by fastforce
    have "run_state (deferred_revoke ?b m res0) c2 = (res, c')"
      using run unfolding run_Handle_minted [OF up minted] by (simp add: body)
    from deferred_keeps [OF this] ok have res: "res = res0" "r_Status res0 = 200" by auto
    obtain s1 s2 config sw a where reads:
      "run_state (ReadConfig lib cfg ctx (Token m) (Base cfg ident)) s1 = (Inr config, s2)"
      "run_state (Sweep lib cfg ctx (Token m) ident (Branchful (Event ident))) s2 = (Inr sw, c2)"
      "res0 = build_response ?b ident m a config sw"
      using handle_minted_result [OF body res(2)] by (auto simp: client_vault_def)
    show ?thesis
      unfolding res(1) reads(3)
      using yields_run [OF valid_Sweep [OF lib] reads(2)] yields_run [OF valid_ReadConfig [OF lib] reads(1)]
        yields_run [OF valid_MintToken [OF lib] minted] addr ident
      by (intro build_response_valid) simp_all
  qed
qed

lemma accepted_Event: "accepted sv r env ident \<Longrightarrow> valid_str (Event ident)"
  by (auto simp: accepted_def Parse_def valid_lower split: option.splits sum.splits if_splits)

section \<open>Properties\<close>

text \<open>C5. Delivery. When an accepted request is answered with a 200 and the response could be written, the broker released
  secrets, at least one, and a client that parses the body and decodes its fields by name gets exactly those, in order,
  with names, values, events and images, byte for byte; every secret is pinned to some event. (What the server sent was
  decoded as JSON, and the advertised address is valid UTF-8.)\<close>

theorem response_delivers:
  assumes lib: "decoded_lib lib" and addr: "valid_str addr"
    and acc: "accepted sv r env ident" and sv: "sv_handler sv = Handle (client_broker lib cfg pfx addr)"
    and written: "env_writeError env = None"
    and run: "run_state (handlePost sv r env) st = (resp, st')" and ok: "rs_Status resp = 200"
  shows "\<exists>res. run_state (Handle (client_broker lib cfg pfx addr) RequestCtx ident) (backend st) = (res, backend st') \<and>
     r_Status res = 200 \<and> rs_ContentType resp = Some ''application/json'' \<and>
     client_reads (rs_Body resp) = Some (r_Secrets res) \<and>
     r_Secrets res \<noteq> [] \<and> list_all (\<lambda>s. sec_Events s \<noteq> []) (r_Secrets res)"
proof -
  obtain res where res: "run_state (Handle (client_broker lib cfg pfx addr) RequestCtx ident) (backend st) = (res, backend st')"
    "r_Status res = 200" "rs_ContentType resp = Some ''application/json''"
    "client_reads (rs_Body resp) = Some (map valid_secret (r_Secrets res))"
    "r_Secrets res \<noteq> []" "list_all (\<lambda>s. sec_Events s \<noteq> []) (r_Secrets res)"
    using released_read_back [OF acc sv written run ok] by blast
  have "list_all valid_out (r_Secrets res)" by (rule Handle_valid [OF lib addr accepted_Event [OF acc] res(1,2)])
  then show ?thesis using res valid_secret_id by auto
qed

lemma sample_decoded: "decoded_lib (frozen sample_site)"
proof -
  have "valid_json j" if "sample_site rq = RawOK (Some j)" for rq j
    using that
    by (auto simp: sample_site_def site_def key_list_def kv_entry_def valid_ascii split: if_splits option.splits)
  then show ?thesis by (simp add: decoded_lib_def)
qed

theorem response_delivers_witness:
  "\<exists>body. client_reads body = Some sample_secrets"
proof -
  let ?b = "client_broker (frozen sample_site) sample_vx ''ci'' []" and ?st = "New_http (sample_client ())"
  let ?sv = "sample_server Healthy ?b LevelInfo" and ?env = "sample_env tag_payload 0 False"
  obtain res c' where h: "run_state (Handle ?b RequestCtx (sample_identity ''tag'' [])) (sample_client ()) = (res, c')"
    "r_Status res = 200" "r_Secrets res = sample_secrets" using sample_Handle by blast
  obtain resp st' where run: "run_state (handlePost ?sv (sample_request ''POST'' ''/'') ?env) ?st = (resp, st')" by fastforce
  have sv: "sv_handler ?sv = Handle ?b" "env_writeError ?env = None" by (simp_all add: sample_server_def sample_env_def)
  have "rs_Status resp = 200"
    using run unfolding run_accepted [OF sample_accepted] sv
    by (auto simp: New_http_def h Let_def raced_def sample_env_def rendered_status)
  from response_delivers [OF sample_decoded valid_Nil sample_accepted sv run this] h show ?thesis by (auto simp: New_http_def)
qed

end
