(* ===== verification/Secrecy.thy ===== *)
theory Secrecy
  imports HttpProps
begin

text \<open>
  No record tells a secret. Two Vault servers that answer a request alike, up to the token that a mint
  returns and the strings that entries and referenced paths hold, are indistinguishable in the log, the metrics,
  the status of the response and the calls of a request. The relation on replies is stated with the decoders of the client;
  the locale \<open>vault_blind\<close> carries it through \<open>Handle\<close>, and the interpretation discharges it for \<open>*vaultx.Client\<close>.
\<close>

section \<open>What may differ\<close>

text \<open>The token of a mint, the value of a secret, the token of a request.\<close>

definition hide_mint :: "mint \<Rightarrow> mint" where
  "hide_mint m = m\<lparr>Token := []\<rparr>"

definition hide_swept :: "sweptSecret \<Rightarrow> sweptSecret" where
  "hide_swept s = s\<lparr>Value := []\<rparr>"

definition hide_secret :: "secret \<Rightarrow> secret" where
  "hide_secret s = s\<lparr>sec_Value := []\<rparr>"

fun hide_token :: "api_call \<Rightarrow> api_call" where
  "hide_token (Raw rq) = Raw (rq\<lparr>rq_token := []\<rparr>)"
| "hide_token call = call"

text \<open>Fields with the same names, in each of which both or neither hold a string.\<close>

definition alike_data :: "raw_map \<Rightarrow> raw_map \<Rightarrow> bool" where
  "alike_data d d' \<longleftrightarrow>
     list_all2 (\<lambda>(k, v) (k', v'). k = k' \<and> (stringField (Some v) = None \<longleftrightarrow> stringField (Some v') = None)) d d'"

text \<open>Two bodies as an entry: the same custom metadata, fields that are alike, and the same reference, if it is one.\<close>

definition alike_entry :: "json option \<Rightarrow> json option \<Rightarrow> bool" where
  "alike_entry b b' \<longleftrightarrow> rel_option
     (\<lambda>p p'. er_CustomMetadata p = er_CustomMetadata p' \<and> alike_data (er_Data p) (er_Data p') \<and>
        (isPointerForm (er_Data p) \<longrightarrow> map_of (er_Data p) ''$ref'' = map_of (er_Data p') ''$ref''))
     (DecodeJSON dec_entry \<lparr>er_Data = [], er_CustomMetadata = []\<rparr> b)
     (DecodeJSON dec_entry \<lparr>er_Data = [], er_CustomMetadata = []\<rparr> b')"

text \<open>Two bodies as a referenced path: a lease in both or in none, the same shape, fields that are alike.\<close>

definition alike_deref :: "json option \<Rightarrow> json option \<Rightarrow> bool" where
  "alike_deref b b' \<longleftrightarrow> rel_option
     (\<lambda>p p'. (dr_LeaseID p = [] \<longleftrightarrow> dr_LeaseID p' = []) \<and>
        (case (isKV2Shaped (dr_Data p), isKV2Shaped (dr_Data p')) of
           (Some inner, Some inner') \<Rightarrow> alike_data inner inner'
         | (None, None) \<Rightarrow> alike_data (dr_Data p) (dr_Data p')
         | _ \<Rightarrow> False))
     (DecodeJSON dec_deref \<lparr>dr_LeaseID = [], dr_Data = []\<rparr> b)
     (DecodeJSON dec_deref \<lparr>dr_LeaseID = [], dr_Data = []\<rparr> b')"

text \<open>
  Two replies to a request of \<open>ident\<close>: the same status, and for a mint the same but for the token; for the
  revocation any bodies; for a LIST and the two directives the same body; for any other GET bodies that
  are alike, whether it is read as an entry or as a referenced path.
\<close>

definition alike_reply :: "vx_config \<Rightarrow> identity \<Rightarrow> raw_request \<Rightarrow> raw_reply \<Rightarrow> raw_reply \<Rightarrow> bool" where
  "alike_reply cfg ident rq r r' \<longleftrightarrow> r = r' \<or>
     (case (r, r') of
        (RawOK b, RawOK b') \<Rightarrow>
          (if rq_body rq \<noteq> NoBody then map_sum id hide_mint (mint_of_body b) = map_sum id hide_mint (mint_of_body b')
           else if rq_method rq = ''POST'' then True
           else \<not> rq_list rq \<and> rq_path rq \<notin> {''/v1/'' @ identity_path cfg (Base cfg ident), ''/v1/'' @ config_path cfg (Base cfg ident)} \<and>
             alike_entry b b' \<and> alike_deref b b')
      | _ \<Rightarrow> False)"

text \<open>Two servers that answer alike as long as their states are related by \<open>W\<close>, whatever tokens the two requests carry.\<close>

definition alike_servers :: "'w lib \<Rightarrow> 'v lib \<Rightarrow> vx_config \<Rightarrow> identity \<Rightarrow> ('w \<Rightarrow> 'v \<Rightarrow> bool) \<Rightarrow> bool" where
  "alike_servers lib lib' cfg ident W \<longleftrightarrow> lib_lower lib = lib_lower lib' \<and>
     (\<forall>w w' rq tok. W w w' \<longrightarrow>
        alike_reply cfg ident rq (fst (lib_raw lib rq w)) (fst (lib_raw lib' (rq\<lparr>rq_token := tok\<rparr>) w')) \<and>
        W (snd (lib_raw lib rq w)) (snd (lib_raw lib' (rq\<lparr>rq_token := tok\<rparr>) w')))"

text \<open>Two clients with the same session, metrics, log and, up to tokens, calls, on such servers.\<close>

definition alike_clients :: "'w lib \<Rightarrow> 'v lib \<Rightarrow> vx_config \<Rightarrow> identity \<Rightarrow> ('w \<Rightarrow> 'v \<Rightarrow> bool) \<Rightarrow> 'w client \<Rightarrow> 'v client \<Rightarrow> bool" where
  "alike_clients lib lib' cfg ident W c d \<longleftrightarrow> alike_servers lib lib' cfg ident W \<and> W (world c) (world d) \<and>
     session_of c = session_of d \<and> metric_calls c = metric_calls d \<and> log_lines c = log_lines d \<and>
     map hide_token (calls c) = map hide_token (calls d)"

text \<open>Results of a sweep, its accumulators, and results of a request that differ in values only.\<close>

definition alike_acc :: "sweepAccumulator \<Rightarrow> sweepAccumulator \<Rightarrow> bool" where
  "alike_acc a b \<longleftrightarrow> seen a = seen b \<and> map hide_swept (secrets a) = map hide_swept (secrets b) \<and> leasesCreated a = leasesCreated b"

definition alike_swept :: "sweepResult \<Rightarrow> sweepResult \<Rightarrow> bool" where
  "alike_swept s t \<longleftrightarrow> map hide_swept (Secrets s) = map hide_swept (Secrets t)"

definition alike_result :: "result \<Rightarrow> result \<Rightarrow> bool" where
  "alike_result r q \<longleftrightarrow> r_Status r = r_Status q \<and> r_Outcome r = r_Outcome q \<and> r_RevokeFailed r = r_RevokeFailed q \<and>
     r_Audit r = r_Audit q \<and> map hide_secret (r_Secrets r) = map hide_secret (r_Secrets q)"

section \<open>Two Vaults that differ in values only\<close>

locale vault_blind =
  fixes R :: "'s \<Rightarrow> 't \<Rightarrow> bool" and v :: "'s vault" and w :: "'t vault" and ident :: identity
  assumes blind_base: "v_Base v = v_Base w"
    and blind_canary: "in_step_upto R (=) (v_CanaryOK v) (v_CanaryOK w)"
    and blind_mint: "in_step_upto R (rel_sum (=) (\<lambda>m m'. hide_mint m = hide_mint m'))
      (v_MintToken v ctx ps meta dn) (v_MintToken w ctx ps meta dn)"
    and blind_revoke: "in_step_upto R (=) (v_RevokeSelf v ctx tok) (v_RevokeSelf w ctx tok')"
    and blind_identity: "in_step_upto R (=) (v_ReadIdentity v ctx tok (v_Base v ident)) (v_ReadIdentity w ctx tok' (v_Base v ident))"
    and blind_config: "in_step_upto R (=) (v_ReadConfig v ctx tok (v_Base v ident)) (v_ReadConfig w ctx tok' (v_Base v ident))"
    and blind_sweep: "in_step_upto R (rel_sum (=) alike_swept)
      (v_Sweep v ctx tok ident (Branchful (Event ident))) (v_Sweep w ctx tok' ident (Branchful (Event ident)))"

lemma alike_result_refl [simp]: "alike_result r r"
  by (simp add: alike_result_def)

lemma hide_secret_sel: "hide_secret \<lparr>sec_Name = n, sec_Value = x, sec_Events = es, sec_Images = is\<rparr> =
    \<lparr>sec_Name = n, sec_Value = [], sec_Events = es, sec_Images = is\<rparr>"
  by (simp add: hide_secret_def)

lemma secretNames_hidden: "secretNames xs = map sec_Name (map hide_secret xs)"
  by (simp add: secretNames_def hide_secret_def)

lemma alike_build:
  assumes "alike_swept s t"
  shows "alike_result (build_response (New_broker v pfx addr) ident m audit config s)
    (build_response (New_broker w pfx addr) ident m' audit config t)"
proof -
  have e: "Secrets s = [] \<longleftrightarrow> Secrets t = []" using assms unfolding alike_swept_def by (metis map_is_Nil_conv)
  let ?f = "\<lambda>s. \<lparr>sec_Name = Name s, sec_Value = Value s,
      sec_Events = (if Events s = [] then [Event ident] else Events s), sec_Images = Images s\<rparr>"
  have "map (hide_secret \<circ> ?f) xs = map (hide_secret \<circ> ?f) (map hide_swept xs)" for xs
    by (induction xs) (simp_all add: hide_secret_def hide_swept_def)
  from this [of "Secrets s"] this [of "Secrets t"]
  have "map (hide_secret \<circ> ?f) (Secrets s) = map (hide_secret \<circ> ?f) (Secrets t)"
    using assms by (simp only: alike_swept_def)
  then have swept: "map hide_secret (map ?f (Secrets s)) = map hide_secret (map ?f (Secrets t))" by (simp only: map_map)
  have h: "map hide_secret (r_Secrets (build_response (New_broker v pfx addr) ident m audit config s)) =
      map hide_secret (r_Secrets (build_response (New_broker w pfx addr) ident m' audit config t))"
    unfolding build_response_secrets e if_distrib [of "map hide_secret"] map_append swept
    by (simp only: list.map hide_secret_sel New_broker_simps)
  then have "secretNames (r_Secrets (build_response (New_broker v pfx addr) ident m audit config s)) =
      secretNames (r_Secrets (build_response (New_broker w pfx addr) ident m' audit config t))"
    unfolding secretNames_hidden by (rule arg_cong)
  with h e show ?thesis by (simp add: alike_result_def build_response_simps)
qed

context vault_blind begin

lemma minted_blind:
  assumes "hide_mint m = hide_mint m'"
  shows "in_step_upto R alike_result (handle_minted (New_broker v pfx addr) ctx ident ps audit m)
    (handle_minted (New_broker w pfx addr) ctx ident ps audit m')"
proof -
  have m: "TokenType m = TokenType m'" "Warnings m = Warnings m'"
    using assms by (simp_all add: hide_mint_def) (metis mint.select_convs mint.surjective mint.update_convs)+
  show ?thesis
    unfolding handle_minted_def Let_def m New_broker_simps blind_base [symmetric]
    by (auto intro!: upto_return upto_bind [OF blind_identity] upto_bind [OF blind_config] upto_bind [OF blind_sweep] alike_build
        elim!: rel_sum.cases split: sum.split)
qed

lemma Handle_blind:
  "in_step_upto R alike_result (Handle (New_broker v pfx addr) ctx ident) (Handle (New_broker w pfx addr) ctx ident)"
proof -
  have revoked: "in_step_upto R alike_result (deferred_revoke (New_broker v pfx addr) m r) (deferred_revoke (New_broker w pfx addr) m' q)"
    if "alike_result r q" for m m' r q
    using that by (auto simp: deferred_revoke_def alike_result_def intro!: upto_return upto_bind [OF blind_revoke])
  have body: "in_step_upto R alike_result
      (State_Monad.bind (handle_minted (New_broker v pfx addr) ctx ident ps \<lparr>PoliciesRequested = ps, PolicyWarnings = [], SecretNames = [],
          TokenAccessor = Accessor m, TokenTTL = TTL m\<rparr> m)
        (deferred_revoke (New_broker v pfx addr) m))
      (State_Monad.bind (handle_minted (New_broker w pfx addr) ctx ident ps \<lparr>PoliciesRequested = ps, PolicyWarnings = [], SecretNames = [],
          TokenAccessor = Accessor m', TokenTTL = TTL m'\<rparr> m')
        (deferred_revoke (New_broker w pfx addr) m'))"
    if "hide_mint m = hide_mint m'" for ps m m'
  proof -
    have "Accessor m = Accessor m'" "TTL m = TTL m'"
      using that by (simp_all add: hide_mint_def) (metis mint.select_convs mint.surjective mint.update_convs)+
    then show ?thesis by (simp only:) (intro upto_bind [OF minted_blind [OF that]] revoked)
  qed
  show ?thesis
    unfolding Handle_def Let_def New_broker_simps
    by (auto intro!: upto_return upto_bind [OF blind_canary] upto_bind [OF blind_mint] body elim!: rel_sum.cases)
qed

end

section \<open>The client is such a Vault\<close>

lemma alike_data_refl [simp]: "alike_data d d"
  unfolding alike_data_def by (rule list_all2_refl) auto

lemma alike_data_keys: "alike_data d d' \<Longrightarrow> map fst d = map fst d'"
  unfolding alike_data_def by (induction rule: list_all2_induct) auto

lemma alike_data_field: "alike_data d d' \<Longrightarrow> stringField (map_of d k) = None \<longleftrightarrow> stringField (map_of d' k) = None"
  unfolding alike_data_def by (induction rule: list_all2_induct) (auto simp: stringField_def)

lemma alike_data_member: "alike_data d d' \<Longrightarrow> map_of d k = None \<longleftrightarrow> map_of d' k = None"
  by (simp add: map_of_eq_None_keys alike_data_keys)

lemma alike_data_forms:
  assumes "alike_data d d'"
  shows "isPointerForm d = isPointerForm d'" and "isShorthandForm d = isShorthandForm d'"
proof -
  have "length d = length d'" using arg_cong [OF alike_data_keys [OF assms], of length] by simp
  then show "isPointerForm d = isPointerForm d'" "isShorthandForm d = isShorthandForm d'"
    by (simp_all add: isPointerForm_def isShorthandForm_def alike_data_member [OF assms])
qed

lemma alike_acc_add:
  assumes "alike_acc a b"
  shows "alike_acc (add n v im ev a) (add n v' im ev b)"
  using assms by (auto simp: alike_acc_def add_def hide_swept_def)

lemma alike_acc_lease: "alike_acc a b \<Longrightarrow> alike_acc (a\<lparr>leasesCreated := l\<rparr>) (b\<lparr>leasesCreated := l\<rparr>)"
  by (simp add: alike_acc_def)

lemma alike_acc_fields:
  assumes "alike_data d d'" and "alike_acc a b"
  shows "alike_acc (add_fields ul key d im ev a) (add_fields ul key d' im ev b)"
proof -
  let ?f = "\<lambda>d f sw. case stringField (map_of d f) of None \<Rightarrow> sw
      | Some v \<Rightarrow> add (normalizeName ul key @ ''_'' @ normalizeName ul f) v im ev sw"
  have "alike_acc (fold (?f d) fs a) (fold (?f d') fs b)" for fs
    using assms(2)
  proof (induction fs arbitrary: a b)
    case (Cons f fs)
    have "alike_acc (?f d f a) (?f d' f b)"
      using Cons.prems alike_data_field [OF assms(1), of f] by (auto simp: alike_acc_add split: option.split)
    then show ?case by (simp add: Cons.IH)
  qed simp
  then show ?thesis by (simp add: add_fields_def sortedFieldNames_def alike_data_keys [OF assms(1)])
qed

lemma alike_entry_refl [simp]: "alike_entry b b"
  unfolding alike_entry_def by (rule option.rel_refl) simp

lemma alike_deref_refl [simp]: "alike_deref b b"
  unfolding alike_deref_def by (rule option.rel_refl) (simp split: option.split)

text \<open>One call on two servers that answer alike.\<close>

lemma alike_call:
  assumes "alike_clients lib lib' cfg ident W c d"
  shows "alike_reply cfg ident rq (fst (lib_raw lib rq (world c))) (fst (lib_raw lib' (rq\<lparr>rq_token := tok\<rparr>) (world d)))"
    and "alike_clients lib lib' cfg ident W
      (c\<lparr>world := snd (lib_raw lib rq (world c)), calls := calls c @ [Raw rq]\<rparr>)
      (d\<lparr>world := snd (lib_raw lib' (rq\<lparr>rq_token := tok\<rparr>) (world d)), calls := calls d @ [Raw (rq\<lparr>rq_token := tok\<rparr>)]\<rparr>)"
  using assms by (auto simp: alike_clients_def alike_servers_def session_of_def)

lemma upto_count:
  "in_step_upto (alike_clients lib lib' cfg ident W) (\<lambda>_ _. True) (count_metric m) (count_metric m)"
  by (auto simp: in_step_upto_def alike_clients_def count_metric_def session_of_def)

text \<open>The reads: of public paths the same; of the others what is alike.\<close>

lemma upto_public:
  assumes "l \<or> path \<in> {identity_path cfg (Base cfg ident), config_path cfg (Base cfg ident)}"
  shows "in_step_upto (alike_clients lib lib' cfg ident W) (=) (vaultGet lib ctx tok path l) (vaultGet lib' ctx tok' path l)"
  unfolding in_step_upto_def
proof (intro allI impI)
  fix c d assume cd: "alike_clients lib lib' cfg ident W c d"
  let ?rq = "\<lparr>rq_method = ''GET'', rq_path = ''/v1/'' @ path, rq_list = l, rq_token = tok, rq_body = NoBody, rq_ctx = ctx\<rparr>"
  from alike_call [OF cd, of ?rq tok'] assms show
    "fst (run_state (vaultGet lib ctx tok path l) c) = fst (run_state (vaultGet lib' ctx tok' path l) d) \<and>
     alike_clients lib lib' cfg ident W (snd (run_state (vaultGet lib ctx tok path l) c)) (snd (run_state (vaultGet lib' ctx tok' path l) d))"
    by (auto simp: run_vaultGet Let_def split_beta alike_reply_def split: raw_reply.splits)
qed

lemma upto_get:
  "in_step_upto (alike_clients lib lib' cfg ident W) (rel_sum (=) (rel_option (\<lambda>b b'. alike_entry b b' \<and> alike_deref b b')))
     (vaultGet lib ctx tok path False) (vaultGet lib' ctx tok' path False)"
  unfolding in_step_upto_def
proof (intro allI impI)
  fix c d assume cd: "alike_clients lib lib' cfg ident W c d"
  from alike_call [OF cd, of "get_request ctx tok path" tok'] show
    "rel_sum (=) (rel_option (\<lambda>b b'. alike_entry b b' \<and> alike_deref b b'))
       (fst (run_state (vaultGet lib ctx tok path False) c)) (fst (run_state (vaultGet lib' ctx tok' path False) d)) \<and>
     alike_clients lib lib' cfg ident W (snd (run_state (vaultGet lib ctx tok path False) c))
       (snd (run_state (vaultGet lib' ctx tok' path False) d))"
    by (auto simp: run_vaultGet Let_def split_beta alike_reply_def classify_get_def split: raw_reply.splits)
qed

text \<open>The sweep.\<close>

lemma upto_lower:
  assumes "lib_lower lib = lib_lower lib' \<Longrightarrow> in_step_upto (alike_clients lib lib' cfg ident W) Q m n"
  shows "in_step_upto (alike_clients lib lib' cfg ident W) Q m n"
  using assms by (auto simp: in_step_upto_def alike_clients_def alike_servers_def)

lemma upto_sweepDeref:
  assumes "alike_acc a b" and low: "lib_lower lib = lib_lower lib'"
  shows "in_step_upto (alike_clients lib lib' cfg ident W) (rel_sum (=) alike_acc)
    (sweepDeref lib ctx tok key path im ev a) (sweepDeref lib' ctx tok' key path im ev b)"
proof -
  let ?R = "alike_clients lib lib' cfg ident W"
  let ?offer = "\<lambda>ul p sw.
     let sw = (if dr_LeaseID p \<noteq> [] then sw\<lparr>leasesCreated := True\<rparr> else sw) in
     (case isKV2Shaped (dr_Data p) of
        Some inner \<Rightarrow>
          (case stringField (map_of inner ''value'') of
             Some v \<Rightarrow> okE (add (normalizeName ul key) v im ev sw)
           | None \<Rightarrow> okE (add_fields ul key inner im ev sw))
      | None \<Rightarrow> okE (add_fields ul key (dr_Data p) im ev sw))"
  have offer: "in_step_upto ?R (rel_sum (=) alike_acc) (?offer (lib_lower lib') p a) (?offer (lib_lower lib') p' b)"
    if p: "dr_LeaseID p = [] \<longleftrightarrow> dr_LeaseID p' = []"
      and d: "case (isKV2Shaped (dr_Data p), isKV2Shaped (dr_Data p')) of
           (Some inner, Some inner') \<Rightarrow> alike_data inner inner'
         | (None, None) \<Rightarrow> alike_data (dr_Data p) (dr_Data p')
         | _ \<Rightarrow> False" for p p'
  proof (cases "isKV2Shaped (dr_Data p)")
    case None
    with d have "isKV2Shaped (dr_Data p') = None" "alike_data (dr_Data p) (dr_Data p')" by (auto split: option.splits)
    with None show ?thesis using assms(1) by (auto simp: p Let_def intro!: upto_okE alike_acc_fields alike_acc_lease)
  next
    case (Some inner)
    with d obtain inner' where i: "isKV2Shaped (dr_Data p') = Some inner'" "alike_data inner inner'" by (auto split: option.splits)
    with Some show ?thesis using assms(1) alike_data_field [OF i(2), of "''value''"]
      by (auto simp: p Let_def split: option.split intro!: upto_okE alike_acc_fields alike_acc_add alike_acc_lease)
  qed
  show ?thesis
    unfolding sweepDeref_def low
    by (rule upto_bind [OF upto_get], erule upto_sum, simp add: upto_errE, erule upto_option, rule upto_okE, rule assms(1),
        rule upto_bind [OF upto_count], rule upto_option [OF alike_deref_def [THEN iffD1, OF conjunct2]], assumption,
        simp add: upto_errE, rule offer; blast)
qed

lemma upto_sweepEntry:
  assumes "alike_acc a b" and low: "lib_lower lib = lib_lower lib'"
  shows "in_step_upto (alike_clients lib lib' cfg ident W) (rel_sum (=) alike_acc)
    (sweepEntry lib cfg ctx tok tier key a) (sweepEntry lib' cfg ctx tok' tier key b)"
proof -
  let ?R = "alike_clients lib lib' cfg ident W"
  have offer: "in_step_upto ?R (rel_sum (=) alike_acc)
      (if isPointerForm d then
         (case stringField (map_of d ''$ref'') of
            None \<Rightarrow> okE a
          | Some path \<Rightarrow> sweepDeref lib ctx tok key path im ev a)
       else if isShorthandForm d then
         (case stringField (map_of d ''value'') of
            None \<Rightarrow> okE a
          | Some v \<Rightarrow> okE (add (normalizeName (lib_lower lib') key) v im ev a))
       else okE (add_fields (lib_lower lib') key d im ev a))
      (if isPointerForm d' then
         (case stringField (map_of d' ''$ref'') of
            None \<Rightarrow> okE b
          | Some path \<Rightarrow> sweepDeref lib' ctx tok' key path im ev b)
       else if isShorthandForm d' then
         (case stringField (map_of d' ''value'') of
            None \<Rightarrow> okE b
          | Some v \<Rightarrow> okE (add (normalizeName (lib_lower lib') key) v im ev b))
       else okE (add_fields (lib_lower lib') key d' im ev b))"
    if d: "alike_data d d'" and ref: "isPointerForm d \<longrightarrow> map_of d ''$ref'' = map_of d' ''$ref''" for d d' im ev
    using ref assms(1) alike_data_field [OF d, of "''value''"]
    by (auto simp: alike_data_forms [OF d] split: option.split
        intro!: upto_okE upto_sweepDeref low alike_acc_add alike_acc_fields d)
  show ?thesis
    unfolding sweepEntry_def Let_def low split_beta
    by (rule upto_bindE [OF upto_get], erule upto_option, rule upto_okE, rule assms(1),
        rule upto_bind [OF upto_count], rule upto_option [OF alike_entry_def [THEN iffD1, OF conjunct1]], assumption,
        simp add: upto_errE, elim conjE, simp only:, rule offer; assumption)
qed

lemma upto_listTierKeys:
  "in_step_upto (alike_clients lib lib' cfg ident W) (=) (listTierKeys lib cfg ctx tok tier) (listTierKeys lib' cfg ctx tok' tier)"
  unfolding listTierKeys_def bindE_def Let_def
  by (rule upto_bind [OF upto_public])
     (auto simp: okE_def errE_def intro!: upto_return split: sum.split option.split)

lemma upto_Sweep:
  "in_step_upto (alike_clients lib lib' cfg ident W) (rel_sum (=) alike_swept)
    (Sweep lib cfg ctx tok ident' br) (Sweep lib' cfg ctx tok' ident' br)"
proof (rule upto_lower)
  assume low: "lib_lower lib = lib_lower lib'"
  let ?R = "alike_clients lib lib' cfg ident W"
  have tier: "in_step_upto ?R (rel_sum (=) alike_acc) (sweepTier lib cfg ctx tok t a) (sweepTier lib' cfg ctx tok' t b)"
    if "alike_acc a b" for t a b
  proof -
    have "in_step_upto ?R (rel_sum (=) (=)) (listTierKeys lib cfg ctx tok t) (listTierKeys lib' cfg ctx tok' t)"
      by (simp add: sum.rel_eq upto_listTierKeys)
    then show ?thesis
      unfolding sweepTier_def by (rule upto_bindE) (simp add: upto_foldE upto_sweepEntry low that)
  qed
  show "in_step_upto ?R (rel_sum (=) alike_swept) (Sweep lib cfg ctx tok ident' br) (Sweep lib' cfg ctx tok' ident' br)"
    unfolding Sweep_def
    by (rule upto_bindE [OF upto_foldE [where Q = alike_acc, OF tier]])
       (auto intro!: upto_okE simp: alike_acc_def alike_swept_def empty_acc_def)
qed

lemma hidden_mints:
  "rel_sum (=) (\<lambda>m m'. hide_mint m = hide_mint m') r r' \<longleftrightarrow> map_sum id hide_mint r = map_sum id hide_mint r'"
  by (cases r; cases r') auto

interpretation blind: vault_blind "alike_clients lib lib' cfg ident W" "client_vault lib cfg" "client_vault lib' cfg" ident
  for lib lib' cfg ident W
proof
  let ?R = "alike_clients lib lib' cfg ident W"
  show "v_Base (client_vault lib cfg) = v_Base (client_vault lib' cfg)" by simp
  show "in_step_upto ?R (=) (v_CanaryOK (client_vault lib cfg)) (v_CanaryOK (client_vault lib' cfg))"
    by (auto simp: in_step_upto_def alike_clients_def CanaryOK_def session_of_def)
  show "in_step_upto ?R (rel_sum (=) (\<lambda>m m'. hide_mint m = hide_mint m'))
      (v_MintToken (client_vault lib cfg) ctx ps meta dn) (v_MintToken (client_vault lib' cfg) ctx ps meta dn)" for ctx ps meta dn
    unfolding client_broker_simps in_step_upto_def
  proof (intro allI impI)
    fix c d assume cd: "?R c d"
    let ?rq = "\<lparr>rq_method = ''POST'', rq_path = ''/v1/auth/token/create/'' @ cfg_TokenRole cfg, rq_list = False,
       rq_token = api_token c, rq_body = MintBody ps meta dn, rq_ctx = ctx\<rparr>"
    have "api_token d = api_token c" using cd by (simp add: alike_clients_def session_of_def)
    then show "rel_sum (=) (\<lambda>m m'. hide_mint m = hide_mint m')
         (fst (run_state (MintToken lib cfg ctx ps meta dn) c)) (fst (run_state (MintToken lib' cfg ctx ps meta dn) d)) \<and>
       ?R (snd (run_state (MintToken lib cfg ctx ps meta dn) c)) (snd (run_state (MintToken lib' cfg ctx ps meta dn) d))"
      using alike_call [OF cd, of ?rq "api_token d"]
      by (auto simp: MintToken_def run_rawRequest alike_reply_def hidden_mints split: raw_reply.splits)
  qed
  show "in_step_upto ?R (=) (v_RevokeSelf (client_vault lib cfg) ctx tok) (v_RevokeSelf (client_vault lib' cfg) ctx tok')" for ctx tok tok'
    unfolding client_broker_simps in_step_upto_def
  proof (intro allI impI)
    fix c d assume cd: "?R c d"
    let ?rq = "\<lparr>rq_method = ''POST'', rq_path = ''/v1/auth/token/revoke-self'', rq_list = False,
       rq_token = tok, rq_body = NoBody, rq_ctx = ctx\<rparr>"
    from alike_call [OF cd, of ?rq "tok'"]
    show "fst (run_state (RevokeSelf lib ctx tok) c) = fst (run_state (RevokeSelf lib' ctx tok') d) \<and>
       ?R (snd (run_state (RevokeSelf lib ctx tok) c)) (snd (run_state (RevokeSelf lib' ctx tok') d))"
      by (auto simp: RevokeSelf_def run_rawRequest alike_reply_def split: raw_reply.splits)
  qed
  show "in_step_upto ?R (=) (v_ReadIdentity (client_vault lib cfg) ctx tok (v_Base (client_vault lib cfg) ident))
      (v_ReadIdentity (client_vault lib' cfg) ctx tok' (v_Base (client_vault lib cfg) ident))" for ctx tok tok'
    unfolding client_broker_simps ReadIdentity_def bindE_def
    by (rule upto_bind [OF upto_public])
       (auto simp: identity_path_def okE_def errE_def intro!: upto_return split: sum.split option.split)
  show "in_step_upto ?R (=) (v_ReadConfig (client_vault lib cfg) ctx tok (v_Base (client_vault lib cfg) ident))
      (v_ReadConfig (client_vault lib' cfg) ctx tok' (v_Base (client_vault lib cfg) ident))" for ctx tok tok'
    unfolding client_broker_simps ReadConfig_def bindE_def
    by (rule upto_bind [OF upto_public])
       (auto simp: config_path_def okE_def errE_def intro!: upto_return split: sum.split option.split)
  show "in_step_upto ?R (rel_sum (=) alike_swept) (v_Sweep (client_vault lib cfg) ctx tok ident (Branchful (Event ident)))
      (v_Sweep (client_vault lib' cfg) ctx tok' ident (Branchful (Event ident)))" for ctx tok tok'
    unfolding client_broker_simps by (rule upto_Sweep)
qed

section \<open>The records of a request\<close>

lemma alike_records:
  assumes "alike_result res res'"
  shows "audit_records sv ident res = audit_records sv ident res'" and "audit_metrics res = audit_metrics res'"
    and "render_records sv env res = render_records sv env res'" and "rs_Status (rendered env res) = rs_Status (rendered env res')"
    and "alike_result (raced env res) (raced env res')"
  using assms
  by (simp_all add: alike_result_def audit_records_def audit_metrics_def [abs_def] render_records_def audit_attrs_def
      rendered_status raced_def split: option.split)

lemma run_unaccepted:
  assumes "\<nexists>ident. accepted sv r env ident"
  shows "run_state (handlePost (sv\<lparr>sv_handler := h\<rparr>) r env) (st\<lparr>backend := c\<rparr>) =
    (let (resp, t) = run_state (handlePost sv r env) st in (resp, t\<lparr>backend := c\<rparr>))"
  using assms
  by (auto simp: accepted_def handlePost_def read_body_def count_request_def logRefusedSignature_def log_to_def count_def Let_def
      split: option.split sum.split)

text \<open>A server with other secrets behind the paths of the sample server, and another token.\<close>

definition token_body :: "string \<Rightarrow> json option" where
  "token_body tok = Some (JObj [(''auth'', JObj [(''client_token'', JStr tok), (''accessor'', JStr ''acc''),
     (''token_type'', JStr ''service''), (''lease_duration'', JNum ''600'')])])"

definition npm_body :: "string \<Rightarrow> json option" where
  "npm_body v = Some (JObj [(''data'', JObj
     [(''data'', JObj [(''value'', JStr v)]), (''metadata'', JObj [(''custom_metadata'', JObj [])])])])"

definition creds_body :: "string \<Rightarrow> json option" where
  "creds_body v = Some (JObj [(''lease_id'', JStr ''l''), (''data'', JObj [(''pw'', JStr v)])])"

definition other_site :: "raw_request \<Rightarrow> raw_reply" where
  "other_site rq =
     (if rq_body rq \<noteq> NoBody then
        (if rq_path rq = ''/v1/auth/token/create/ci'' then RawOK (token_body ''hvs.other'') else sample_site rq)
      else if rq_method rq = ''GET'' \<and> \<not> rq_list rq then
        (if rq_path rq = ''/v1/kv/data/ci/acme/widgets/tag/npm'' then RawOK (npm_body ''another value'')
         else if rq_path rq = ''/v1/db/creds'' then RawOK (creds_body ''correct horse'')
         else sample_site rq)
      else sample_site rq)"

lemma sample_bodies:
  "rq_path rq = ''/v1/auth/token/create/ci'' \<Longrightarrow> sample_site rq = RawOK (token_body ''tok'')"
  "rq_path rq = ''/v1/kv/data/ci/acme/widgets/tag/npm'' \<Longrightarrow> sample_site rq = RawOK (npm_body ''n1'')"
  "rq_path rq = ''/v1/db/creds'' \<Longrightarrow> sample_site rq = RawOK (creds_body ''x'')"
  by (simp_all add: sample_site_def site_def token_body_def npm_body_def creds_body_def kv_entry_def)

lemma alike_token: "tok \<noteq> [] \<Longrightarrow> map_sum id hide_mint (mint_of_body (token_body tok)) = Inr ((sample_mint [])\<lparr>Token := []\<rparr>)"
  by (simp add: token_body_def mint_of_body_def dec_mint_response_def dec_mint_auth_def decode_eval
      zero_mint_response_def zero_mint_auth_def sample_mint_def hide_mint_def)

lemma alike_npm: "alike_entry (npm_body v) (npm_body v') \<and> alike_deref (npm_body v) (npm_body v')"
  by (simp add: npm_body_def alike_entry_def alike_deref_def DecodeJSON_def dec_kv_entry alike_data_def stringField_def
      isPointerForm_def dec_deref_def find_field_def dec_field_def dec_raw_elem_def isKV2Shaped_def)

lemma alike_creds: "alike_entry (creds_body v) (creds_body v') \<and> alike_deref (creds_body v) (creds_body v')"
  by (simp add: creds_body_def alike_entry_def alike_deref_def DecodeJSON_def dec_entry_def alike_data_def stringField_def
      isPointerForm_def dec_deref_def dec_raw_elem_def isKV2Shaped_def decode_eval)

lemma sample_alike:
  "alike_clients (frozen sample_site) (frozen other_site) sample_vx (sample_identity ''tag'' []) (\<lambda>_ _. True)
     (sample_client ()) (sample_client ())"
proof -
  let ?id = "sample_identity ''tag'' []"
  have paths: "identity_path sample_vx (Base sample_vx ?id) = ''kv/data/ci/acme/widgets/.identity''"
    "config_path sample_vx (Base sample_vx ?id) = ''kv/data/ci/acme/widgets/.config''"
    by (simp_all add: identity_path_def config_path_def Base_def sample_vx_def sample_identity_def)
  have "alike_reply sample_vx ?id rq (sample_site rq) (other_site rq)" for rq
    using alike_npm [of "''n1''" "''another value''"] alike_creds [of "''x''" "''correct horse''"] alike_token [of "''tok''"]
      alike_token [of "''hvs.other''"]
    by (auto simp: alike_reply_def other_site_def sample_bodies paths)
  moreover have "other_site (rq\<lparr>rq_token := tok\<rparr>) = other_site rq" for rq tok
    by (simp add: other_site_def sample_site_def site_def)
  ultimately show ?thesis by (simp add: alike_clients_def alike_servers_def)
qed

section \<open>Properties\<close>

text \<open>C36. No record carries a secret. Take two Vault servers that answer the requests for an identity alike, up to the
  token of the mint and the strings that entries and referenced paths hold, and one POST, which the program serves on the
  one and on the other: then the log records, the metrics and the status of the response are the same, the client
  logs and counts the same, and makes the same calls up to the token they carry, whatever becomes of the request.\<close>

theorem records_blind:
  fixes st :: "'w client http_state"
  assumes alike: "alike_clients lib lib' cfg ident W (backend st) c"
    and of: "\<And>i. Parse (sv_lower sv) (env_body env) = Inr i \<Longrightarrow> i = ident"
    and sv: "sv_handler sv = Handle (client_broker lib cfg pfx addr)"
    and run: "run_state (handlePost sv r env) st = (resp, t)"
    and run': "run_state (handlePost (sv\<lparr>sv_handler := Handle (client_broker lib' cfg pfx addr)\<rparr>) r env) (st\<lparr>backend := c\<rparr>) = (resp', t')"
  shows "log_records t' = log_records t \<and> metrics_of t' = metrics_of t \<and> rs_Status resp' = rs_Status resp \<and>
    log_lines (backend t') = log_lines (backend t) \<and> metric_calls (backend t') = metric_calls (backend t) \<and>
    map hide_token (calls (backend t')) = map hide_token (calls (backend t))"
proof (cases "accepted sv r env ident")
  case True
  let ?h = "Handle (client_broker lib cfg pfx addr) RequestCtx ident" and ?h' = "Handle (client_broker lib' cfg pfx addr) RequestCtx ident"
  let ?sv' = "sv\<lparr>sv_handler := Handle (client_broker lib' cfg pfx addr)\<rparr>"
  have "accepted ?sv' r env ident" using True by (simp add: accepted_def)
  note served = run_accepted [OF True, of st, unfolded run sv] run_accepted [OF this, of "st\<lparr>backend := c\<rparr>", unfolded run']
  obtain res d where h: "run_state ?h (backend st) = (res, d)" by fastforce
  obtain res' d' where h': "run_state ?h' c = (res', d')" by fastforce
  from uptoD [OF blind.Handle_blind alike, folded client_broker_def, of pfx addr RequestCtx]
  have alike_res: "alike_result res res'" and after: "alike_clients lib lib' cfg ident W d d'" by (simp_all add: h h')
  have "alike_result (raced env res) (raced env res')" by (rule alike_records(5) [OF alike_res])
  note same = alike_records(1) [OF this, of sv ident] alike_records(2) [OF this] alike_records(3) [OF this, of sv env]
    alike_records(4) [OF this, of env]
  have level: "audit_records ?sv' = audit_records sv" "render_records ?sv' = render_records sv"
    by (auto simp: audit_records_def render_records_def intro!: ext split: option.split)
  from served have "t = st\<lparr>backend := d, metrics_of := audit_metrics (raced env res) (metrics_of st),
        log_records := log_records st @ render_records sv env (raced env res) @ audit_records sv ident (raced env res)\<rparr>"
      "resp = rendered env (raced env res)"
    and "t' = st\<lparr>backend := d', metrics_of := audit_metrics (raced env res') (metrics_of st),
        log_records := log_records st @ render_records sv env (raced env res') @ audit_records sv ident (raced env res')\<rparr>"
      "resp' = rendered env (raced env res')"
    by (simp_all add: Let_def h h' sv level)
  then show ?thesis using same after by (simp add: alike_clients_def)
next
  case False
  then have none: "\<not> accepted sv r env i" for i using of by (auto simp: accepted_def)
  then have "\<nexists>i. accepted sv r env i" by blast
  from run_unaccepted [OF this, where h = "Handle (client_broker lib' cfg pfx addr)" and st = st and c = c] run run' run_refused [OF none run]
  show ?thesis using alike by (auto simp: alike_clients_def)
qed

theorem records_blind_witness:
  "let run = \<lambda>srv. run_state (handlePost (sample_server Healthy (client_broker (frozen srv) sample_vx ''ci'' []) LevelDebug)
       (sample_request ''POST'' ''/'') (sample_env tag_payload 0 False)) (New_http (sample_client ())) in
   log_records (snd (run sample_site)) = log_records (snd (run other_site)) \<and> sample_site \<noteq> other_site"
proof -
  let ?sv = "sample_server Healthy (client_broker (frozen sample_site) sample_vx ''ci'' []) LevelDebug"
  let ?env = "sample_env tag_payload 0 False" and ?st = "New_http (sample_client ())"
  have sv: "?sv\<lparr>sv_handler := Handle (client_broker (frozen other_site) sample_vx ''ci'' [])\<rparr> =
      sample_server Healthy (client_broker (frozen other_site) sample_vx ''ci'' []) LevelDebug"
    "sv_handler ?sv = Handle (client_broker (frozen sample_site) sample_vx ''ci'' [])"
    "sv_lower ?sv = ascii_table" "env_body ?env = tag_payload"
    by (simp_all add: sample_server_def New_server_def sample_env_def)
  have st: "backend ?st = sample_client ()" "?st\<lparr>backend := sample_client ()\<rparr> = ?st" by (simp_all add: New_http_def)
  have "other_site (get_request RequestCtx [] ''db/creds'') \<noteq> sample_site (get_request RequestCtx [] ''db/creds'')"
    by (simp add: other_site_def sample_bodies creds_body_def)
  then have ne: "sample_site \<noteq> other_site" by metis
  obtain resp t where run: "run_state (handlePost ?sv (sample_request ''POST'' ''/'') ?env) ?st = (resp, t)" by fastforce
  obtain resp' t' where run': "run_state (handlePost (?sv\<lparr>sv_handler := Handle (client_broker (frozen other_site) sample_vx ''ci'' [])\<rparr>)
      (sample_request ''POST'' ''/'') ?env) (?st\<lparr>backend := sample_client ()\<rparr>) = (resp', t')" by fastforce
  have "log_records t' = log_records t"
  proof -
    have "i = sample_identity ''tag'' []" if "Parse (sv_lower ?sv) (env_body ?env) = Inr i" for i
      using that tag_Parse unfolding sv by simp
    moreover have "alike_clients (frozen sample_site) (frozen other_site) sample_vx (sample_identity ''tag'' []) (\<lambda>_ _. True)
        (backend ?st) (sample_client ())" unfolding st(1) by (rule sample_alike)
    ultimately show ?thesis using records_blind [OF _ _ sv(2) run run'] by blast
  qed
  then show ?thesis unfolding Let_def run [unfolded sv] run' [unfolded sv st] using ne by simp
qed

end
