(* ===== verification/Spec2Isabelle.thy ===== *)
theory Spec2Isabelle
  imports Program Confined WpsignTest Delivery Secrecy
begin

text \<open>
  Verification library of ironbark, a broker that serves Vault secrets to Woodpecker pipelines. Woodpecker POSTs a signed
  description of a pipeline; ironbark verifies the signature, derives Vault policies from the repository, event and
  branch, mints a token with these policies, reads as that token the secrets that are laid out in
  tiers under the repository, and answers with them. This text says which part of the program each theory
  models, what its theorems show, and what is left out.

  \<^bold>\<open>Languages and libraries.\<close> \<open>Prelude\<close>: Go's value-or-error results in the state monad, loops that stop at the first
  error, relations between the states before and after an operation. \<open>GoStrings\<close>: byte strings, splitting, UTF-8,
  lower-casing and trimming. \<open>GoJson\<close>, \<open>GoDecode\<close>, \<open>GoEncode\<close>: the parser, the typed decoder and the encoder of
  \<open>encoding/json\<close>; the parser's fuel is twice the length of the text plus two, and \<open>j_fuel\<close> shows that more fuel never
  changes a result. \<open>GoValid\<close>: the strings of a parsed text are valid UTF-8, and what the program does with them keeps
  them so. \<open>GoTime\<close>: 64-bit durations, the saturating difference of instants, \<open>time.ParseDuration\<close>. \<open>Slog\<close>: log
  levels, their order, records and the handler's threshold.

  \<^bold>\<open>Identity and policy.\<close> \<open>Identity\<close> (\<open>internal/identity\<close>): \<open>Parse\<close>, \<open>splitFullName\<close>, \<open>Esc\<close>; parsed identities are well formed,
  nothing but six members of a payload matters (\<open>others_ignored\<close>), \<open>Esc\<close> has an inverse and yields one path segment.
  \<open>Policy\<close> (\<open>internal/policy\<close>): \<open>Derive\<close>; policies of different repositories are disjoint, policies of different branches too as
  long as events have no slash, and \<open>branch_policy_holders\<close> says who else holds one when they have.

  \<^bold>\<open>Vault.\<close> \<open>VaultApi\<close>: the client record of \<open>internal/vaultx/client.go\<close> and its requests. The Vault, the network and the API library are
  the parameter \<open>lib\<close> over an outside state; every call appends itself to \<open>calls\<close>. \<open>Mint\<close>, \<open>Canary\<close>, \<open>Sweep\<close>, \<open>Directives\<close>: the
  files \<open>mint.go\<close>, \<open>canary.go\<close>, \<open>sweep.go\<close>, function by function; a sweep refines a specification without an accumulator on a
  Vault that does not change, makes only the reads it should, and takes the most specific tier. \<open>Session\<close>: login,
  renewal and the goroutine \<open>Run\<close> as the step relation \<open>step\<close>, interleaved with requests; the readiness flags agree with the history in
  every reachable state. \<open>Lifecycle\<close>: readiness is recovered within three steps, and after the cancellation every run of
  the goroutine stops within four.

  \<^bold>\<open>Broker.\<close> \<open>Broker\<close> (\<open>internal/broker\<close>): the interface \<open>Vault\<close> as a record, \<open>Handle\<close> and its deferred revocation, and the locale
  \<open>vault_contract\<close> of what it relies on, \<open>vault_keeps\<close> of what it keeps, and \<open>vault_simulation\<close> of two Vaults in step. \<open>BrokerProps\<close>:
  the client fulfils the contract; when secrets are released, which ones, what is revoked, what the audit record
  holds. \<open>Interleave\<close>: the same broker on a client that the lifecycle and other requests change between its operations, with an
  interpretation of each of the three locales; what a request calls is the same under every interleaving, an uninterrupted
  request is the sequential one, and two things the canary flag does not do: it is not looked at again when the
  session changes before the mint, and a lost session does not clear it. \<open>Confined\<close>: under every interleaving a request reads
  its own repository only, and one other path only where the server just answered the read of an own entry with a reference to it
  (\<open>own_step\<close>, \<open>request_group\<close>); and the repositories are disjoint.

  \<^bold>\<open>HTTP.\<close> \<open>Wpsign\<close> (\<open>internal/wpsign\<close>): \<open>Verify\<close> over the parameter \<open>sig_lib\<close> for the signature library; who is accepted, with the freshness
  window on 64-bit words. \<open>WpsignTest\<close> (\<open>internal/wpsign/wpsigntest\<close>): the signer of the tests; what it signs is accepted, and refused with
  another body. \<open>HttpApi\<close> (\<open>internal/httpapi\<close>): routes, body limit, signature check, the timeout race, rendering, audit
  records, counters. \<open>HttpProps\<close>: the locale \<open>handler_contract\<close> and its interpretation on the broker; only verified requests reach the
  broker, every POST whose body was read is counted once, and what the timeout race loses. \<open>Delivery\<close>: a client reads
  from the body exactly the secrets the broker released, byte for byte, because every string in them was decoded as
  JSON or configured. \<open>Secrecy\<close>: on two Vaults that differ in the minted token and the values of secrets only, a request leaves the same
  records, metrics and calls; the locale \<open>vault_blind\<close> carries the relation through \<open>Handle\<close>.

  \<^bold>\<open>The program.\<close> \<open>Config\<close> (\<open>internal/config\<close>): \<open>Load\<close> from the environment; \<open>Program\<close> (\<open>cmd/ironbark/main.go\<close>): start-up, wiring,
  shutdown and exit status, and the program as the step relation \<open>prog_step\<close> of lifecycle steps and served requests, which records
  every response with the session's history at the moment of the canary check. In every run the request counters and the log agree with the
  responses (\<open>runs_accounting\<close>). This theory joins the components: every release in every run is sound, readiness and the counters are the truth.

  \<^bold>\<open>Abstractions.\<close> Before each operation a request makes on its \<open>Vault\<close>, the lifecycle and other requests take any number of steps; other
  requests may change the outside state and the client in any way that keeps the session (rule \<open>request\<close> of \<open>step\<close>). Inside an operation the
  session is read at one point at most, so finer turns add nothing; the counters and records of one request are written
  in one go. Time is what an outside choice says it is: the clock of a request, which branch
  of the timeout race is taken, which timers are armed with which interval. In the race the handler runs to its end in its
  own goroutine, as in the code. Error values keep what the program looks at. Counters are unbounded. The client starts
  without the token that \<open>api.NewClient\<close> may take from \<open>VAULT_TOKEN\<close>; paths are recorded as the code composes them, before the library cleans
  them; a log record does not tell a nil slice from an empty one.

  \<^bold>\<open>Not modelled.\<close> The TCP listener, signals and the draining of connections (the runtime's I/O); PEM, PKIX and
  Ed25519 (parameters); the Prometheus text format and the bodies of the router's own replies (parameters); the
  help texts of the counters; the request target \<open>*\<close>.
\<close>

section \<open>Requests and the canary\<close>

text \<open>Secrets need a canary: in every state the program can reach, with the lifecycle and any number of requests
  interleaved, a request that is not interrupted is answered with a 200 only if a canary run has passed since the latest login
  and none has failed since; and handling it is again a step of the program.\<close>

theorem Handle_needs_canary:
  assumes "reachable lib cfg pfx s"
    and "r_Status (fst (run_state (Handle (client_broker lib cfg pfx addr) ctx ident) (cl s))) = 200"
  shows "passed_since_login (history s) \<and>
    reachable lib cfg pfx (s\<lparr>cl := snd (run_state (Handle (client_broker lib cfg pfx addr) ctx ident) (cl s))\<rparr>)"
proof
  show "passed_since_login (history s)"
    using reachable_inv [OF assms(1)] Handle_canary [OF assms(2)] by (simp add: life_inv_def)
  show "reachable lib cfg pfx (s\<lparr>cl := snd (run_state (Handle (client_broker lib cfg pfx addr) ctx ident) (cl s))\<rparr>)"
    using assms(1) request [OF Handle_session] unfolding reachable_def by (metis rtranclp.rtrancl_into_rtrancl)
qed

theorem Handle_needs_canary_witness:
  "\<exists>s. reachable (no_auth_lib 600) sample_vx ''ci'' s \<and> passed_since_login (history s) \<and>
     reachable (no_auth_lib 600) sample_vx ''ci'' (s\<lparr>cl := snd (run_state (Handle
       (client_broker (no_auth_lib 600) sample_vx ''ci'' []) RequestCtx (sample_identity ''tag'' [])) (cl s))\<rparr>)"
proof -
  obtain s where s: "reachable (no_auth_lib 600) sample_vx ''ci'' s" "history s = [EvLogin, EvCanaryPass]"
    using sample_session by blast
  have "canaryOK (cl s)" using reachable_inv [OF s(1)] s(2) by (simp add: life_inv_def passed_since_login_def)
  from Handle_needs_canary [OF s(1) sample_released [OF no_auth_raw(1) this]] s(1) show ?thesis by blast
qed

section \<open>The program\<close>

text \<open>A configuration, and a run of the program under it: a login, a canary, and one request.\<close>

definition sample_config :: config where
  "sample_config =
     \<lparr>ListenAddr = '':8080'', VaultAddr = cfg_Addr sample_vx, TokenRole = cfg_TokenRole sample_vx, KVMount = cfg_KVMount sample_vx,
      KVPrefix = cfg_KVPrefix sample_vx, PolicyPrefix = ''ci'', AdvertiseVaultAddr = [], LogLevel = ''info'',
      WoodpeckerPublicKey = ''K'', VaultRoleID = cfg_RoleID sample_vx, VaultSecretID = cfg_SecretID sample_vx,
      FreshnessWindow = 10 * second\<rparr>"

abbreviation sample_wired :: "(unit shared, unit) server" where
  "sample_wired \<equiv> program_server (no_auth_lib 600) (sample_sig 0) (\<lambda>_. status_only 200) (\<lambda>_. (None, [])) sample_config"

lemma sample_config_simps [simp]:
  "vault_config sample_config = sample_vx" "PolicyPrefix sample_config = ''ci''" "AdvertiseVaultAddr sample_config = []"
  "WoodpeckerPublicKey sample_config = ''K''" "FreshnessWindow sample_config = 10 * second"
  by (simp_all add: sample_config_def vault_config_def)

lemma lifecycle_runs:
  assumes "(step lib (vault_config conf) (PolicyPrefix conf))\<^sup>*\<^sup>* (p_life p) t"
  shows "(prog_step lib sv conf)\<^sup>*\<^sup>* p (p\<lparr>p_life := t\<rparr>)"
  using assms
proof (induction rule: rtranclp_induct)
  case base
  show ?case by simp
next
  case (step s t)
  have "prog_step lib sv conf (p\<lparr>p_life := s\<rparr>) (p\<lparr>p_life := s\<rparr>\<lparr>p_life := t\<rparr>)"
    by (rule session_step) (simp add: step.hyps(2))
  with step.IH show ?case by simp
qed

lemma sample_wired_accepted:
  "accepted sample_wired (sample_request ''POST'' ''/'') (sample_env tag_payload 0 False) (sample_identity ''tag'' [])"
  using tag_Parse tag_short by (simp add: accepted_def sample_env_def sample_Verify no_auth_lib_def)

lemma sample_program:
  "\<exists>p. runs_to (no_auth_lib 600) sample_wired sample_config p \<and> history (p_life p) = [EvLogin, EvCanaryPass] \<and>
     filter released (p_served p) \<noteq> []"
proof -
  let ?lib = "no_auth_lib 600" and ?p = "start_program () []"
  obtain s where s: "(step ?lib sample_vx ''ci'')\<^sup>*\<^sup>* (initial (New True ())) s" "history s = [EvLogin, EvCanaryPass]"
    using sample_steps [of 600 True] by blast
  have "reachable ?lib sample_vx ''ci'' s" using s(1) by (auto simp: reachable_def)
  from reachable_inv [OF this] s(2) have up: "canaryOK (cl s)" by (simp add: life_inv_def passed_since_login_def)
  let ?q = "?p\<lparr>p_life := s\<rparr>"
  have q: "(prog_step ?lib sample_wired sample_config)\<^sup>*\<^sup>* ?p ?q"
    using lifecycle_runs [of ?lib sample_config ?p s sample_wired] s(1) by (simp add: start_program_def wire_client_New)
  let ?r = "sample_request ''POST'' ''/''" and ?env = "sample_env tag_payload 0 False"
  obtain res c where sole: "run_state (Handle (client_broker ?lib sample_vx ''ci'' []) RequestCtx (sample_identity ''tag'' []))
      (cl (sh_life (backend (http_view [] ?q)))) = (res, c)" and ok: "r_Status res = 200"
    unfolding http_view_simps using sample_released [OF no_auth_raw(1) up, of 600] by (simp add: prod_eq_iff)
  from alone_Handle [OF _ sole] ok obtain s' where h: "run_state (Handle (shared_broker ?lib sample_vx ''ci'' []) RequestCtx (sample_identity ''tag'' []))
      (backend (http_view [] ?q)) = (res, s')" "r_Status res = 200" "alone s c s'"
    by auto
  obtain resp st where run: "run_state (ServeHTTP sample_wired ?r ?env) (http_view [] ?q) = (resp, st)" by fastforce
  have route: "route_of (hr_Method ?r) (hr_Path ?r) = RPost" by (simp add: sample_request_def sample_route)
  have "rs_Status resp = 200 \<and> backend st = s'"
    using run route run_accepted [OF sample_wired_accepted, of "http_view [] ?q"] h
    by (auto simp: ServeHTTP_def Let_def raced_def sample_env_def rendered_status simp del: http_view_simps)
  with route h(3) have "filter released (p_served (serve sample_wired ?r ?env [] ?q)) \<noteq> [] \<and>
      history (p_life (serve sample_wired ?r ?env [] ?q)) = [EvLogin, EvCanaryPass]"
    unfolding serve_def run Let_def by (simp add: start_program_def released_def alone_def s(2))
  moreover have "prog_step ?lib sample_wired sample_config ?q (serve sample_wired ?r ?env [] ?q)"
    by (rule serve_step) (simp add: obeys_def)
  with q have "runs_to ?lib sample_wired sample_config (serve sample_wired ?r ?env [] ?q)"
    unfolding runs_to_def by (meson rtranclp.rtrancl_into_rtrancl)
  ultimately show ?thesis by blast
qed

text \<open>C1. Every release is sound. Run the program with any Vault and any signature library, with the lifecycle and any requests
  interleaved, also between the operations of a request, for any number of steps: every POST that was answered with a 200 had
  the signature headers, was vouched for by the library under the configured key for the very body that was read, was
  created within the freshness window of the clock, parsed to an identity, and asked for the canary at a
  moment when one had passed since the latest login and none had failed since.\<close>

theorem releases_sound:
  assumes "runs_to lib (program_server lib sl prom mux conf) conf p"
  shows "list_all (\<lambda>e. passed_since_login (sd_history e) \<and>
     (\<exists>created ident. vouched sl (sd_request e) (env_body (sd_env e)) (WoodpeckerPublicKey conf) created \<and>
        \<not> stale (FreshnessWindow conf) (time_Sub (env_now (sd_env e)) created) \<and>
        Parse (lib_lower lib) (env_body (sd_env e)) = Inr ident)) (filter released (p_served p))"
  by (rule list.pred_mono_strong [OF runs_sound [OF assms]]) (auto simp: sound_def)

theorem releases_sound_witness:
  "\<exists>p. runs_to (no_auth_lib 600) sample_wired sample_config p \<and> filter released (p_served p) \<noteq> [] \<and>
     list_all (\<lambda>e. passed_since_login (sd_history e)) (filter released (p_served p))"
proof -
  obtain p where p: "runs_to (no_auth_lib 600) sample_wired sample_config p" "filter released (p_served p) \<noteq> []"
    using sample_program by blast
  from releases_sound [OF p(1)] p show ?thesis by (auto simp: list_all_iff)
qed

text \<open>C32. Readiness is the truth. In every state the program can reach, \<open>GET /readyz\<close> answers 200 if the session is alive and a canary has passed
  since the latest login, else 503; and asking changes nothing.\<close>

theorem readyz_truth:
  assumes "runs_to lib (program_server lib sl prom mux conf) conf p"
  shows "run_state (ServeHTTP (program_server lib sl prom mux conf) (r\<lparr>hr_Method := ''GET'', hr_Path := ''/readyz''\<rparr>) env) (http_view [] p) =
    (status_only (if session_alive (history (p_life p)) \<and> passed_since_login (history (p_life p)) then 200 else 503), http_view [] p)"
proof -
  have "route_of ''GET'' ''/readyz'' = RReadyz"
    by (simp add: route_of_def cleanPath_def path_patterns_eq pathUnescape_def unesc.simps(2) Let_def)
  moreover have "Healthy (cl (p_life p)) \<longleftrightarrow> session_alive (history (p_life p)) \<and> passed_since_login (history (p_life p))"
    using reachable_inv [OF runs_reachable [OF assms]] by (auto simp: life_inv_def Healthy_def)
  ultimately show ?thesis by (simp add: ServeHTTP_def handleReadyz_def http_view_def)
qed

theorem readyz_truth_witness:
  "\<exists>p. fst (run_state (ServeHTTP sample_wired ((sample_request ''HEAD'' ''/'')\<lparr>hr_Method := ''GET'', hr_Path := ''/readyz''\<rparr>)
      (sample_env [] 0 False)) (http_view [] p)) = status_only 200"
proof -
  obtain p where p: "runs_to (no_auth_lib 600) sample_wired sample_config p" "history (p_life p) = [EvLogin, EvCanaryPass]"
    using sample_program by blast
  from readyz_truth [OF p(1), of "sample_request ''HEAD'' ''/''" "sample_env [] 0 False"] p(2) show ?thesis
    by (intro exI [of _ p]) (simp add: session_alive_def passed_since_login_def)
qed

text \<open>C37. The counters and the log tell the truth. At any moment of any run of the program, the counters of
  \<open>ironbark_requests_total\<close> are the numbers of the POSTs, of those whose body was read, that were answered with the statuses
  of their labels (\<open>error\<close> counts the 400s and the 502s), together all of them, and after what \<open>main\<close> logged
  at the start the server has logged one record at info level for each, unless the log level of the program drops them all (the lines
  of the session goroutine are kept apart, in the client). The POSTs whose body was not read appear in neither.\<close>

theorem accounts_true:
  assumes "(prog_step lib (program_server lib sl prom mux conf) conf)\<^sup>*\<^sup>* (start_program w started) p"
  shows "let m = requestsTotal (p_metrics p) in
    m ''ok'' = replied {200} p \<and> m ''refused_signature'' = replied {401} p \<and>
    m ''unonboarded'' + m ''identity_mismatch'' = replied {204} p \<and> m ''error'' = replied {400, 502} p \<and>
    m ''ok'' + m ''refused_signature'' + m ''unonboarded'' + m ''identity_mismatch'' + m ''error'' = replied UNIV p \<and>
    (\<exists>new. p_log p = started @ new \<and>
       at_info new = (if parseLogLevel (lib_lower lib) (LogLevel conf) \<le> LevelInfo then replied UNIV p else 0))"
  using runs_accounting [OF assms program_server_simps(1)]
  unfolding tallied_def logged_def Let_def program_server_simps
  by (elim conjE, intro conjI) (assumption | linarith)+

theorem accounts_true_witness:
  "\<exists>p. requestsTotal (p_metrics p) ''ok'' = replied {200} p \<and>
     filter released (p_served (p :: unit program)) \<noteq> []"
proof -
  obtain p :: "unit program" where p: "runs_to (no_auth_lib 600) sample_wired sample_config p" "filter released (p_served p) \<noteq> []"
    using sample_program by blast
  then obtain w started where "(prog_step (no_auth_lib 600) sample_wired sample_config)\<^sup>*\<^sup>* (start_program w started) p"
    by (auto simp: runs_to_def)
  from accounts_true [OF this] p(2) show ?thesis by (auto simp: Let_def)
qed

end
